(* ===== verification/SHC_Prelude.thy ===== *)
theory SHC_Prelude
  imports Main "HOL-Library.AList" "HOL-Library.Word"
begin

text \<open>
  Shared vocabulary of the development: the Go types and run-time conventions the
  components use, and the generic facts on lists and association lists that carry the
  component proofs.

  \<^item> Integers. A Go \<^verbatim>\<open>uint32\<close> is a \<open>32 word\<close>, a \<^verbatim>\<open>uint64\<close> a \<open>64 word\<close>; \<^verbatim>\<open>int\<close>,
    \<^verbatim>\<open>int64\<close> and \<^verbatim>\<open>time.Duration\<close> are \<open>int\<close>, with \<open>wrap64\<close> where the code multiplies
    two of them.
  \<^item> Time. A \<^verbatim>\<open>time.Time\<close> is the number of nanoseconds since the zero time, so that
    \<^verbatim>\<open>t.IsZero()\<close> is \<open>t = 0\<close>; a \<^verbatim>\<open>time.Duration\<close> is a number of nanoseconds. Every
    reading of the clock by the code is an argument of the model.
  \<^item> Maps. A Go map is an association list read through \<^const>\<open>map_of\<close>, so it is finite
    and executable; an absent key reads as the zero value of the element type. The order
    in which \<^verbatim>\<open>range\<close> visits a map is unspecified in Go: an operation whose result depends
    on it takes the order as an argument, constrained by \<open>range_order\<close>.
  \<^item> Strings are byte lists (\<^typ>\<open>string\<close>).
\<close>

section \<open>Types\<close>

type_synonym u8 = "8 word"
type_synonym u32 = "32 word"
type_synonym u64 = "64 word"
type_synonym gtime = int
type_synonym duration = int
type_synonym ('k, 'v) gomap = "('k \<times> 'v) list"

named_theorems gomap_simps \<open>reading a Go map after a write or a delete\<close>

section \<open>Definitions\<close>

subsection \<open>Go maps\<close>

definition gm_get :: "'v \<Rightarrow> ('k, 'v) gomap \<Rightarrow> 'k \<Rightarrow> 'v" where
  "gm_get zero m k = (case map_of m k of None \<Rightarrow> zero | Some v \<Rightarrow> v)"

abbreviation gm_put :: "'k \<Rightarrow> 'v \<Rightarrow> ('k, 'v) gomap \<Rightarrow> ('k, 'v) gomap" where
  "gm_put \<equiv> AList.update"

abbreviation gm_del :: "'k \<Rightarrow> ('k, 'v) gomap \<Rightarrow> ('k, 'v) gomap" where
  "gm_del \<equiv> AList.delete"

definition gm_keys :: "('k, 'v) gomap \<Rightarrow> 'k list" where
  "gm_keys m = map fst m"

abbreviation gm_wf :: "('k, 'v) gomap \<Rightarrow> bool" where
  "gm_wf m \<equiv> distinct (map fst m)"

text \<open>\<open>range_order m ks\<close>: \<open>ks\<close> is an order in which \<^verbatim>\<open>range\<close> may visit the keys of \<open>m\<close>.\<close>

definition range_order :: "('k, 'v) gomap \<Rightarrow> 'k list \<Rightarrow> bool" where
  "range_order m ks \<longleftrightarrow> distinct ks \<and> set ks = set (gm_keys m)"

subsection \<open>Integers and time\<close>

definition wrap64 :: "int \<Rightarrow> int" where
  "wrap64 x = (x + 2 ^ 63) mod 2 ^ 64 - 2 ^ 63"

abbreviation second :: duration where
  "second \<equiv> 1000000000"

abbreviation millisecond :: duration where
  "millisecond \<equiv> 1000000"

text \<open>\<^verbatim>\<open>t.Sub(u)\<close>, \<^verbatim>\<open>time.Since\<close> and \<^verbatim>\<open>time.Until\<close> saturate at the ends of \<^verbatim>\<open>int64\<close>.\<close>

definition time_sub :: "gtime \<Rightarrow> gtime \<Rightarrow> duration" where
  "time_sub t u = max (- (2 ^ 63)) (min (2 ^ 63 - 1) (t - u))"

text \<open>Go's division on signed integers truncates towards zero.\<close>

definition go_quot :: "int \<Rightarrow> int \<Rightarrow> int" where
  "go_quot a b = sgn a * sgn b * (\<bar>a\<bar> div \<bar>b\<bar>)"

definition go_rem :: "int \<Rightarrow> int \<Rightarrow> int" where
  "go_rem a b = a - b * go_quot a b"

subsection \<open>Decimal printing (strconv.Itoa)\<close>

definition digit_char :: "nat \<Rightarrow> char" where
  "digit_char d = char_of (48 + d)"

fun nat_digits :: "nat \<Rightarrow> string" where
  "nat_digits n = (if n < 10 then [digit_char n]
                   else nat_digits (n div 10) @ [digit_char (n mod 10)])"

declare nat_digits.simps [simp del]

definition itoa :: "int \<Rightarrow> string" where
  "itoa i = (if i < 0 then CHR ''-'' # nat_digits (nat (- i)) else nat_digits (nat i))"

subsection \<open>First occurrences\<close>

text \<open>The elements of a list without repetition, in the order of their first occurrence.\<close>

fun uniq :: "'a list \<Rightarrow> 'a list" where
  "uniq [] = []"
| "uniq (x # xs) = x # filter (\<lambda>y. y \<noteq> x) (uniq xs)"

section \<open>Facts\<close>


subsection \<open>Go maps\<close>

lemma gm_put_map_of [gomap_simps, simp]: "map_of (gm_put k v m) = (map_of m)(k \<mapsto> v)"
  by (rule update_conv')

lemma gm_del_map_of [gomap_simps, simp]: "map_of (gm_del k m) = (map_of m)(k := None)"
  by (rule delete_conv')

lemma gm_get_put [gomap_simps]: "gm_get z (gm_put k v m) k' = (if k' = k then v else gm_get z m k')"
  by (simp add: gm_get_def)

lemma gm_get_del [gomap_simps]: "gm_get z (gm_del k m) k' = (if k' = k then z else gm_get z m k')"
  by (simp add: gm_get_def)

lemma gm_get_empty [gomap_simps, simp]: "gm_get z [] k = z"
  by (simp add: gm_get_def)

lemma gm_wf_put [simp, intro]: "gm_wf m \<Longrightarrow> gm_wf (gm_put k v m)"
  by (rule distinct_update)

lemma gm_wf_del [simp, intro]: "gm_wf m \<Longrightarrow> gm_wf (gm_del k m)"
  by (rule distinct_delete)

lemma gm_keys_dom: "set (gm_keys m) = dom (map_of m)"
  by (simp add: gm_keys_def dom_map_of_conv_image_fst)

lemma set_gm_keys_put [gomap_simps, simp]: "set (gm_keys (gm_put k v m)) = insert k (set (gm_keys m))"
  by (simp add: gm_keys_dom)

lemma set_gm_keys_del [gomap_simps, simp]: "set (gm_keys (gm_del k m)) = set (gm_keys m) - {k}"
  by (simp add: gm_keys_dom)

lemma map_of_Some_key: "map_of m k = Some v \<Longrightarrow> k \<in> set (gm_keys m)"
  by (auto simp: gm_keys_dom)

lemma not_key_map_of: "k \<notin> set (gm_keys m) \<longleftrightarrow> map_of m k = None"
  by (simp add: gm_keys_dom domIff)

lemma length_gm_del_le: "length (gm_del k m) \<le> length m"
  by (rule length_delete_le)

lemma length_gm_put: "length (gm_put k v m) = (if k \<in> set (gm_keys m) then length m else Suc (length m))"
  by (induction m) (auto simp: gm_keys_def)

lemma length_gm_del: "gm_wf m \<Longrightarrow> length (gm_del k m) = length m - (if k \<in> set (gm_keys m) then 1 else 0)"
proof -
  assume wf: "gm_wf m"
  have "length (gm_del k m) = card (set (gm_keys (gm_del k m)))"
    using wf distinct_card [of "map fst (gm_del k m)"] by (simp add: gm_keys_def)
  also have "\<dots> = card (set (gm_keys m) - {k})" by simp
  also have "\<dots> = card (set (gm_keys m)) - (if k \<in> set (gm_keys m) then 1 else 0)"
    by (simp add: gm_keys_def card_Diff_singleton_if)
  also have "card (set (gm_keys m)) = length m"
    using wf distinct_card [of "map fst m"] by (simp add: gm_keys_def)
  finally show ?thesis .
qed

lemma range_order_key: "range_order m ks \<Longrightarrow> k \<in> set ks \<longleftrightarrow> map_of m k \<noteq> None"
  by (auto simp: range_order_def gm_keys_dom)

lemma range_order_length: "gm_wf m \<Longrightarrow> range_order m ks \<Longrightarrow> length ks = length m"
  using distinct_card [of ks] distinct_card [of "map fst m"]
  by (auto simp: range_order_def gm_keys_def)

lemma range_order_self: "gm_wf m \<Longrightarrow> range_order m (gm_keys m)"
  by (simp add: range_order_def gm_keys_def)

subsection \<open>Integers and time\<close>

lemma wrap64_id: "- (2 ^ 63) \<le> x \<Longrightarrow> x < 2 ^ 63 \<Longrightarrow> wrap64 x = x"
  by (simp add: wrap64_def)

lemma wrap64_range: "- (2 ^ 63) \<le> wrap64 x \<and> wrap64 x < 2 ^ 63"
proof -
  have "0 \<le> (x + 2 ^ 63) mod 2 ^ 64" "(x + 2 ^ 63) mod 2 ^ 64 < 2 ^ 64" by simp_all
  then show ?thesis unfolding wrap64_def by simp
qed

lemma time_sub_id: "- (2 ^ 63) \<le> t - u \<Longrightarrow> t - u < 2 ^ 63 \<Longrightarrow> time_sub t u = t - u"
  by (simp add: time_sub_def)

lemma time_sub_ge_iff: "- (2 ^ 63) < d \<Longrightarrow> d < 2 ^ 63 \<Longrightarrow> d \<le> time_sub t u \<longleftrightarrow> d \<le> t - u"
  by (auto simp: time_sub_def)

lemma time_sub_mono: "t \<le> t' \<Longrightarrow> time_sub t u \<le> time_sub t' u"
  by (auto simp: time_sub_def)

lemma time_sub_pos_iff: "0 < time_sub t u \<longleftrightarrow> u < t"
  by (auto simp: time_sub_def)

lemma go_quot_nonneg: "0 \<le> a \<Longrightarrow> 0 < b \<Longrightarrow> go_quot a b = a div b"
  by (cases "a = 0") (simp_all add: go_quot_def)

lemma go_rem_nonneg: "0 \<le> a \<Longrightarrow> 0 < b \<Longrightarrow> go_rem a b = a mod b"
  by (simp add: go_rem_def go_quot_nonneg minus_mult_div_eq_mod)

subsection \<open>Decimal printing\<close>

lemma digit_char_inj: "d < 10 \<Longrightarrow> e < 10 \<Longrightarrow> digit_char d = digit_char e \<longleftrightarrow> d = e"
proof -
  assume "d < 10" "e < 10"
  then have "(of_char (digit_char d) :: nat) = 48 + d" "(of_char (digit_char e) :: nat) = 48 + e"
    by (simp_all add: digit_char_def)
  then show ?thesis by (metis add_left_cancel)
qed

lemma digit_char_not_hash: "d < 10 \<Longrightarrow> digit_char d \<noteq> CHR ''#''"
proof
  assume d: "d < 10" and eq: "digit_char d = CHR ''#''"
  from d have "(of_char (digit_char d) :: nat) = 48 + d" by (simp add: digit_char_def)
  with eq show False by simp
qed

lemma nat_digits_not_hash: "CHR ''#'' \<notin> set (nat_digits n)"
proof (induction n rule: nat_digits.induct)
  case (1 n)
  then show ?case
    by (cases "n < 10") (auto simp: nat_digits.simps [of n] digit_char_not_hash [symmetric])
qed

lemma nat_digits_nonempty [simp]: "nat_digits n \<noteq> []"
  by (simp add: nat_digits.simps [of n])

lemma nat_digits_length_1: "length (nat_digits n) = 1 \<longleftrightarrow> n < 10"
  by (cases "n < 10") (simp_all add: nat_digits.simps [of n])

lemma nat_digits_inj: "nat_digits m = nat_digits n \<Longrightarrow> m = n"
proof (induction m arbitrary: n rule: nat_digits.induct)
  case (1 m)
  have same: "m < 10 \<longleftrightarrow> n < 10"
    using "1.prems" nat_digits_length_1 [of m] nat_digits_length_1 [of n] by simp
  show ?case
  proof (cases "m < 10")
    case True
    with same "1.prems" show ?thesis
      by (simp add: nat_digits.simps [of m] nat_digits.simps [of n] digit_char_inj)
  next
    case False
    with same "1.prems" have d: "nat_digits (m div 10) = nat_digits (n div 10)"
        and m: "m mod 10 = n mod 10"
      by (simp_all add: nat_digits.simps [of m] nat_digits.simps [of n] digit_char_inj)
    from "1.IH" [OF False d] m show ?thesis by (metis div_mult_mod_eq)
  qed
qed

subsection \<open>First occurrences\<close>

lemma set_uniq [simp]: "set (uniq xs) = set xs"
  by (induction xs) auto

lemma distinct_uniq [simp]: "distinct (uniq xs)"
  by (induction xs) auto

lemma uniq_filter: "uniq (filter P xs) = filter P (uniq xs)"
  by (induction xs) (auto simp: conj_commute intro!: filter_cong)

lemma uniq_eq_Nil [simp]: "uniq xs = [] \<longleftrightarrow> xs = []"
  by (cases xs) auto

lemma hd_uniq: "xs \<noteq> [] \<Longrightarrow> hd (uniq xs) = hd xs"
  by (cases xs) auto

lemma length_uniq: "length (uniq xs) = card (set xs)"
  using distinct_card [OF distinct_uniq, of xs] by simp

lemma uniq_append: "uniq (xs @ ys) = uniq xs @ filter (\<lambda>y. y \<notin> set xs) (uniq ys)"
  by (induction xs) (auto simp: conj_commute intro!: filter_cong)

subsection \<open>Prefixes of filtered lists\<close>

lemma set_filter_take_subset: "set (filter P (take c xs)) \<subseteq> set (take c (filter P xs))"
proof (induction xs arbitrary: c)
  case (Cons x xs)
  show ?case
  proof (cases c)
    case (Suc d)
    have "set (take d (filter P xs)) \<subseteq> set (take (Suc d) (filter P xs))"
      by (rule set_take_subset_set_take) simp
    with Cons.IH [of d] Suc show ?thesis by auto
  qed simp
qed simp

lemma card_set_gm_wf: "gm_wf m \<Longrightarrow> card (fst ` set m) = length m"
  using distinct_card [of "map fst m"] by simp

lemma gm_get_Some: "k \<in> set (gm_keys m) \<Longrightarrow> map_of m k = Some (gm_get z m k)"
  by (auto simp: gm_keys_dom gm_get_def)

lemma gm_del_put_fresh: "k \<notin> set (gm_keys m) \<Longrightarrow> gm_del k (gm_put k v m) = m"
  by (induction m) (auto simp: gm_keys_def)

end
