(* ===== verification/Placement.thy ===== *)
theory Placement
  imports SHC_Prelude
begin

text \<open>
  The contract a key-placement scheme offers to the router, the replicator, the rebalancer
  and the gateway: every key has a preference list of the member nodes, the first being
  its primary and the next ones its replicas, and a membership change touches the lists
  only at the node that joins or leaves. What a client needs of it (minimal remapping,
  promotion of the replica, stability of replica sets) is proved here once, from the laws.
\<close>

locale placement =
  fixes valid :: "'r \<Rightarrow> bool"
    and members :: "'r \<Rightarrow> string set"
    and pref :: "'r \<Rightarrow> string \<Rightarrow> string list"
    and joinable :: "'r \<Rightarrow> string \<Rightarrow> bool"
    and join :: "string \<Rightarrow> string \<Rightarrow> 'r \<Rightarrow> 'r"
    and leave :: "string \<Rightarrow> 'r \<Rightarrow> 'r"
  assumes pref_distinct: "valid r \<Longrightarrow> distinct (pref r k)"
    and pref_members: "valid r \<Longrightarrow> set (pref r k) = members r"
    and joinable_fresh: "joinable r n \<Longrightarrow> n \<notin> members r"
    and valid_join: "valid r \<Longrightarrow> joinable r n \<Longrightarrow> valid (join n a r)"
    and valid_leave: "valid r \<Longrightarrow> valid (leave n r)"
    and members_join: "valid r \<Longrightarrow> joinable r n \<Longrightarrow> members (join n a r) = insert n (members r)"
    and pref_join: "valid r \<Longrightarrow> joinable r n \<Longrightarrow> filter (\<lambda>m. m \<noteq> n) (pref (join n a r) k) = pref r k"
    and pref_leave: "valid r \<Longrightarrow> n \<in> members r \<Longrightarrow> pref (leave n r) k = filter (\<lambda>m. m \<noteq> n) (pref r k)"
begin

lemma pref_nonempty: "valid r \<Longrightarrow> members r \<noteq> {} \<Longrightarrow> pref r k \<noteq> []"
  using pref_members [of r k] by auto

lemma primary_after_join:
  assumes "valid r" "joinable r n" "members r \<noteq> {}"
  shows "hd (pref (join n a r) k) \<in> {n, hd (pref r k)}"
proof -
  have "members (join n a r) \<noteq> {}" using assms by (simp add: members_join)
  then obtain m ms where ms: "pref (join n a r) k = m # ms"
    using pref_nonempty [of "join n a r" k] valid_join [of r n a] assms by (cases "pref (join n a r) k") auto
  have eq: "pref r k = filter (\<lambda>x. x \<noteq> n) (m # ms)" using pref_join [of r n a k] assms(1,2) ms by simp
  show ?thesis by (cases "m = n") (simp_all add: ms eq)
qed

lemma primary_after_leave:
  assumes "valid r" "n \<in> members r" "hd (pref r k) \<noteq> n"
  shows "hd (pref (leave n r) k) = hd (pref r k)"
  using assms pref_nonempty [of r k] by (cases "pref r k") (auto simp: pref_leave)

lemma replica_promoted:
  assumes "valid r" "pref r k = p # q # rest"
  shows "hd (pref (leave p r) k) = q"
proof -
  have "p \<in> members r" "q \<noteq> p" using pref_members [of r k] pref_distinct [of r k] assms by auto
  with assms show ?thesis by (simp add: pref_leave)
qed

lemma leave_join: "valid r \<Longrightarrow> joinable r n \<Longrightarrow> pref (leave n (join n a r)) k = pref r k"
  by (simp add: pref_leave pref_join members_join valid_join)

lemma pref_length: "valid r \<Longrightarrow> length (pref r k) = card (members r)"
  using pref_distinct [of r k] pref_members [of r k] by (metis distinct_card)

text \<open>Any replica set of a key changes by at most one node when a node joins.\<close>

lemma replicas_after_join:
  assumes "valid r" "joinable r n"
  shows "set (take c (pref (join n a r) k)) \<subseteq> insert n (set (take c (pref r k)))"
proof -
  have "set (take c (pref (join n a r) k)) - {n} = set (filter (\<lambda>m. m \<noteq> n) (take c (pref (join n a r) k)))"
    by auto
  also have "\<dots> \<subseteq> set (take c (filter (\<lambda>m. m \<noteq> n) (pref (join n a r) k)))"
    by (rule set_filter_take_subset)
  finally show ?thesis using pref_join [OF assms, of a k] by auto
qed

end

end
