(* ===== verification/Hash_Ring.thy ===== *)
theory Hash_Ring
  imports Sha256 Placement "HOL-Library.Multiset"
begin

text \<open>
  The consistent hash ring (\<^verbatim>\<open>backend/internal/hashing/ring.go\<close>).

  \<^item> State: the record \<open>hash_ring\<close>, field by field the Go struct; the mutex makes every
    method atomic, so each method is one function on the record.
  \<^item> Operations: \<open>ring_New\<close>, \<open>ring_AddNode\<close>, \<open>ring_RemoveNode\<close>, \<open>ring_GetPrimaryNode\<close>,
    \<open>ring_GetNodes\<close>, \<open>ring_GetTopology\<close>, \<open>ring_HashKey\<close>, \<open>ring_NodeCount\<close>, with the
    library's binary search \<open>sort_Search\<close> written out.
  \<^item> Specification: the clockwise order of the tokens from a key's hash (\<open>clockwise\<close>) and
    the preference list of a key (\<open>prefs\<close>: the owners in that order, without
    repetition). The lookups are shown to compute prefixes of the preference list, and
    adding or removing a node to insert or delete that one node in it.
\<close>

section \<open>Definitions\<close>

subsection \<open>Data\<close>

record node_target =
  nt_NodeID :: string
  nt_Addr :: string

record vnode_info =
  vi_Hash :: u32
  vi_NodeID :: string
  vi_VNode :: int

record ring_topology =
  rt_TotalVNodes :: nat
  rt_Nodes :: "node_target list"
  rt_VNodes :: "vnode_info list"

record hash_ring =
  hr_vnodes :: int
  hr_hashFunc :: "string \<Rightarrow> u32"
  hr_ring :: "u32 list"
  hr_vnodeToNode :: "(u32, string) gomap"
  hr_nodeAddresses :: "(string, string) gomap"
  hr_nodes :: "(string, bool) gomap"

text \<open>\<open>PanicMakeCap\<close> stands for the run-time panic of \<^verbatim>\<open>make\<close> on a negative capacity.\<close>

datatype ring_error = ErrNoNodesInRing | PanicMakeCap

definition DefaultHashFunc :: "string \<Rightarrow> u32" where
  "DefaultHashFunc data = be_uint32 (take 4 (sha256 data))"

subsection \<open>Operations\<close>

definition ring_New :: "int \<Rightarrow> (string \<Rightarrow> u32) option \<Rightarrow> hash_ring" where
  "ring_New vnodes hashFunc =
     \<lparr>hr_vnodes = (if vnodes \<le> 0 then 50 else vnodes),
      hr_hashFunc = (case hashFunc of None \<Rightarrow> DefaultHashFunc | Some f \<Rightarrow> f),
      hr_ring = [], hr_vnodeToNode = [], hr_nodeAddresses = [], hr_nodes = []\<rparr>"

definition vnodeKey :: "string \<Rightarrow> nat \<Rightarrow> string" where
  "vnodeKey nodeID i = nodeID @ ''#vnode:'' @ itoa (int i)"

abbreviation ring_has :: "hash_ring \<Rightarrow> string \<Rightarrow> bool" where
  "ring_has h nodeID \<equiv> gm_get False (hr_nodes h) nodeID"

text \<open>
  The loop of \<open>internalRemoveNode\<close>: a token whose current owner is the node is dropped
  and its map entry deleted, every other token is kept.
\<close>

fun removeTokens :: "string \<Rightarrow> u32 list \<Rightarrow> (u32, string) gomap \<Rightarrow> u32 list \<times> (u32, string) gomap" where
  "removeTokens nodeID [] m = ([], m)"
| "removeTokens nodeID (hash # rest) m =
     (if gm_get '''' m hash = nodeID then removeTokens nodeID rest (gm_del hash m)
      else let (newRing, m') = removeTokens nodeID rest m in (hash # newRing, m'))"

definition ring_internalRemoveNode :: "string \<Rightarrow> hash_ring \<Rightarrow> hash_ring" where
  "ring_internalRemoveNode nodeID h =
     (if \<not> ring_has h nodeID then h
      else let (newRing, m) = removeTokens nodeID (hr_ring h) (hr_vnodeToNode h)
           in h\<lparr>hr_nodes := gm_del nodeID (hr_nodes h),
                hr_nodeAddresses := gm_del nodeID (hr_nodeAddresses h),
                hr_vnodeToNode := m, hr_ring := newRing\<rparr>)"

text \<open>
  The capacity \<open>internalRemoveNode\<close> passes to \<^verbatim>\<open>make\<close>, which panics on a negative one.
\<close>

definition remove_capacity :: "hash_ring \<Rightarrow> int" where
  "remove_capacity h = int (length (hr_ring h)) - hr_vnodes h"

definition ring_RemoveNode :: "string \<Rightarrow> hash_ring \<Rightarrow> hash_ring" where
  "ring_RemoveNode nodeID h = ring_internalRemoveNode nodeID h"

definition addVNode :: "string \<Rightarrow> nat \<Rightarrow> hash_ring \<Rightarrow> hash_ring" where
  "addVNode nodeID i h =
     (let hash = hr_hashFunc h (vnodeKey nodeID i)
      in h\<lparr>hr_ring := hr_ring h @ [hash], hr_vnodeToNode := gm_put hash nodeID (hr_vnodeToNode h)\<rparr>)"

definition ring_AddNode :: "string \<Rightarrow> string \<Rightarrow> hash_ring \<Rightarrow> hash_ring" where
  "ring_AddNode nodeID addr h0 =
     (let h = (if nodeID \<noteq> addr \<and> ring_has h0 addr then ring_internalRemoveNode addr h0 else h0)
      in if ring_has h nodeID
         then h\<lparr>hr_nodeAddresses := gm_put nodeID addr (hr_nodeAddresses h)\<rparr>
         else let h1 = h\<lparr>hr_nodes := gm_put nodeID True (hr_nodes h),
                         hr_nodeAddresses := gm_put nodeID addr (hr_nodeAddresses h)\<rparr>;
                  h2 = fold (addVNode nodeID) [0..<nat (hr_vnodes h1)] h1
              in h2\<lparr>hr_ring := sort (hr_ring h2)\<rparr>)"

text \<open>\<^verbatim>\<open>sort.Search(n, f)\<close> of the standard library: binary search for the least index
  with \<open>f\<close>.\<close>

function search_loop :: "(nat \<Rightarrow> bool) \<Rightarrow> nat \<Rightarrow> nat \<Rightarrow> nat" where
  "search_loop f i j =
     (if i < j then let h = (i + j) div 2 in
        if \<not> f h then search_loop f (h + 1) j else search_loop f i h
      else i)"
  by pat_completeness auto
termination
  by (relation "measure (\<lambda>(f, i, j). j - i)") auto

declare search_loop.simps [simp del]

definition sort_Search :: "nat \<Rightarrow> (nat \<Rightarrow> bool) \<Rightarrow> nat" where
  "sort_Search n f = search_loop f 0 n"

definition ring_index :: "hash_ring \<Rightarrow> u32 \<Rightarrow> nat" where
  "ring_index h keyHash =
     (let idx = sort_Search (length (hr_ring h)) (\<lambda>i. keyHash \<le> hr_ring h ! i)
      in if idx = length (hr_ring h) then 0 else idx)"

definition ring_target :: "hash_ring \<Rightarrow> string \<Rightarrow> node_target" where
  "ring_target h nodeID = \<lparr>nt_NodeID = nodeID, nt_Addr = gm_get '''' (hr_nodeAddresses h) nodeID\<rparr>"

abbreviation ring_owner :: "hash_ring \<Rightarrow> u32 \<Rightarrow> string" where
  "ring_owner h hash \<equiv> gm_get '''' (hr_vnodeToNode h) hash"

definition ring_GetPrimaryNode :: "hash_ring \<Rightarrow> string \<Rightarrow> ring_error + node_target \<times> u32" where
  "ring_GetPrimaryNode h key =
     (if hr_ring h = [] then Inl ErrNoNodesInRing
      else let keyHash = hr_hashFunc h key;
               vnodeHash = hr_ring h ! ring_index h keyHash;
               nodeID = ring_owner h vnodeHash
           in Inr (ring_target h nodeID, keyHash))"

text \<open>The loop of \<open>GetNodes\<close>: \<open>k\<close> tokens are left to visit, \<open>acc\<close> is \<open>uniqueNodes\<close>.\<close>

fun collect_nodes :: "hash_ring \<Rightarrow> nat \<Rightarrow> int \<Rightarrow> nat \<Rightarrow> string list \<Rightarrow> node_target list \<Rightarrow> node_target list" where
  "collect_nodes h idx cnt 0 seen acc = acc"
| "collect_nodes h idx cnt (Suc k) seen acc =
     (let i = length (hr_ring h) - Suc k in
      if int (length acc) < cnt then
        let curIdx = (idx + i) mod length (hr_ring h);
            vnodeHash = hr_ring h ! curIdx;
            nodeID = ring_owner h vnodeHash
        in if nodeID \<notin> set seen
           then collect_nodes h idx cnt k (nodeID # seen) (acc @ [ring_target h nodeID])
           else collect_nodes h idx cnt k seen acc
      else acc)"

text \<open>A negative \<open>cnt\<close> makes \<^verbatim>\<open>make([]NodeTarget, 0, count)\<close> panic.\<close>

definition ring_GetNodes :: "hash_ring \<Rightarrow> string \<Rightarrow> int \<Rightarrow> ring_error + node_target list" where
  "ring_GetNodes h key cnt =
     (if hr_ring h = [] then Inl ErrNoNodesInRing
      else if cnt < 0 then Inl PanicMakeCap
      else Inr (collect_nodes h (ring_index h (hr_hashFunc h key)) cnt (length (hr_ring h)) [] []))"

text \<open>\<open>GetTopology\<close> visits the node set in the unspecified order \<open>order\<close>; the code leaves
  \<open>vnode_index\<close> at its zero value.\<close>

definition ring_GetTopology :: "hash_ring \<Rightarrow> string list \<Rightarrow> ring_topology" where
  "ring_GetTopology h order =
     \<lparr>rt_TotalVNodes = length (hr_ring h),
      rt_Nodes = map (ring_target h) order,
      rt_VNodes = map (\<lambda>hash. \<lparr>vi_Hash = hash, vi_NodeID = ring_owner h hash, vi_VNode = 0\<rparr>) (hr_ring h)\<rparr>"

definition ring_HashKey :: "hash_ring \<Rightarrow> string \<Rightarrow> u32" where
  "ring_HashKey h key = hr_hashFunc h key"

definition ring_NodeCount :: "hash_ring \<Rightarrow> nat" where
  "ring_NodeCount h = length (hr_nodes h)"

subsection \<open>Specification\<close>

text \<open>A predicate on indices below \<open>n\<close> that stays true once it is.\<close>

definition upward :: "nat \<Rightarrow> (nat \<Rightarrow> bool) \<Rightarrow> bool" where
  "upward n f \<longleftrightarrow> (\<forall>a b. a \<le> b \<and> b < n \<and> f a \<longrightarrow> f b)"

text \<open>The tokens in clockwise order from a position of the circle.\<close>

definition clockwise :: "u32 list \<Rightarrow> u32 \<Rightarrow> u32 list" where
  "clockwise ts p = filter (\<lambda>t. p \<le> t) ts @ filter (\<lambda>t. t < p) ts"

text \<open>The preference list of a key: the owners met on the way around the circle.\<close>

definition prefs :: "hash_ring \<Rightarrow> string \<Rightarrow> string list" where
  "prefs h key = uniq (map (ring_owner h) (clockwise (hr_ring h) (hr_hashFunc h key)))"

definition vtokens :: "(string \<Rightarrow> u32) \<Rightarrow> int \<Rightarrow> string \<Rightarrow> u32 list" where
  "vtokens hf vn n = map (\<lambda>i. hf (vnodeKey n i)) [0..<nat vn]"

text \<open>No two virtual nodes of the given physical nodes have the same token.\<close>

definition collision_free :: "(string \<Rightarrow> u32) \<Rightarrow> int \<Rightarrow> string list \<Rightarrow> bool" where
  "collision_free hf vn ns \<longleftrightarrow> distinct (concat (map (vtokens hf vn) ns))"

text \<open>The node ids registered on a ring.\<close>

abbreviation ring_ids :: "hash_ring \<Rightarrow> string list" where
  "ring_ids h \<equiv> gm_keys (hr_nodes h)"

text \<open>
  Well-formedness of any ring the operations can build from nodes with non-empty ids, with
  or without token collisions: the tokens are sorted, there are
  at least \<open>vnodes\<close> tokens per node, every mapped token is on the ring and owned by a
  registered node, and the address book has exactly the registered nodes.
\<close>

definition ring_wf :: "hash_ring \<Rightarrow> bool" where
  "ring_wf h \<longleftrightarrow>
     0 < hr_vnodes h \<and> sorted (hr_ring h) \<and>
     gm_wf (hr_nodes h) \<and> gm_wf (hr_nodeAddresses h) \<and> gm_wf (hr_vnodeToNode h) \<and>
     (\<forall>b \<in> snd ` set (hr_nodes h). b) \<and> '''' \<notin> set (ring_ids h) \<and>
     set (gm_keys (hr_nodeAddresses h)) = set (ring_ids h) \<and>
     set (gm_keys (hr_vnodeToNode h)) \<subseteq> set (hr_ring h) \<and>
     (\<forall>t n. map_of (hr_vnodeToNode h) t = Some n \<longrightarrow> n \<in> set (ring_ids h)) \<and>
     hr_vnodes h * int (length (hr_nodes h)) \<le> int (length (hr_ring h)) \<and>
     (\<forall>n. card {t. map_of (hr_vnodeToNode h) t = Some n} \<le> nat (hr_vnodes h))"

text \<open>A well-formed ring without token collisions: each token is on the ring once and is
  mapped to the node it was derived from.\<close>

definition ring_exact :: "hash_ring \<Rightarrow> bool" where
  "ring_exact h \<longleftrightarrow>
     ring_wf h \<and> collision_free (hr_hashFunc h) (hr_vnodes h) (ring_ids h) \<and>
     mset (hr_ring h) = mset (concat (map (vtokens (hr_hashFunc h) (hr_vnodes h)) (ring_ids h))) \<and>
     (\<forall>n \<in> set (ring_ids h). \<forall>t \<in> set (vtokens (hr_hashFunc h) (hr_vnodes h) n).
        map_of (hr_vnodeToNode h) t = Some n)"

text \<open>A node can join when its id is new and none of its tokens is taken.\<close>

definition ring_joinable :: "hash_ring \<Rightarrow> string \<Rightarrow> bool" where
  "ring_joinable h n \<longleftrightarrow> n \<noteq> [] \<and> n \<notin> set (ring_ids h) \<and>
     collision_free (hr_hashFunc h) (hr_vnodes h) (ring_ids h @ [n])"

text \<open>The rings a program can build from nodes with non-empty ids.\<close>

inductive ring_reachable :: "hash_ring \<Rightarrow> bool" where
  new: "ring_reachable (ring_New vn hf)"
| add: "ring_reachable h \<Longrightarrow> n \<noteq> '''' \<Longrightarrow> ring_reachable (ring_AddNode n a h)"
| remove: "ring_reachable h \<Longrightarrow> ring_reachable (ring_RemoveNode n h)"

text \<open>The state after the fresh branch of \<open>AddNode\<close>.\<close>

definition ring_insert :: "string \<Rightarrow> string \<Rightarrow> hash_ring \<Rightarrow> hash_ring" where
  "ring_insert n a h =
     h\<lparr>hr_nodes := gm_put n True (hr_nodes h), hr_nodeAddresses := gm_put n a (hr_nodeAddresses h),
       hr_vnodeToNode := fold (\<lambda>i. gm_put (hr_hashFunc h (vnodeKey n i)) n) [0..<nat (hr_vnodes h)] (hr_vnodeToNode h),
       hr_ring := sort (hr_ring h @ vtokens (hr_hashFunc h) (hr_vnodes h) n)\<rparr>"

text \<open>A small hash function and ring on which the witnesses evaluate.\<close>

definition demo_hash :: "string \<Rightarrow> u32" where
  "demo_hash s = of_nat (10 * length s)"

definition demo_ring :: hash_ring where
  "demo_ring = ring_AddNode ''CCC'' ''http://c'' (ring_AddNode ''BB'' ''http://b''
     (ring_AddNode ''A'' ''http://a'' (ring_New 1 (Some demo_hash))))"

section \<open>Binary search\<close>

lemma search_loop_step:
  assumes "i < j"
  shows "search_loop f i j =
    (if f ((i + j) div 2) then search_loop f i ((i + j) div 2) else search_loop f ((i + j) div 2 + 1) j)"
  using assms by (subst search_loop.simps) (simp add: Let_def)

lemma search_loop_stop: "\<not> i < j \<Longrightarrow> search_loop f i j = i"
  by (subst search_loop.simps) simp

lemma search_loop_spec:
  assumes "i \<le> j" "j \<le> n" "\<forall>k < i. \<not> f k" "\<forall>k. j \<le> k \<and> k < n \<longrightarrow> f k" "upward n f"
  shows "search_loop f i j \<le> n \<and> (\<forall>k < search_loop f i j. \<not> f k)
    \<and> (\<forall>k. search_loop f i j \<le> k \<and> k < n \<longrightarrow> f k)"
  using assms
proof (induction f i j rule: search_loop.induct)
  case (1 f i j)
  let ?h = "(i + j) div 2"
  consider (finished) "\<not> i < j" | (right) "i < j" "\<not> f ?h" | (left) "i < j" "f ?h" by blast
  then show ?case
  proof cases
    case finished
    with "1.prems" show ?thesis by (simp add: search_loop_stop)
  next
    case right
    then have lt: "?h < j" by simp
    have "\<forall>k < ?h + 1. \<not> f k" using right(2) lt "1.prems"(2,5)
      unfolding upward_def by (metis Suc_eq_plus1 less_Suc_eq_le order_less_le_trans)
    with "1.IH"(1) [OF right(1) refl right(2)] "1.prems" lt right show ?thesis
      by (simp add: search_loop_step)
  next
    case left
    then have lt: "?h < j" "i \<le> ?h" by simp_all
    have "\<forall>k. ?h \<le> k \<and> k < n \<longrightarrow> f k" using left(2) "1.prems"(5) unfolding upward_def by blast
    with "1.IH"(2) [OF left(1) refl] left "1.prems" lt show ?thesis
      by (simp add: search_loop_step)
  qed
qed

lemma sort_Search_least:
  assumes "upward n f"
  shows "sort_Search n f \<le> n" "\<forall>k < sort_Search n f. \<not> f k"
    "\<forall>k. sort_Search n f \<le> k \<and> k < n \<longrightarrow> f k"
proof -
  have "search_loop f 0 n \<le> n \<and> (\<forall>k < search_loop f 0 n. \<not> f k)
    \<and> (\<forall>k. search_loop f 0 n \<le> k \<and> k < n \<longrightarrow> f k)"
    by (rule search_loop_spec [OF _ _ _ _ assms]) auto
  then show "sort_Search n f \<le> n" "\<forall>k < sort_Search n f. \<not> f k"
    "\<forall>k. sort_Search n f \<le> k \<and> k < n \<longrightarrow> f k"
    unfolding sort_Search_def by blast+
qed

lemma sorted_takeWhile_less: "sorted ts \<Longrightarrow> takeWhile (\<lambda>t. t < (p::u32)) ts = filter (\<lambda>t. t < p) ts"
proof (induction ts)
  case (Cons a ts)
  then have "p \<le> a \<Longrightarrow> \<forall>x \<in> set ts. \<not> x < p" by (force dest: order_trans)
  with Cons show ?case by (cases "a < p") (simp_all add: filter_empty_conv)
qed simp

lemma sorted_dropWhile_less: "sorted ts \<Longrightarrow> dropWhile (\<lambda>t. t < (p::u32)) ts = filter (\<lambda>t. p \<le> t) ts"
proof (induction ts)
  case (Cons a ts)
  then have "p \<le> a \<Longrightarrow> \<forall>x \<in> set ts. p \<le> x" by auto
  with Cons show ?case by (cases "a < p") (simp_all add: not_less not_le)
qed simp

lemmas sorted_filter_split = sorted_takeWhile_less sorted_dropWhile_less

lemma length_filter_less_iff: "length (filter P xs) \<noteq> length xs \<Longrightarrow> length (filter P xs) < length xs"
  using length_filter_le [of P xs] by linarith

text \<open>On a sorted slice the search returns the number of tokens below the position.\<close>

lemma sort_Search_sorted:
  assumes "sorted (ts :: u32 list)"
  shows "sort_Search (length ts) (\<lambda>i. p \<le> ts ! i) = length (filter (\<lambda>t. t < p) ts)"
    (is "?s = ?c")
proof -
  have mono: "upward (length ts) (\<lambda>i. p \<le> ts ! i)"
    using sorted_nth_mono [OF assms] unfolding upward_def by (blast intro: order_trans)
  note least = sort_Search_least [of "length ts" "\<lambda>i. p \<le> ts ! i", OF mono]
  have c: "?c = length (takeWhile (\<lambda>t. t < p) ts)"
    by (simp add: sorted_filter_split [OF assms])
  show ?thesis
  proof (rule antisym)
    show "?s \<le> ?c"
    proof (rule ccontr)
      assume "\<not> ?s \<le> ?c"
      then have lt: "?c < ?s" by simp
      from this least(1) have "?c < length ts" by (rule order_less_le_trans)
      then have "\<not> ts ! ?c < p" unfolding c by (rule nth_length_takeWhile)
      with least(2) lt show False by (simp add: not_le)
    qed
    show "?c \<le> ?s"
    proof (rule ccontr)
      assume "\<not> ?c \<le> ?s"
      then have lt: "?s < ?c" by simp
      then have "ts ! ?s < p" using nth_mem [of ?s "takeWhile (\<lambda>t. t < p) ts"]
        by (auto simp: c takeWhile_nth dest: set_takeWhileD)
      moreover have "?s < length ts" using lt length_filter_le order_less_le_trans by blast
      then have "p \<le> ts ! ?s" using least(3) by blast
      ultimately show False by simp
    qed
  qed
qed

section \<open>Lookups compute the preference list\<close>

lemma rotate_clockwise:
  assumes "sorted (hr_ring h)"
  shows "rotate (ring_index h p) (hr_ring h) = clockwise (hr_ring h) p"
proof -
  let ?ts = "hr_ring h"
  let ?c = "length (takeWhile (\<lambda>t. t < p) ?ts)"
  have idx: "ring_index h p = (if ?c = length ?ts then 0 else ?c)"
    using assms by (simp add: ring_index_def sort_Search_sorted sorted_filter_split)
  have cw: "clockwise ?ts p = drop ?c ?ts @ take ?c ?ts"
    using assms by (simp add: clockwise_def sorted_filter_split [symmetric] dropWhile_eq_drop takeWhile_eq_take [symmetric])
  show ?thesis
  proof (cases "?c = length ?ts")
    case True
    then show ?thesis by (simp add: idx cw)
  next
    case False
    then have "?c < length ?ts" using length_takeWhile_le [of "\<lambda>t. t < p" ?ts] by simp
    then show ?thesis by (simp add: idx cw rotate_drop_take)
  qed
qed

lemma collect_nodes_eq:
  fixes h :: hash_ring and idx :: nat
  defines "owners \<equiv> map (ring_owner h) (rotate idx (hr_ring h))"
  assumes "k \<le> length (hr_ring h)"
  shows "collect_nodes h idx cnt k seen acc =
    acc @ map (ring_target h) (take (nat cnt - length acc)
      (filter (\<lambda>x. x \<notin> set seen) (uniq (drop (length (hr_ring h) - k) owners))))"
  using assms(2)
proof (induction k arbitrary: seen acc)
  case 0
  then show ?case by (simp add: owners_def)
next
  case (Suc k)
  let ?n = "length (hr_ring h)" and ?os = owners
  let ?i = "?n - Suc k"
  from Suc.prems have i: "?i < ?n" "Suc ?i = ?n - k" by simp_all
  have "hr_ring h ! ((idx + ?i) mod ?n) = rotate idx (hr_ring h) ! ?i"
    using i by (simp add: nth_rotate)
  then have o: "ring_owner h (hr_ring h ! ((idx + ?i) mod ?n)) = ?os ! ?i" (is "?o = _")
    using i by (simp add: owners_def)
  have "drop ?i ?os = ?os ! ?i # drop (?n - k) ?os"
    using i Cons_nth_drop_Suc [of ?i ?os] by (simp add: owners_def)
  then have d: "uniq (drop ?i ?os) = ?o # filter (\<lambda>y. y \<noteq> ?o) (uniq (drop (?n - k) ?os))"
    by (simp add: o)
  show ?case
  proof (cases "int (length acc) < cnt")
    case False
    then show ?thesis by (simp add: Let_def)
  next
    case True
    then have t: "nat cnt - length acc = Suc (nat cnt - Suc (length acc))" by linarith
    show ?thesis
    proof (cases "?o \<in> set seen")
      case True
      have "filter (\<lambda>x. x \<notin> set seen) (uniq (drop ?i ?os))
        = filter (\<lambda>x. x \<notin> set seen) (uniq (drop (?n - k) ?os))"
        unfolding d using True by (auto intro!: filter_cong)
      with True \<open>int (length acc) < cnt\<close> Suc show ?thesis by (simp add: Let_def)
    next
      case False
      have "filter (\<lambda>x. x \<notin> set seen) (uniq (drop ?i ?os))
        = ?o # filter (\<lambda>x. x \<notin> set (?o # seen)) (uniq (drop (?n - k) ?os))"
        unfolding d using False by (auto intro!: filter_cong)
      with False \<open>int (length acc) < cnt\<close> Suc show ?thesis by (simp add: Let_def t)
    qed
  qed
qed

theorem GetNodes_prefs:
  assumes "sorted (hr_ring h)"
  shows "ring_GetNodes h key cnt =
    (if hr_ring h = [] then Inl ErrNoNodesInRing else if cnt < 0 then Inl PanicMakeCap
     else Inr (map (ring_target h) (take (nat cnt) (prefs h key))))"
  using assms
  by (simp add: ring_GetNodes_def collect_nodes_eq rotate_clockwise prefs_def)

lemma hd_rotate: "xs \<noteq> [] \<Longrightarrow> i < length xs \<Longrightarrow> hd (rotate i xs) = xs ! i"
  by (simp add: hd_rotate_conv_nth)

lemma ring_index_less: "sorted (hr_ring h) \<Longrightarrow> hr_ring h \<noteq> [] \<Longrightarrow> ring_index h p < length (hr_ring h)"
  by (simp add: ring_index_def sort_Search_sorted Let_def length_filter_less_iff)

theorem GetPrimaryNode_prefs:
  assumes "sorted (hr_ring h)"
  shows "ring_GetPrimaryNode h key =
    (if hr_ring h = [] then Inl ErrNoNodesInRing
     else Inr (ring_target h (hd (prefs h key)), hr_hashFunc h key))"
proof (cases "hr_ring h = []")
  case True
  then show ?thesis by (simp add: ring_GetPrimaryNode_def)
next
  case False
  let ?p = "hr_hashFunc h key"
  have "hr_ring h ! ring_index h ?p = hd (clockwise (hr_ring h) ?p)"
    using hd_rotate [OF False ring_index_less [OF assms False]] rotate_clockwise [OF assms] by metis
  moreover have "clockwise (hr_ring h) ?p \<noteq> []"
    using False rotate_clockwise [OF assms] by (metis rotate_is_Nil_conv)
  ultimately show ?thesis using False
    by (simp add: ring_GetPrimaryNode_def prefs_def hd_uniq hd_map Let_def)
qed

section \<open>Removing a node\<close>

lemma gm_get_eq_iff: "n \<noteq> z \<Longrightarrow> gm_get z m k = n \<longleftrightarrow> map_of m k = Some n"
  by (auto simp: gm_get_def split: option.splits)

lemma finite_owned: "finite {t. map_of m t = Some n}"
  by (rule finite_subset [OF _ finite_dom_map_of [of m]]) auto

lemma removeTokens_map:
  "n \<noteq> '''' \<Longrightarrow> map_of (snd (removeTokens n ts m)) =
     (\<lambda>t. if t \<in> set ts \<and> map_of m t = Some n then None else map_of m t)"
  by (induction n ts m rule: removeTokens.induct)
    (auto simp: gm_get_eq_iff fun_eq_iff split: prod.splits)

lemma removeTokens_wf: "gm_wf m \<Longrightarrow> gm_wf (snd (removeTokens n ts m))"
  by (induction n ts m rule: removeTokens.induct) (auto split: prod.splits)

lemma removeTokens_subset: "set (fst (removeTokens n ts m)) \<subseteq> set ts"
  by (induction n ts m rule: removeTokens.induct) (auto split: prod.splits)

lemma removeTokens_sorted: "sorted ts \<Longrightarrow> sorted (fst (removeTokens n ts m))"
proof (induction n ts m rule: removeTokens.induct)
  case (2 n t ts m)
  then show ?case using removeTokens_subset [of n ts m] by (fastforce split: prod.splits)
qed simp

lemma removeTokens_keeps:
  "n \<noteq> '''' \<Longrightarrow> t \<in> set ts \<Longrightarrow> map_of m t \<noteq> Some n \<Longrightarrow> t \<in> set (fst (removeTokens n ts m))"
  by (induction n ts m rule: removeTokens.induct) (auto simp: gm_get_eq_iff split: prod.splits)

lemma removeTokens_length:
  "n \<noteq> '''' \<Longrightarrow> length ts \<le> length (fst (removeTokens n ts m)) + card {t. map_of m t = Some n}"
proof (induction n ts m rule: removeTokens.induct)
  case (2 n t ts m)
  show ?case
  proof (cases "map_of m t = Some n")
    case True
    have "{s. map_of (gm_del t m) s = Some n} = {s. map_of m s = Some n} - {t}" by auto
    then have "Suc (card {s. map_of (gm_del t m) s = Some n}) = card {s. map_of m s = Some n}"
      using True finite_owned card.remove [of "{s. map_of m s = Some n}" t] by simp
    with 2 True show ?thesis by (simp add: gm_get_eq_iff)
  next
    case False
    with 2 show ?thesis by (auto simp: gm_get_eq_iff split: prod.splits)
  qed
qed simp

lemma removeTokens_filter:
  "n \<noteq> '''' \<Longrightarrow> distinct ts \<Longrightarrow> fst (removeTokens n ts m) = filter (\<lambda>t. map_of m t \<noteq> Some n) ts"
proof (induction n ts m rule: removeTokens.induct)
  case (2 n t ts m)
  have "filter (\<lambda>s. map_of (gm_del t m) s \<noteq> Some n) ts = filter (\<lambda>s. map_of m s \<noteq> Some n) ts"
    using "2.prems" by (auto intro!: filter_cong)
  with 2 show ?case by (auto simp: gm_get_eq_iff split: prod.splits)
qed simp

lemma ring_wf_has: "ring_wf h \<Longrightarrow> ring_has h n \<longleftrightarrow> n \<in> set (ring_ids h)"
proof -
  assume "ring_wf h"
  then have "map_of (hr_nodes h) n = Some b \<Longrightarrow> b" for b
    unfolding ring_wf_def by (metis map_of_SomeD image_eqI snd_conv)
  then show ?thesis by (auto simp: gm_get_def gm_keys_dom split: option.splits)
qed

lemma ring_remove_absent: "\<not> ring_has h n \<Longrightarrow> ring_internalRemoveNode n h = h"
  by (simp add: ring_internalRemoveNode_def)

lemma ring_remove_present:
  assumes "ring_has h n"
  shows "ring_internalRemoveNode n h =
    h\<lparr>hr_nodes := gm_del n (hr_nodes h), hr_nodeAddresses := gm_del n (hr_nodeAddresses h),
      hr_vnodeToNode := snd (removeTokens n (hr_ring h) (hr_vnodeToNode h)),
      hr_ring := fst (removeTokens n (hr_ring h) (hr_vnodeToNode h))\<rparr>"
  using assms by (simp add: ring_internalRemoveNode_def split: prod.split)

lemma ring_remove_config [simp]:
  "hr_vnodes (ring_internalRemoveNode n h) = hr_vnodes h"
  "hr_hashFunc (ring_internalRemoveNode n h) = hr_hashFunc h"
  by (simp_all add: ring_internalRemoveNode_def split: prod.split)

lemma ring_wf_remove:
  assumes wf: "ring_wf h"
  shows "ring_wf (ring_internalRemoveNode n h)"
proof (cases "ring_has h n")
  case False
  with wf show ?thesis by (simp add: ring_remove_absent)
next
  case True
  let ?m = "hr_vnodeToNode h" and ?L = "length (hr_nodes h)"
  let ?r = "removeTokens n (hr_ring h) ?m"
  from True wf have n: "n \<in> set (ring_ids h)" by (simp add: ring_wf_has)
  with wf have ne: "n \<noteq> ''''" by (auto simp: ring_wf_def)
  have keys: "set (gm_keys ?m) \<subseteq> set (hr_ring h)" and vn: "0 < hr_vnodes h"
    using wf by (simp_all add: ring_wf_def)
  note map' = removeTokens_map [OF ne, of "hr_ring h" ?m]
  have sub: "map_of (snd ?r) t = Some x \<Longrightarrow> map_of ?m t = Some x \<and> x \<noteq> n" for t x
    using keys map_of_Some_key [of ?m t n] by (auto simp: map' split: if_splits)
  have "set (gm_keys (snd ?r)) \<subseteq> set (fst ?r)"
  proof
    fix t assume "t \<in> set (gm_keys (snd ?r))"
    then obtain x where "map_of (snd ?r) t = Some x" by (auto simp: gm_keys_dom)
    with sub have "map_of ?m t = Some x" "x \<noteq> n" by auto
    with keys ne show "t \<in> set (fst ?r)"
      using map_of_Some_key [of ?m t x] by (auto intro!: removeTokens_keeps)
  qed
  moreover have "card {t. map_of (snd ?r) t = Some x} \<le> nat (hr_vnodes h)" for x
  proof -
    have "card {t. map_of (snd ?r) t = Some x} \<le> card {t. map_of ?m t = Some x}"
      using sub by (auto intro!: card_mono finite_owned)
    also have "\<dots> \<le> nat (hr_vnodes h)" using wf unfolding ring_wf_def by blast
    finally show ?thesis .
  qed
  moreover have "hr_vnodes h * int (length (gm_del n (hr_nodes h))) \<le> int (length (fst ?r))"
  proof -
    have "length (gm_del n (hr_nodes h)) = ?L - 1" "0 < ?L"
      using wf n length_gm_del [of "hr_nodes h" n] by (auto simp: ring_wf_def gm_keys_def)
    then have "int (length (gm_del n (hr_nodes h))) = int ?L - 1" by linarith
    then have "hr_vnodes h * int (length (gm_del n (hr_nodes h))) = hr_vnodes h * int ?L - hr_vnodes h"
      by (simp add: right_diff_distrib)
    moreover have "card {t. map_of ?m t = Some n} \<le> nat (hr_vnodes h)"
      "hr_vnodes h * int ?L \<le> int (length (hr_ring h))"
      using wf by (auto simp: ring_wf_def)
    ultimately show ?thesis
      using removeTokens_length [OF ne, of "hr_ring h" ?m] vn by linarith
  qed
  moreover have "\<forall>b \<in> snd ` set (gm_del n (hr_nodes h)). b"
    using wf by (auto simp: ring_wf_def AList.delete_eq)
  moreover have "map_of (snd ?r) t = Some x \<Longrightarrow> x \<in> set (ring_ids h) \<and> x \<noteq> n" for t x
    using sub wf unfolding ring_wf_def by blast
  ultimately show ?thesis
    using wf by (auto simp: ring_remove_present [OF True] ring_wf_def
      removeTokens_sorted removeTokens_wf)
qed

section \<open>Adding a node\<close>

lemma fold_addVNode:
  "fold (addVNode n) is h =
     h\<lparr>hr_ring := hr_ring h @ map (\<lambda>i. hr_hashFunc h (vnodeKey n i)) is,
       hr_vnodeToNode := fold (\<lambda>i. gm_put (hr_hashFunc h (vnodeKey n i)) n) is (hr_vnodeToNode h)\<rparr>"
  by (induction "is" arbitrary: h) (simp_all add: addVNode_def Let_def)

lemma fold_gm_put_map: "map_of (fold (\<lambda>i. gm_put (f i) n) is m) =
    (\<lambda>t. if t \<in> f ` set is then Some n else map_of m t)"
  by (induction "is" arbitrary: m) (auto simp: fun_eq_iff)

lemma fold_gm_put_wf: "gm_wf m \<Longrightarrow> gm_wf (fold (\<lambda>i. gm_put (f i) n) is m)"
  by (induction "is" arbitrary: m) auto

lemma ring_AddNode_cases:
  "ring_AddNode n a h =
     (let h' = if n \<noteq> a then ring_internalRemoveNode a h else h
      in if ring_has h' n then h'\<lparr>hr_nodeAddresses := gm_put n a (hr_nodeAddresses h')\<rparr>
         else ring_insert n a h')"
  by (auto simp: ring_AddNode_def ring_insert_def fold_addVNode vtokens_def Let_def ring_remove_absent)

lemma vtokens_length [simp]: "length (vtokens hf vn n) = nat vn"
  by (simp add: vtokens_def)

lemma ring_insert_owner:
  "map_of (hr_vnodeToNode (ring_insert n a h)) t =
     (if t \<in> set (vtokens (hr_hashFunc h) (hr_vnodes h) n) then Some n else map_of (hr_vnodeToNode h) t)"
  by (simp add: ring_insert_def fold_gm_put_map vtokens_def)

lemma ring_insert_fields [simp]:
  "hr_vnodes (ring_insert n a h) = hr_vnodes h"
  "hr_hashFunc (ring_insert n a h) = hr_hashFunc h"
  "hr_nodes (ring_insert n a h) = gm_put n True (hr_nodes h)"
  "hr_nodeAddresses (ring_insert n a h) = gm_put n a (hr_nodeAddresses h)"
  "hr_ring (ring_insert n a h) = sort (hr_ring h @ vtokens (hr_hashFunc h) (hr_vnodes h) n)"
  by (simp_all add: ring_insert_def)

lemma ring_wf_insert:
  assumes wf: "ring_wf h" and fresh: "n \<notin> set (ring_ids h)" and ne: "n \<noteq> ''''"
  shows "ring_wf (ring_insert n a h)"
proof -
  let ?ts = "vtokens (hr_hashFunc h) (hr_vnodes h) n"
  let ?m = "hr_vnodeToNode h" and ?m' = "hr_vnodeToNode (ring_insert n a h)"
  have none: "map_of ?m t \<noteq> Some n" for t using wf fresh by (auto simp: ring_wf_def)
  have owned: "{t. map_of ?m' t = Some n} = set ?ts"
    using none by (auto simp: ring_insert_owner split: if_splits)
  have "card {t. map_of ?m' t = Some x} \<le> nat (hr_vnodes h)" for x
  proof (cases "x = n")
    case True
    then show ?thesis using owned card_length [of ?ts] by simp
  next
    case False
    then have "card {t. map_of ?m' t = Some x} \<le> card {t. map_of ?m t = Some x}"
      by (auto simp: ring_insert_owner intro!: card_mono finite_owned split: if_splits)
    also have "\<dots> \<le> nat (hr_vnodes h)" using wf unfolding ring_wf_def by blast
    finally show ?thesis .
  qed
  moreover have "set (gm_keys ?m') \<subseteq> set (hr_ring (ring_insert n a h))"
    using wf by (auto simp: gm_keys_dom ring_insert_owner ring_wf_def dom_def split: if_splits)
  moreover have "hr_vnodes h * int (length (gm_put n True (hr_nodes h)))
      \<le> int (length (hr_ring (ring_insert n a h)))"
    using wf fresh by (simp add: length_gm_put ring_wf_def algebra_simps)
  moreover have "gm_wf ?m'" using wf by (simp add: ring_insert_def fold_gm_put_wf ring_wf_def)
  moreover have "\<forall>b \<in> snd ` set (gm_put n True (hr_nodes h)). b"
  proof -
    have "snd ` set (gm_put n True m) \<subseteq> insert True (snd ` set m)" for m :: "(string, bool) gomap"
      by (induction m) auto
    with wf show ?thesis by (auto simp: ring_wf_def)
  qed
  moreover have "map_of ?m' t = Some x \<Longrightarrow> x = n \<or> x \<in> set (ring_ids h)" for t x
    using wf by (auto simp: ring_insert_owner ring_wf_def split: if_splits)
  ultimately show ?thesis using wf ne by (auto simp: ring_wf_def)
qed

lemma ring_wf_New: "ring_wf (ring_New vn hf)"
  by (simp add: ring_wf_def ring_New_def gm_keys_def)

lemma ring_wf_AddNode: "ring_wf h \<Longrightarrow> n \<noteq> '''' \<Longrightarrow> ring_wf (ring_AddNode n a h)"
proof -
  assume wf: "ring_wf h" and ne: "n \<noteq> ''''"
  let ?h = "if n \<noteq> a then ring_internalRemoveNode a h else h"
  have wf': "ring_wf ?h" using wf by (simp add: ring_wf_remove)
  show ?thesis
  proof (cases "ring_has ?h n")
    case True
    with wf' have "n \<in> set (ring_ids ?h)" by (simp add: ring_wf_has)
    with wf' have "ring_wf (?h\<lparr>hr_nodeAddresses := gm_put n a (hr_nodeAddresses ?h)\<rparr>)"
      by (auto simp: ring_wf_def insert_absorb)
    with True show ?thesis by (simp add: ring_AddNode_cases Let_def)
  next
    case False
    with wf' ne have "ring_wf (ring_insert n a ?h)"
      by (intro ring_wf_insert) (simp_all add: ring_wf_has)
    with False show ?thesis by (simp add: ring_AddNode_cases Let_def)
  qed
qed

lemma ring_reachable_wf: "ring_reachable h \<Longrightarrow> ring_wf h"
  by (induction rule: ring_reachable.induct)
    (simp_all add: ring_wf_New ring_wf_AddNode ring_wf_remove ring_RemoveNode_def)

section \<open>Rings without collisions\<close>

lemma gm_keys_del: "gm_keys (gm_del n m) = filter (\<lambda>k. k \<noteq> n) (gm_keys m)"
  by (induction m) (auto simp: gm_keys_def)

lemma gm_keys_put_fresh: "n \<notin> set (gm_keys m) \<Longrightarrow> gm_keys (gm_put n v m) = gm_keys m @ [n]"
  by (induction m) (auto simp: gm_keys_def)

lemma gm_keys_put_old: "n \<in> set (gm_keys m) \<Longrightarrow> gm_keys (gm_put n v m) = gm_keys m"
  by (induction m) (auto simp: gm_keys_def)

lemma collision_free_filter: "collision_free hf vn ns \<Longrightarrow> collision_free hf vn (filter P ns)"
  by (induction ns) (auto simp: collision_free_def)

lemma collision_free_snoc:
  "collision_free hf vn (ns @ [n]) \<longleftrightarrow>
     collision_free hf vn ns \<and> distinct (vtokens hf vn n) \<and>
     (\<forall>m \<in> set ns. set (vtokens hf vn m) \<inter> set (vtokens hf vn n) = {})"
  by (auto simp: collision_free_def)

lemma ring_exact_wf: "ring_exact h \<Longrightarrow> ring_wf h"
  by (simp add: ring_exact_def)

lemma ring_exact_sorted: "ring_exact h \<Longrightarrow> sorted (hr_ring h)"
  by (simp add: ring_exact_def ring_wf_def)

lemma ring_exact_set:
  assumes "ring_exact h"
  shows "set (hr_ring h) = (\<Union>n \<in> set (ring_ids h). set (vtokens (hr_hashFunc h) (hr_vnodes h) n))"
proof -
  have "set (hr_ring h) = set_mset (mset (hr_ring h))" by simp
  also have "\<dots> = set (concat (map (vtokens (hr_hashFunc h) (hr_vnodes h)) (ring_ids h)))"
    using assms by (simp only: ring_exact_def set_mset_mset)
  finally show ?thesis by simp
qed

lemma ring_exact_distinct: "ring_exact h \<Longrightarrow> distinct (hr_ring h)"
  unfolding ring_exact_def collision_free_def by (metis mset_eq_imp_distinct_iff)

lemma ring_exact_owner:
  assumes "ring_exact h" "t \<in> set (hr_ring h)"
  shows "\<exists>n \<in> set (ring_ids h). map_of (hr_vnodeToNode h) t = Some n"
  using assms ring_exact_set [OF assms(1)] by (auto simp: ring_exact_def)

lemma ring_exact_New: "ring_exact (ring_New vn hf)"
  using ring_wf_New [of vn hf]
  by (simp add: ring_exact_def) (simp add: ring_New_def gm_keys_def collision_free_def)

lemma filter_concat_owned:
  assumes "\<forall>m \<in> set ns. \<forall>t \<in> set (f m). own t = Some m"
  shows "filter (\<lambda>t. own t \<noteq> Some n) (concat (map f ns)) = concat (map f (filter (\<lambda>m. m \<noteq> n) ns))"
  using assms
proof (induction ns)
  case (Cons m ns)
  then have "filter (\<lambda>t. own t \<noteq> Some n) (f m) = (if m = n then [] else f m)"
    by (auto simp: filter_empty_conv intro: filter_True)
  with Cons show ?case by simp
qed simp

lemma ring_remove_exact_fields:
  assumes ex: "ring_exact h" and n: "n \<in> set (ring_ids h)"
  shows "hr_ring (ring_internalRemoveNode n h) = filter (\<lambda>t. map_of (hr_vnodeToNode h) t \<noteq> Some n) (hr_ring h)"
    and "map_of (hr_vnodeToNode (ring_internalRemoveNode n h)) =
      (\<lambda>t. if map_of (hr_vnodeToNode h) t = Some n then None else map_of (hr_vnodeToNode h) t)"
    and "ring_ids (ring_internalRemoveNode n h) = filter (\<lambda>m. m \<noteq> n) (ring_ids h)"
proof -
  have has: "ring_has h n" using ex n by (simp add: ring_wf_has ring_exact_wf)
  have ne: "n \<noteq> ''''" using ring_exact_wf [OF ex] n by (auto simp: ring_wf_def)
  have keys: "map_of (hr_vnodeToNode h) t = Some x \<Longrightarrow> t \<in> set (hr_ring h)" for t x
    using ring_exact_wf [OF ex] map_of_Some_key [of "hr_vnodeToNode h" t x]
    by (auto simp: ring_wf_def)
  show "hr_ring (ring_internalRemoveNode n h) = filter (\<lambda>t. map_of (hr_vnodeToNode h) t \<noteq> Some n) (hr_ring h)"
    using ring_exact_distinct [OF ex] ne by (simp add: ring_remove_present [OF has] removeTokens_filter)
  show "map_of (hr_vnodeToNode (ring_internalRemoveNode n h)) =
      (\<lambda>t. if map_of (hr_vnodeToNode h) t = Some n then None else map_of (hr_vnodeToNode h) t)"
    using keys ne by (auto simp: ring_remove_present [OF has] removeTokens_map fun_eq_iff)
  show "ring_ids (ring_internalRemoveNode n h) = filter (\<lambda>m. m \<noteq> n) (ring_ids h)"
    by (simp add: ring_remove_present [OF has] gm_keys_del)
qed

lemma ring_exact_remove:
  assumes ex: "ring_exact h"
  shows "ring_exact (ring_internalRemoveNode n h)"
proof (cases "n \<in> set (ring_ids h)")
  case False
  with ex show ?thesis by (simp add: ring_remove_absent ring_wf_has ring_exact_wf)
next
  case True
  note f = ring_remove_exact_fields [OF ex True]
  let ?v = "vtokens (hr_hashFunc h) (hr_vnodes h)" and ?own = "map_of (hr_vnodeToNode h)"
  have own: "\<forall>m \<in> set (ring_ids h). \<forall>t \<in> set (?v m). ?own t = Some m"
    using ex unfolding ring_exact_def by blast
  have "mset (filter (\<lambda>t. ?own t \<noteq> Some n) (hr_ring h))
      = mset (filter (\<lambda>t. ?own t \<noteq> Some n) (concat (map ?v (ring_ids h))))"
    using ex by (simp only: ring_exact_def mset_filter)
  also have "\<dots> = mset (concat (map ?v (filter (\<lambda>m. m \<noteq> n) (ring_ids h))))"
    by (simp only: filter_concat_owned [OF own])
  finally have ms: "mset (filter (\<lambda>t. ?own t \<noteq> Some n) (hr_ring h))
      = mset (concat (map ?v (filter (\<lambda>m. m \<noteq> n) (ring_ids h))))" .
  have "\<forall>m \<in> set (filter (\<lambda>m. m \<noteq> n) (ring_ids h)). \<forall>t \<in> set (?v m).
      (if ?own t = Some n then None else ?own t) = Some m"
    using own by auto
  moreover have "collision_free (hr_hashFunc h) (hr_vnodes h) (filter (\<lambda>m. m \<noteq> n) (ring_ids h))"
    using ex by (simp add: ring_exact_def collision_free_filter)
  ultimately show ?thesis
    unfolding ring_exact_def [of "ring_internalRemoveNode n h"] f ring_remove_config
    using ms ring_wf_remove [OF ring_exact_wf [OF ex]] by blast
qed

lemma ring_exact_insert:
  assumes ex: "ring_exact h" and fresh: "n \<notin> set (ring_ids h)" and ne: "n \<noteq> ''''"
    and cf: "collision_free (hr_hashFunc h) (hr_vnodes h) (ring_ids h @ [n])"
  shows "ring_exact (ring_insert n a h)"
proof -
  let ?v = "vtokens (hr_hashFunc h) (hr_vnodes h)"
  have ids: "ring_ids (ring_insert n a h) = ring_ids h @ [n]" using fresh by (simp add: gm_keys_put_fresh)
  have "map_of (hr_vnodeToNode (ring_insert n a h)) t = Some m"
    if "m \<in> set (ring_ids h @ [n])" "t \<in> set (?v m)" for m t
    using that cf ex by (auto simp: ring_insert_owner collision_free_snoc ring_exact_def)
  moreover have "mset (hr_ring (ring_insert n a h)) = mset (concat (map ?v (ring_ids h @ [n])))"
    using ex by (simp add: ring_exact_def)
  ultimately show ?thesis
    unfolding ring_exact_def [of "ring_insert n a h"] ids ring_insert_fields(1,2)
    using cf ring_wf_insert [OF ring_exact_wf [OF ex] fresh ne] by blast
qed

section \<open>Preference lists under membership changes\<close>

lemma clockwise_filter: "clockwise (filter P ts) p = filter P (clockwise ts p)"
  by (simp add: clockwise_def conj_commute)

lemma set_clockwise [simp]: "set (clockwise ts p) = set ts"
  by (auto simp: clockwise_def)

lemma ring_exact_owner_get:
  assumes "ring_exact h" "t \<in> set (hr_ring h)"
  shows "map_of (hr_vnodeToNode h) t = Some (ring_owner h t)" "ring_owner h t \<in> set (ring_ids h)"
  using ring_exact_owner [OF assms] by (auto simp: gm_get_def)

text \<open>Removing a node deletes it from every preference list and changes nothing else.\<close>

lemma prefs_remove:
  assumes ex: "ring_exact h" and n: "n \<in> set (ring_ids h)"
  shows "prefs (ring_internalRemoveNode n h) key = filter (\<lambda>m. m \<noteq> n) (prefs h key)"
proof -
  note f = ring_remove_exact_fields [OF ex n]
  let ?cw = "clockwise (hr_ring h) (hr_hashFunc h key)"
  have P: "filter (\<lambda>t. map_of (hr_vnodeToNode h) t \<noteq> Some n) ?cw = filter (\<lambda>t. ring_owner h t \<noteq> n) ?cw"
    using ring_exact_owner_get [OF ex] by (auto intro!: filter_cong)
  have "map (ring_owner (ring_internalRemoveNode n h)) (filter (\<lambda>t. ring_owner h t \<noteq> n) ?cw)
      = map (ring_owner h) (filter (\<lambda>t. ring_owner h t \<noteq> n) ?cw)"
    using ring_exact_owner_get [OF ex] by (auto simp: gm_get_def f(2))
  also have "\<dots> = filter (\<lambda>m. m \<noteq> n) (map (ring_owner h) ?cw)"
    by (simp add: filter_map comp_def)
  finally show ?thesis by (simp add: prefs_def f(1) clockwise_filter P uniq_filter)
qed

text \<open>Inserting a node adds it to every preference list and changes nothing else.\<close>

lemma prefs_insert:
  assumes ex: "ring_exact h" and fresh: "n \<notin> set (ring_ids h)"
    and cf: "collision_free (hr_hashFunc h) (hr_vnodes h) (ring_ids h @ [n])"
  shows "filter (\<lambda>m. m \<noteq> n) (prefs (ring_insert n a h) key) = prefs h key"
proof -
  let ?h = "ring_insert n a h" and ?p = "hr_hashFunc h key"
  let ?v = "vtokens (hr_hashFunc h) (hr_vnodes h)"
  have old: "t \<notin> set (?v n) \<and> ring_owner ?h t = ring_owner h t \<and> ring_owner h t \<noteq> n"
    if "t \<in> set (hr_ring h)" for t
    using that cf fresh ring_exact_set [OF ex] ring_exact_owner_get [OF ex that]
    by (auto simp: collision_free_snoc gm_get_def ring_insert_owner)
  have new: "ring_owner ?h t = n" if "t \<in> set (?v n)" for t
    using that by (simp add: gm_get_def ring_insert_owner)
  have "filter (\<lambda>t. ring_owner ?h t \<noteq> n) (hr_ring ?h)
      = sort (filter (\<lambda>t. ring_owner ?h t \<noteq> n) (hr_ring h @ ?v n))"
    by (simp add: filter_sort)
  also have "filter (\<lambda>t. ring_owner ?h t \<noteq> n) (hr_ring h @ ?v n) = hr_ring h"
    using old new by (auto simp: filter_empty_conv intro: filter_True)
  also have "sort (hr_ring h) = hr_ring h"
    using ring_exact_sorted [OF ex] by (rule sorted_sort_id)
  finally have ring: "filter (\<lambda>t. ring_owner ?h t \<noteq> n) (hr_ring ?h) = hr_ring h" .
  have "filter (\<lambda>m. m \<noteq> n) (map (ring_owner ?h) (clockwise (hr_ring ?h) ?p))
      = map (ring_owner ?h) (clockwise (hr_ring h) ?p)"
    by (simp add: filter_map comp_def clockwise_filter [symmetric] ring del: ring_insert_fields(5))
  also have "\<dots> = map (ring_owner h) (clockwise (hr_ring h) ?p)"
    using old by simp
  finally show ?thesis by (simp add: prefs_def uniq_filter [symmetric] del: ring_insert_fields(5))
qed

lemma prefs_set:
  assumes "ring_exact h"
  shows "set (prefs h key) = set (ring_ids h)"
proof -
  have vn: "0 < hr_vnodes h" using assms by (simp add: ring_exact_def ring_wf_def)
  have "ring_owner h ` set (hr_ring h) = set (ring_ids h)"
  proof
    show "ring_owner h ` set (hr_ring h) \<subseteq> set (ring_ids h)"
      using ring_exact_owner_get [OF assms] by auto
    show "set (ring_ids h) \<subseteq> ring_owner h ` set (hr_ring h)"
    proof
      fix n assume n: "n \<in> set (ring_ids h)"
      let ?t = "hr_hashFunc h (vnodeKey n 0)"
      have t: "?t \<in> set (vtokens (hr_hashFunc h) (hr_vnodes h) n)" using vn by (auto simp: vtokens_def)
      with n assms have "map_of (hr_vnodeToNode h) ?t = Some n" unfolding ring_exact_def by blast
      with t n show "n \<in> ring_owner h ` set (hr_ring h)"
        using ring_exact_set [OF assms] by (force simp: gm_get_def)
    qed
  qed
  then show ?thesis by (simp add: prefs_def)
qed

lemma prefs_distinct: "distinct (prefs h key)"
  by (simp add: prefs_def)

lemma ring_exact_empty_iff: "ring_exact h \<Longrightarrow> hr_ring h = [] \<longleftrightarrow> ring_ids h = []"
  using prefs_set [of h key] by (auto simp: prefs_def)

section \<open>The ring as a placement scheme\<close>

lemma ring_AddNode_insert:
  "\<not> ring_has h n \<Longrightarrow> n = a \<or> \<not> ring_has h a \<Longrightarrow> ring_AddNode n a h = ring_insert n a h"
  by (auto simp: ring_AddNode_cases Let_def ring_remove_absent)

interpretation ringp: placement ring_exact "\<lambda>h. set (ring_ids h)" prefs ring_joinable ring_insert ring_RemoveNode
proof (unfold_locales, goal_cases)
  case (1 r k) show ?case by (rule prefs_distinct)
next
  case (2 r k) then show ?case by (rule prefs_set)
next
  case (3 r n) then show ?case by (simp add: ring_joinable_def)
next
  case (4 r n a) then show ?case by (auto simp: ring_joinable_def intro: ring_exact_insert)
next
  case (5 r n) then show ?case by (simp add: ring_RemoveNode_def ring_exact_remove)
next
  case (6 r n a) then show ?case by simp
next
  case (7 r n a k) then show ?case by (auto simp: ring_joinable_def intro: prefs_insert)
next
  case (8 r n k) then show ?case by (simp add: ring_RemoveNode_def prefs_remove)
qed

lemma ring_exact_has: "ring_exact h \<Longrightarrow> ring_has h n \<longleftrightarrow> n \<in> set (ring_ids h)"
  by (simp add: ring_wf_has ring_exact_wf)

lemma ring_target_insert: "m \<noteq> n \<Longrightarrow> ring_target (ring_insert n a h) m = ring_target h m"
  by (simp add: ring_target_def gomap_simps)

lemma ring_target_remove: "m \<noteq> n \<Longrightarrow> ring_target (ring_RemoveNode n h) m = ring_target h m"
  by (simp add: ring_target_def ring_RemoveNode_def ring_internalRemoveNode_def gomap_simps split: prod.split)

lemma GetNodes_Inr_prefs:
  assumes "sorted (hr_ring h)" "ring_GetNodes h key cnt = Inr ts"
  shows "hr_ring h \<noteq> []" "0 \<le> cnt" "ts = map (ring_target h) (take (nat cnt) (prefs h key))"
  using assms(2) by (auto simp: GetNodes_prefs [OF assms(1)] split: if_splits)

lemma GetPrimaryNode_Inr_prefs:
  assumes "sorted (hr_ring h)" "ring_GetPrimaryNode h key = Inr (t, kh)"
  shows "hr_ring h \<noteq> []" "t = ring_target h (hd (prefs h key))" "kh = hr_hashFunc h key"
  using assms(2) by (auto simp: GetPrimaryNode_prefs [OF assms(1)] split: if_splits)

lemma ring_RemoveNode_hash [simp]: "hr_hashFunc (ring_RemoveNode n h) = hr_hashFunc h"
  by (simp add: ring_RemoveNode_def)

lemma primary_of_prefs:
  assumes "ring_exact h" "ring_ids h \<noteq> []"
  shows "ring_GetPrimaryNode h key = Inr (ring_target h (hd (prefs h key)), hr_hashFunc h key)"
  using assms by (simp add: GetPrimaryNode_prefs ring_exact_sorted ring_exact_empty_iff)

section \<open>A concrete ring\<close>

text \<open>Three nodes with one virtual node each, under a hash that orders the vnode keys by
  length; the witnesses below evaluate on it.\<close>

lemma demo_ring_eq:
  "demo_ring = \<lparr>hr_vnodes = 1, hr_hashFunc = demo_hash, hr_ring = [90, 100, 110],
     hr_vnodeToNode = [(90, ''A''), (100, ''BB''), (110, ''CCC'')],
     hr_nodeAddresses = [(''A'', ''http://a''), (''BB'', ''http://b''), (''CCC'', ''http://c'')],
     hr_nodes = [(''A'', True), (''BB'', True), (''CCC'', True)]\<rparr>"
  by (simp add: demo_ring_def ring_New_def ring_AddNode_def ring_internalRemoveNode_def gm_get_def
      addVNode_def vnodeKey_def itoa_def nat_digits.simps demo_hash_def Let_def)

lemma demo_tokens:
  "vtokens demo_hash 1 ''A'' = [90]" "vtokens demo_hash 1 ''BB'' = [100]"
  "vtokens demo_hash 1 ''CCC'' = [110]" "vtokens demo_hash 1 ''DDDD'' = [120]"
  by (simp_all add: vtokens_def vnodeKey_def itoa_def nat_digits.simps demo_hash_def)

lemma demo_ring_wf: "ring_wf demo_ring"
  unfolding demo_ring_def
  by (intro ring_wf_AddNode ring_wf_New) simp_all

lemma demo_ring_reachable: "ring_reachable demo_ring"
  unfolding demo_ring_def by (intro ring_reachable.intros) simp_all

lemma demo_ring_exact: "ring_exact demo_ring"
  using demo_ring_wf
  by (simp add: ring_exact_def demo_ring_eq gm_keys_def collision_free_def demo_tokens)

lemma demo_ring_joinable: "ring_joinable demo_ring ''DDDD''"
  by (simp add: ring_joinable_def demo_ring_eq gm_keys_def collision_free_def demo_tokens)

lemma demo_ring_prefs:
  "prefs demo_ring ''k'' = [''A'', ''BB'', ''CCC'']"
  by (simp add: demo_ring_eq prefs_def clockwise_def demo_hash_def gm_get_def)

lemma demo_ring_primary:
  "ring_GetPrimaryNode demo_ring ''k'' = Inr (\<lparr>nt_NodeID = ''A'', nt_Addr = ''http://a''\<rparr>, 10)"
  by (simp add: GetPrimaryNode_prefs ring_exact_sorted demo_ring_exact demo_ring_prefs)
    (simp add: demo_ring_eq ring_target_def gm_get_def demo_hash_def)

lemma demo_ring_two:
  "ring_GetNodes demo_ring ''k'' 2 = Inr [\<lparr>nt_NodeID = ''A'', nt_Addr = ''http://a''\<rparr>,
     \<lparr>nt_NodeID = ''BB'', nt_Addr = ''http://b''\<rparr>]"
  by (simp add: GetNodes_prefs ring_exact_sorted demo_ring_exact demo_ring_prefs)
    (simp add: demo_ring_eq ring_target_def gm_get_def)

lemma prefs_nonempty: "hr_ring h \<noteq> [] \<Longrightarrow> prefs h key \<noteq> []"
  by (simp add: prefs_def) (metis set_clockwise set_empty)

lemma ring_ids_ne: "set (ring_ids h) = insert n A \<Longrightarrow> ring_ids h \<noteq> []"
  by auto

end
