(* ===== verification/Ring_Properties.thy ===== *)
theory Ring_Properties
  imports Hash_Ring
begin

text \<open>
  What the hash ring promises to the rest of the system: the lookups walk the circle
  clockwise, replicas are distinct registered nodes, a membership change moves only the
  keys it has to, the replica of a removed primary takes over, and no removal can panic.
  The proofs rest on the laws of the \<open>placement\<close> interpretation.
\<close>

section \<open>Lookups\<close>

text \<open>C11. On every ring a program can build from nodes with non-empty ids (token
  collisions included), \<open>GetNodes\<close> returns the first \<open>cnt\<close> distinct owners met clockwise
  from the key's hash, the binary search and the wrap-around included, and
  \<open>GetPrimaryNode\<close> the first of them; both fail exactly when the ring has no token, and
  \<open>GetNodes\<close> also on a negative count.\<close>

theorem ring_lookup_clockwise:
  assumes "ring_reachable h"
  shows "ring_GetNodes h key cnt =
      (if hr_ring h = [] then Inl ErrNoNodesInRing else if cnt < 0 then Inl PanicMakeCap
       else Inr (map (ring_target h) (take (nat cnt)
              (uniq (map (ring_owner h) (clockwise (hr_ring h) (hr_hashFunc h key)))))))
    \<and> ring_GetPrimaryNode h key =
      (if hr_ring h = [] then Inl ErrNoNodesInRing
       else Inr (ring_target h (ring_owner h (hd (clockwise (hr_ring h) (hr_hashFunc h key)))),
                 hr_hashFunc h key))"
proof -
  have s: "sorted (hr_ring h)" using ring_reachable_wf [OF assms] by (simp add: ring_wf_def)
  have ne: "clockwise (hr_ring h) p \<noteq> []" if "hr_ring h \<noteq> []" for p
    using that by (metis set_clockwise set_empty)
  show ?thesis
    using GetNodes_prefs [OF s, of key cnt] GetPrimaryNode_prefs [OF s, of key] ne
    by (simp add: prefs_def hd_uniq hd_map)
qed

theorem ring_lookup_clockwise_witness:
  "ring_reachable demo_ring \<and>
   ring_GetNodes demo_ring ''k'' 2 = Inr [ring_target demo_ring ''A'', ring_target demo_ring ''BB''] \<and>
   ring_GetPrimaryNode demo_ring ''k'' = Inr (ring_target demo_ring ''A'', 10)"
proof -
  have cw: "clockwise (hr_ring demo_ring) (hr_hashFunc demo_ring ''k'') = [90, 100, 110]"
    and r: "hr_ring demo_ring \<noteq> []" and o: "ring_owner demo_ring 90 = ''A''"
    and kh: "hr_hashFunc demo_ring ''k'' = 10"
    by (simp_all add: demo_ring_eq clockwise_def demo_hash_def gm_get_def)
  show ?thesis
    using ring_lookup_clockwise [OF demo_ring_reachable, of "''k''" 2] demo_ring_reachable
      demo_ring_prefs [unfolded prefs_def] r cw o kh by simp
qed

text \<open>On a ring without token collisions \<open>GetNodes\<close> returns distinct nodes, exactly
  \<open>min cnt (number of nodes)\<close> of them, all registered and with their registered address,
  and the first one is the node \<open>GetPrimaryNode\<close> returns.\<close>

theorem ring_replicas_distinct:
  assumes ex: "ring_exact h" and ok: "ring_GetNodes h key cnt = Inr ts"
  shows "distinct (map nt_NodeID ts) \<and> length ts = min (nat cnt) (ring_NodeCount h)
    \<and> (\<forall>t \<in> set ts. ring_has h (nt_NodeID t)
         \<and> map_of (hr_nodeAddresses h) (nt_NodeID t) = Some (nt_Addr t))
    \<and> (0 < cnt \<longrightarrow> ring_GetPrimaryNode h key = Inr (hd ts, ring_HashKey h key))"
proof -
  note s = ring_exact_sorted [OF ex]
  note p = GetNodes_Inr_prefs [OF s ok]
  have ids: "map nt_NodeID ts = take (nat cnt) (prefs h key)"
    by (simp add: p(3) ring_target_def comp_def)
  have len: "length (prefs h key) = ring_NodeCount h"
    using ringp.pref_length [OF ex, of key] ring_exact_wf [OF ex]
    by (simp add: ring_NodeCount_def gm_keys_def ring_wf_def card_set_gm_wf)
  have reg: "ring_has h n \<and> map_of (hr_nodeAddresses h) n = Some (gm_get '''' (hr_nodeAddresses h) n)"
    if "n \<in> set (prefs h key)" for n
  proof -
    have "n \<in> set (ring_ids h)" using that by (simp add: prefs_set [OF ex])
    moreover have "set (gm_keys (hr_nodeAddresses h)) = set (ring_ids h)"
      using ring_exact_wf [OF ex] by (simp add: ring_wf_def)
    ultimately show ?thesis by (simp add: ring_exact_has [OF ex] gm_get_Some)
  qed
  have "distinct (map nt_NodeID ts)" by (simp add: ids prefs_distinct)
  moreover have "length ts = min (nat cnt) (ring_NodeCount h)"
    using len by (simp add: p(3) min.commute)
  moreover have "\<forall>t \<in> set ts. ring_has h (nt_NodeID t)
         \<and> map_of (hr_nodeAddresses h) (nt_NodeID t) = Some (nt_Addr t)"
    using reg by (auto simp: p(3) ring_target_def dest!: in_set_takeD)
  moreover have "0 < cnt \<longrightarrow> ring_GetPrimaryNode h key = Inr (hd ts, ring_HashKey h key)"
    using p(1) prefs_nonempty [of h key]
    by (simp add: p(3) GetPrimaryNode_prefs [OF s] ring_HashKey_def hd_map)
  ultimately show ?thesis by blast
qed

theorem ring_replicas_distinct_witness:
  "ring_exact demo_ring \<and> ring_GetNodes demo_ring ''k'' 2 = Inr
     [\<lparr>nt_NodeID = ''A'', nt_Addr = ''http://a''\<rparr>, \<lparr>nt_NodeID = ''BB'', nt_Addr = ''http://b''\<rparr>]
   \<and> ring_GetPrimaryNode demo_ring ''k'' = Inr (\<lparr>nt_NodeID = ''A'', nt_Addr = ''http://a''\<rparr>, ring_HashKey demo_ring ''k'')"
  using ring_replicas_distinct [OF demo_ring_exact demo_ring_two] demo_ring_exact demo_ring_two by simp

section \<open>Membership changes\<close>

text \<open>C24. Minimal remapping on growth: when a node joins, every key keeps its primary or
  moves to the new node, never from one old node to another. The node is new, its tokens collide with none, and its address is not the id
  of a node on the ring: otherwise \<open>AddNode\<close> takes that node for a placeholder of the new one and removes it first.\<close>

theorem ring_add_minimal_remap:
  assumes ex: "ring_exact h" and new: "ring_joinable h n" and free: "n = a \<or> \<not> ring_has h a"
    and old: "ring_GetPrimaryNode h key = Inr (t, kh)"
  shows "ring_GetPrimaryNode (ring_AddNode n a h) key
    \<in> {Inr (t, kh), Inr (\<lparr>nt_NodeID = n, nt_Addr = a\<rparr>, kh)}"
proof -
  let ?h = "ring_insert n a h"
  note p = GetPrimaryNode_Inr_prefs [OF ring_exact_sorted [OF ex] old]
  have ne: "set (ring_ids h) \<noteq> {}" using p(1) ring_exact_empty_iff [OF ex] by simp
  have nh: "\<not> ring_has h n" using ringp.joinable_fresh [OF new] by (simp add: ring_exact_has [OF ex])
  have "ring_GetPrimaryNode ?h key = Inr (ring_target ?h (hd (prefs ?h key)), kh)"
    using primary_of_prefs [OF ringp.valid_join [OF ex new, of a], of key]
    by (simp add: p(3) gm_keys_def)
  moreover have "hd (prefs ?h key) \<in> {n, hd (prefs h key)}"
    by (rule ringp.primary_after_join [OF ex new ne])
  moreover have "ring_target ?h n = \<lparr>nt_NodeID = n, nt_Addr = a\<rparr>"
    by (simp add: ring_target_def gomap_simps)
  moreover have "hd (prefs h key) \<noteq> n"
    using ringp.joinable_fresh [OF new] prefs_set [OF ex, of key] prefs_nonempty [OF p(1), of key]
    by (metis hd_in_set)
  ultimately show ?thesis
    using ring_AddNode_insert [OF nh free] p(2) by (auto simp: ring_target_insert)
qed

theorem ring_add_minimal_remap_witness:
  "ring_GetPrimaryNode demo_ring ''k'' = Inr (\<lparr>nt_NodeID = ''A'', nt_Addr = ''http://a''\<rparr>, 10)
   \<and> ring_GetPrimaryNode (ring_AddNode ''DDDD'' ''http://d'' demo_ring) ''k''
     \<in> {Inr (\<lparr>nt_NodeID = ''A'', nt_Addr = ''http://a''\<rparr>, 10),
         Inr (\<lparr>nt_NodeID = ''DDDD'', nt_Addr = ''http://d''\<rparr>, 10)}"
proof -
  have "\<not> ring_has demo_ring ''http://d''" by (simp add: demo_ring_eq gm_get_def)
  then show ?thesis
    using ring_add_minimal_remap [OF demo_ring_exact demo_ring_joinable _ demo_ring_primary] demo_ring_primary
    by simp
qed

text \<open>C17. Minimal remapping on loss and promotion of the replica: after \<open>RemoveNode\<close> a key
  whose primary is another node keeps it, and a key whose primary was removed is served by
  its former first replica.\<close>

theorem ring_remove_promotes_replica:
  assumes ex: "ring_exact h" and two: "ring_GetNodes h key 2 = Inr [p, q]"
    and n: "ring_has h n"
  shows "ring_GetPrimaryNode (ring_RemoveNode n h) key =
    Inr (if n = nt_NodeID p then q else p, ring_HashKey h key)"
proof -
  note s = ring_exact_sorted [OF ex]
  have n': "n \<in> set (ring_ids h)" using n by (simp add: ring_exact_has [OF ex])
  have t2: "map (ring_target h) (take 2 (prefs h key)) = [p, q]"
    using GetNodes_Inr_prefs(3) [OF s two] by simp
  then obtain m1 m2 ms where pr: "prefs h key = m1 # m2 # ms"
    by (cases "prefs h key" rule: remdups_adj.cases) auto
  with t2 have pq: "p = ring_target h m1" "q = ring_target h m2" by (auto simp: numeral_2_eq_2)
  have m: "m1 \<noteq> m2" using prefs_distinct [of h key] pr by simp
  let ?h = "ring_RemoveNode n h"
  have "prefs ?h key \<noteq> []" using ringp.pref_leave [OF ex n', of key] pr m by auto
  then have "ring_ids ?h \<noteq> []" using prefs_set [OF ringp.valid_leave [OF ex], of n key] by auto
  then have "ring_GetPrimaryNode ?h key = Inr (ring_target ?h (hd (prefs ?h key)), hr_hashFunc h key)"
    using primary_of_prefs [OF ringp.valid_leave [OF ex], of n] by simp
  moreover have "hd (prefs ?h key) = (if n = m1 then m2 else m1)"
    using ringp.replica_promoted [OF ex pr] ringp.primary_after_leave [OF ex n', of key] pr by auto
  moreover have "nt_NodeID p = m1" by (simp add: pq ring_target_def)
  ultimately show ?thesis using pq m by (simp add: ring_target_remove ring_HashKey_def)
qed

theorem ring_remove_promotes_replica_witness:
  "ring_GetPrimaryNode (ring_RemoveNode ''A'' demo_ring) ''k''
     = Inr (\<lparr>nt_NodeID = ''BB'', nt_Addr = ''http://b''\<rparr>, ring_HashKey demo_ring ''k'')
   \<and> ring_GetPrimaryNode (ring_RemoveNode ''CCC'' demo_ring) ''k''
     = Inr (\<lparr>nt_NodeID = ''A'', nt_Addr = ''http://a''\<rparr>, ring_HashKey demo_ring ''k'')"
proof -
  have "ring_has demo_ring ''A''" "ring_has demo_ring ''CCC''" by (simp_all add: demo_ring_eq gm_get_def)
  then show ?thesis
    using ring_remove_promotes_replica [OF demo_ring_exact demo_ring_two, of "''A''"]
      ring_remove_promotes_replica [OF demo_ring_exact demo_ring_two, of "''CCC''"] by simp
qed

text \<open>C35. Round trip: a node that joins and leaves again changes no lookup of any key. As for a join alone, the node is new, its tokens
  collide with none, and its address is not the id of a node on the ring, which \<open>AddNode\<close> would remove as a placeholder.\<close>

theorem ring_add_remove_roundtrip:
  assumes ex: "ring_exact h" and new: "ring_joinable h n" and free: "n = a \<or> \<not> ring_has h a"
  shows "ring_GetNodes (ring_RemoveNode n (ring_AddNode n a h)) key cnt = ring_GetNodes h key cnt
    \<and> ring_NodeCount (ring_RemoveNode n (ring_AddNode n a h)) = ring_NodeCount h"
proof -
  let ?h = "ring_RemoveNode n (ring_insert n a h)"
  have fresh: "n \<notin> set (ring_ids h)" by (rule ringp.joinable_fresh [OF new])
  have nh: "\<not> ring_has h n" using fresh by (simp add: ring_exact_has [OF ex])
  have ex': "ring_exact ?h" by (intro ringp.valid_leave ringp.valid_join ex new)
  have has: "ring_has (ring_insert n a h) n" by (simp add: gomap_simps)
  have nodes: "hr_nodes ?h = hr_nodes h"
    using fresh by (simp add: ring_RemoveNode_def ring_remove_present [OF has] gm_del_put_fresh)
  have pr: "prefs ?h key = prefs h key" by (rule ringp.leave_join [OF ex new])
  have "n \<notin> set (prefs h key)" using fresh by (simp add: prefs_set [OF ex])
  then have "x \<noteq> n" if "x \<in> set (take c (prefs h key))" for x c using that by (metis in_set_takeD)
  then have "map (ring_target ?h) (take c (prefs h key)) = map (ring_target h) (take c (prefs h key))" for c
    by (auto simp: ring_target_remove ring_target_insert)
  moreover have "hr_ring ?h = [] \<longleftrightarrow> hr_ring h = []"
    by (simp add: ring_exact_empty_iff [OF ex] ring_exact_empty_iff [OF ex'] nodes)
  ultimately show ?thesis
    using ring_AddNode_insert [OF nh free] ring_exact_sorted [OF ex] ring_exact_sorted [OF ex']
    by (simp add: GetNodes_prefs pr ring_NodeCount_def nodes)
qed

theorem ring_add_remove_roundtrip_witness:
  "ring_GetNodes (ring_RemoveNode ''DDDD'' (ring_AddNode ''DDDD'' ''http://d'' demo_ring)) ''k'' 2
     = Inr [\<lparr>nt_NodeID = ''A'', nt_Addr = ''http://a''\<rparr>, \<lparr>nt_NodeID = ''BB'', nt_Addr = ''http://b''\<rparr>]"
proof -
  have "\<not> ring_has demo_ring ''http://d''" by (simp add: demo_ring_eq gm_get_def)
  then show ?thesis
    using ring_add_remove_roundtrip [OF demo_ring_exact demo_ring_joinable, of "''http://d''" "''k''" 2]
    by (simp add: demo_ring_two)
qed

section \<open>Safety of removal and keys of virtual nodes\<close>

text \<open>The capacity \<open>internalRemoveNode\<close> computes for its new slice is never negative on
  a ring built from nodes with non-empty ids, so \<^verbatim>\<open>make\<close> cannot panic, and the ring keeps at
  least \<open>vnodes\<close> tokens per node in sorted order, whatever tokens collide.\<close>

theorem ring_remove_never_panics:
  assumes "ring_reachable h" "ring_has h n"
  shows "0 \<le> remove_capacity h \<and> sorted (hr_ring (ring_RemoveNode n h))
    \<and> hr_vnodes h * int (ring_NodeCount (ring_RemoveNode n h)) \<le> int (length (hr_ring (ring_RemoveNode n h)))"
proof -
  have wf: "ring_wf h" by (rule ring_reachable_wf [OF assms(1)])
  have wf': "ring_wf (ring_RemoveNode n h)" using wf by (simp add: ring_RemoveNode_def ring_wf_remove)
  have "hr_nodes h \<noteq> []" using assms(2) by auto
  then have "hr_vnodes h * 1 \<le> hr_vnodes h * int (length (hr_nodes h))"
    using wf by (intro mult_left_mono) (auto simp: ring_wf_def Suc_le_eq)
  moreover have "hr_vnodes h * int (length (hr_nodes h)) \<le> int (length (hr_ring h))"
    using wf by (simp add: ring_wf_def)
  ultimately have "0 \<le> remove_capacity h" by (simp add: remove_capacity_def)
  with wf' show ?thesis
    by (simp add: ring_wf_def ring_NodeCount_def ring_RemoveNode_def)
qed

theorem ring_remove_never_panics_witness:
  "ring_reachable demo_ring \<and> remove_capacity demo_ring = 2 \<and> 0 \<le> remove_capacity demo_ring
   \<and> sorted (hr_ring (ring_RemoveNode ''A'' demo_ring))"
proof -
  have "ring_has demo_ring ''A''" "remove_capacity demo_ring = 2"
    by (simp_all add: demo_ring_eq gm_get_def remove_capacity_def)
  then show ?thesis using ring_remove_never_panics [OF demo_ring_reachable] demo_ring_reachable by simp
qed

text \<open>Distinct virtual nodes are hashed under distinct keys, whatever characters the
  node ids contain.\<close>

lemma vnodeKey_injective: "vnodeKey n i = vnodeKey m j \<longleftrightarrow> n = m \<and> i = j"
proof
  assume eq: "vnodeKey n i = vnodeKey m j"
  have d: "takeWhile (\<lambda>c. c \<noteq> CHR ''#'') (rev (vnodeKey x k)) = rev (''vnode:'' @ nat_digits k)" for x k
  proof -
    have "\<And>c. c \<in> set (rev (nat_digits k)) \<Longrightarrow> c \<noteq> CHR ''#''" using nat_digits_not_hash [of k] by auto
    from takeWhile_append2 [of "rev (nat_digits k)" "\<lambda>c. c \<noteq> CHR ''#''", OF this]
    show ?thesis by (simp add: vnodeKey_def itoa_def)
  qed
  from arg_cong [OF eq, of "\<lambda>s. takeWhile (\<lambda>c. c \<noteq> CHR ''#'') (rev s)"]
  have "nat_digits i = nat_digits j" by (simp add: d)
  then have "i = j" by (rule nat_digits_inj)
  with eq show "n = m \<and> i = j" by (simp add: vnodeKey_def)
qed simp

text \<open>Where the tokens of two nodes collide, removing the node that was added last
  leaves a token without an owner on the ring: lookups then return the node with the empty
  id and the empty address, although the other node is still registered.\<close>

theorem ring_collision_orphans_token:
  assumes coll: "hf (vnodeKey n 0) = hf (vnodeKey m 0)" and ids: "n \<noteq> m" "n \<noteq> ''''" "m \<noteq> ''''"
    and addrs: "a \<notin> {n, m}" "b \<notin> {n, m}"
  shows "let h = ring_RemoveNode m (ring_AddNode m b (ring_AddNode n a (ring_New 1 (Some hf))))
    in ring_has h n \<and> ring_GetPrimaryNode h key = Inr (\<lparr>nt_NodeID = '''', nt_Addr = ''''\<rparr>, hf key)"
proof -
  let ?t = "hf (vnodeKey m 0)"
  have h1: "ring_AddNode n a (ring_New 1 (Some hf)) =
      \<lparr>hr_vnodes = 1, hr_hashFunc = hf, hr_ring = [?t], hr_vnodeToNode = [(?t, n)],
       hr_nodeAddresses = [(n, a)], hr_nodes = [(n, True)]\<rparr>"
    using coll by (simp add: ring_AddNode_def ring_New_def addVNode_def Let_def)
  have h2: "ring_AddNode m b (ring_AddNode n a (ring_New 1 (Some hf))) =
      \<lparr>hr_vnodes = 1, hr_hashFunc = hf, hr_ring = [?t, ?t], hr_vnodeToNode = [(?t, m)],
       hr_nodeAddresses = [(n, a), (m, b)], hr_nodes = [(n, True), (m, True)]\<rparr>"
    unfolding h1 using ids addrs by (simp add: ring_AddNode_def addVNode_def Let_def gm_get_def)
  have h3: "ring_RemoveNode m (ring_AddNode m b (ring_AddNode n a (ring_New 1 (Some hf)))) =
      \<lparr>hr_vnodes = 1, hr_hashFunc = hf, hr_ring = [?t], hr_vnodeToNode = [],
       hr_nodeAddresses = [(n, a)], hr_nodes = [(n, True)]\<rparr>"
    unfolding h2 using ids by (simp add: ring_RemoveNode_def ring_internalRemoveNode_def gm_get_def)
  show ?thesis unfolding h3 Let_def
    using ids by (simp add: GetPrimaryNode_prefs prefs_def clockwise_def ring_target_def gm_get_def not_le)
qed

theorem ring_collision_orphans_token_witness:
  "let h = ring_RemoveNode ''b'' (ring_AddNode ''b'' ''http://b'' (ring_AddNode ''a'' ''http://a''
       (ring_New 1 (Some (\<lambda>_. 7)))))
   in ring_has h ''a'' \<and> ring_GetPrimaryNode h ''k'' = Inr (\<lparr>nt_NodeID = '''', nt_Addr = ''''\<rparr>, 7)"
  using ring_collision_orphans_token [of "\<lambda>_. 7" "''a''" "''b''" "''http://a''" "''http://b''" "''k''"] by simp

end
