(* ===== verification/Go_Float.thy ===== *)
theory Go_Float
  imports Complex_Main SHC_Prelude
begin

text \<open>
  Go's \<^verbatim>\<open>float64\<close> on the finite values the code uses: a float is the rational it denotes,
  and \<open>f64\<close> rounds an exact result to 53 significant bits, ties to even, as every
  arithmetic operation and every conversion from an integer does. The exponent range is
  not bounded (no value of the code comes near its ends), and there is no infinity or NaN.
  On top of it, \<^verbatim>\<open>time.Duration.Seconds\<close> and the conversion back to \<^verbatim>\<open>int64\<close>, which the
  cache and the replicator use to print a remaining time to live.
\<close>

section \<open>Definitions\<close>

fun bitlen :: "nat \<Rightarrow> nat" where
  "bitlen n = (if n = 0 then 0 else Suc (bitlen (n div 2)))"

declare bitlen.simps [simp del]

text \<open>The exponent of a positive rational: \<open>2 powi e \<le> x < 2 powi (e + 1)\<close>.\<close>

definition ilog2 :: "rat \<Rightarrow> int" where
  "ilog2 x = (let (p, q) = quotient_of x; e = int (bitlen (nat p)) - int (bitlen (nat q))
     in if 2 powi e \<le> x then e else e - 1)"

definition round_even :: "rat \<Rightarrow> int" where
  "round_even x = (let f = \<lfloor>x\<rfloor>; r = x - of_int f
     in if r < 1 / 2 then f else if 1 / 2 < r then f + 1 else if even f then f else f + 1)"

definition f64_pos :: "rat \<Rightarrow> rat" where
  "f64_pos x = (let u = 2 powi (ilog2 x - 52) in of_int (round_even (x / u)) * u)"

definition f64 :: "rat \<Rightarrow> rat" where
  "f64 x = (if x = 0 then 0 else if x < 0 then - f64_pos (- x) else f64_pos x)"

text \<open>Conversion to \<^verbatim>\<open>int64\<close> truncates.\<close>

definition int64_of_float :: "rat \<Rightarrow> int" where
  "int64_of_float x = (if 0 \<le> x then \<lfloor>x\<rfloor> else \<lceil>x\<rceil>)"

definition dur_Seconds :: "duration \<Rightarrow> rat" where
  "dur_Seconds d = f64 (f64 (of_int (go_quot d second)) + f64 (f64 (of_int (go_rem d second)) / 1000000000))"

definition dur_Milliseconds :: "duration \<Rightarrow> int" where
  "dur_Milliseconds d = go_quot d millisecond"

section \<open>Exponents\<close>

lemma bitlen_bounds: "0 < n \<Longrightarrow> 2 ^ (bitlen n - 1) \<le> n \<and> n < 2 ^ bitlen n"
proof (induction n rule: bitlen.induct)
  case (1 n)
  show ?case
  proof (cases "n div 2 = 0")
    case True
    with "1.prems" have "n = 1" by simp
    then show ?thesis by (simp add: bitlen.simps)
  next
    case False
    with 1 have IH: "2 ^ (bitlen (n div 2) - 1) \<le> n div 2" "n div 2 < 2 ^ bitlen (n div 2)" by simp_all
    from False have pos: "bitlen (n div 2) = Suc (bitlen (n div 2) - 1)"
      by (subst (1) bitlen.simps) (simp add: bitlen.simps [of "n div 2"])
    have "2 ^ bitlen (n div 2) \<le> n" using IH(1) pos by (metis div_le_dividend linorder_not_le mult.commute
      less_eq_div_iff_mult_less_eq power_Suc zero_less_numeral)
    moreover have "n < 2 * 2 ^ bitlen (n div 2)" using IH(2) by linarith
    ultimately show ?thesis using "1.prems" by (simp add: bitlen.simps [of n])
  qed
qed

lemma bitlen_rat:
  assumes "0 < n"
  shows "2 powi (int (bitlen (nat n)) - 1) \<le> (of_int n :: rat)" "(of_int n :: rat) < 2 powi int (bitlen (nat n))"
proof -
  let ?a = "bitlen (nat n)"
  have b: "2 ^ (?a - 1) \<le> nat n" "nat n < 2 ^ ?a" using bitlen_bounds [of "nat n"] assms by simp_all
  have n: "(of_int n :: rat) = of_nat (nat n)" using assms by simp
  have "0 < ?a" using assms by (simp add: bitlen.simps)
  then have "int ?a - 1 = int (?a - 1)" by simp
  then have "2 powi (int ?a - 1) = (of_nat (2 ^ (?a - 1)) :: rat)" by (simp only: power_int_of_nat) simp
  then show "2 powi (int ?a - 1) \<le> (of_int n :: rat)" using b(1) by (simp only: n of_nat_le_iff)
  have "2 powi int ?a = (of_nat (2 ^ ?a) :: rat)" by simp
  then show "(of_int n :: rat) < 2 powi int ?a" using b(2) by (simp only: n of_nat_less_iff)
qed

lemma powi2_pos [simp]: "0 < (2 :: rat) powi e"
  by (simp add: zero_less_power_int)

lemma powi2_add: "(2 :: rat) powi (a + b) = 2 powi a * 2 powi b"
  by (simp add: power_int_add)

lemma powi2_diff: "(2 :: rat) powi (a - b) = 2 powi a / 2 powi b"
  by (simp add: power_int_diff)

lemma powi2_mono: "a \<le> b \<Longrightarrow> (2 :: rat) powi a \<le> 2 powi b"
  by (rule power_int_increasing) simp_all

lemma powi2_less: "a < b \<Longrightarrow> (2 :: rat) powi a < 2 powi b"
  by (rule power_int_strict_increasing) simp_all

lemma ilog2_bounds:
  assumes "0 < x"
  shows "2 powi (ilog2 x) \<le> x \<and> x < 2 powi (ilog2 x + 1)"
proof -
  obtain p q where pq: "quotient_of x = (p, q)" by (cases "quotient_of x")
  have q: "0 < q" using quotient_of_denom_pos [OF pq] .
  have x: "x = of_int p / of_int q" using quotient_of_div [OF pq] .
  have p: "0 < p" using assms q by (simp add: x zero_less_divide_iff)
  let ?a = "int (bitlen (nat p))" and ?b = "int (bitlen (nat q))"
  note P = bitlen_rat [OF p] and Q = bitlen_rat [OF q]
  have q': "0 < (of_int q :: rat)" using q by simp
  have "x < 2 powi ?a / 2 powi (?b - 1)"
    unfolding x by (rule frac_less) (use P Q p q in auto)
  also have "\<dots> = 2 powi (?a - (?b - 1))" by (simp only: powi2_diff)
  also have "?a - (?b - 1) = ?a - ?b + 1" by simp
  finally have up: "x < 2 powi (?a - ?b + 1)" .
  have "?a - ?b - 1 = ?a - 1 - ?b" by simp
  then have "2 powi (?a - ?b - 1) = 2 powi (?a - 1) / (2 powi ?b :: rat)"
    by (simp only: powi2_diff)
  also have "\<dots> \<le> x" unfolding x by (rule frac_le) (use P Q p q in auto)
  finally have lo: "2 powi (?a - ?b - 1) \<le> x" .
  show ?thesis using up lo by (auto simp: ilog2_def pq Let_def)
qed

lemma ilog2_unique:
  assumes "2 powi e \<le> x" "x < 2 powi (e + 1)"
  shows "ilog2 x = e"
proof -
  have pos: "0 < x" using assms(1) powi2_pos [of e] by linarith
  note b = ilog2_bounds [OF pos]
  have "\<not> ilog2 x < e" using powi2_mono [of "ilog2 x + 1" e] b assms(1) by force
  moreover have "\<not> e < ilog2 x" using powi2_mono [of "e + 1" "ilog2 x"] b assms(2) by force
  ultimately show ?thesis by simp
qed

lemma ilog2_mono: "0 < x \<Longrightarrow> x \<le> y \<Longrightarrow> ilog2 x \<le> ilog2 y"
  using ilog2_bounds [of x] ilog2_bounds [of y] powi2_mono [of "ilog2 y + 1" "ilog2 x"] by force

section \<open>Rounding\<close>

lemma round_even_of_int [simp]: "round_even (of_int k) = k"
  by (simp add: round_even_def)

lemma round_even_cases: "round_even x = \<lfloor>x\<rfloor> \<and> x - of_int \<lfloor>x\<rfloor> \<le> 1 / 2 \<or> round_even x = \<lfloor>x\<rfloor> + 1 \<and> 1 / 2 \<le> x - of_int \<lfloor>x\<rfloor>"
  by (auto simp: round_even_def Let_def)

lemma round_even_mono: "x \<le> y \<Longrightarrow> round_even x \<le> round_even y"
proof (cases "\<lfloor>x\<rfloor> = \<lfloor>y\<rfloor>")
  case True
  moreover assume "x \<le> y"
  ultimately show ?thesis by (auto simp: round_even_def Let_def)
next
  case False
  moreover assume "x \<le> y"
  ultimately have "\<lfloor>x\<rfloor> + 1 \<le> \<lfloor>y\<rfloor>" using floor_mono [of x y] by linarith
  then show ?thesis using round_even_cases [of x] round_even_cases [of y] by linarith
qed

lemma round_even_le_int: "x \<le> of_int k \<Longrightarrow> round_even x \<le> k"
  using round_even_mono [of x "of_int k"] by simp

lemma round_even_ge_int: "of_int k \<le> x \<Longrightarrow> k \<le> round_even x"
  using round_even_mono [of "of_int k" x] by simp

lemma f64_pos_bounds:
  assumes "0 < x"
  shows "2 powi (ilog2 x) \<le> f64_pos x" "f64_pos x \<le> 2 powi (ilog2 x + 1)"
proof -
  let ?u = "2 powi (ilog2 x - 52) :: rat"
  have lo: "2 powi (ilog2 x) = of_int (2 ^ 52) * ?u" by (simp add: powi2_diff)
  have hi: "2 powi (ilog2 x + 1) = of_int (2 ^ 53) * ?u" by (simp add: powi2_diff powi2_add)
  note b = ilog2_bounds [OF assms]
  have "of_int (2 ^ 52) \<le> x / ?u" using b lo by (simp add: pos_le_divide_eq)
  then have "2 ^ 52 \<le> round_even (x / ?u)" by (rule round_even_ge_int)
  then have "(of_int (2 ^ 52) :: rat) \<le> of_int (round_even (x / ?u))" by (simp only: of_int_le_iff)
  then show "2 powi (ilog2 x) \<le> f64_pos x"
    unfolding lo f64_pos_def Let_def by (rule mult_right_mono) simp
  have "x / ?u \<le> of_int (2 ^ 53)" using b hi by (simp add: pos_divide_le_eq)
  then have "round_even (x / ?u) \<le> 2 ^ 53" by (rule round_even_le_int)
  then have "(of_int (round_even (x / ?u)) :: rat) \<le> of_int (2 ^ 53)" by (simp only: of_int_le_iff)
  then show "f64_pos x \<le> 2 powi (ilog2 x + 1)"
    unfolding hi f64_pos_def Let_def by (rule mult_right_mono) simp
qed

lemma f64_mono:
  assumes "0 \<le> x" "x \<le> y"
  shows "f64 x \<le> f64 y"
proof (cases "x = 0")
  case True
  have "0 < y \<Longrightarrow> 0 \<le> f64_pos y"
    using f64_pos_bounds(1) [of y] powi2_pos [of "ilog2 y"] by linarith
  with True assms show ?thesis by (auto simp: f64_def)
next
  case False
  then have x: "0 < x" and y: "0 < y" using assms by simp_all
  consider (same) "ilog2 x = ilog2 y" | (less) "ilog2 x + 1 \<le> ilog2 y"
    using ilog2_mono [OF x assms(2)] by linarith
  then have "f64_pos x \<le> f64_pos y"
  proof cases
    case same
    then show ?thesis using assms(2)
      by (auto simp: f64_pos_def Let_def intro!: mult_right_mono round_even_mono divide_right_mono)
  next
    case less
    have "f64_pos x \<le> 2 powi (ilog2 x + 1)" by (rule f64_pos_bounds [OF x])
    also have "\<dots> \<le> 2 powi (ilog2 y)" by (rule powi2_mono [OF less])
    also have "\<dots> \<le> f64_pos y" by (rule f64_pos_bounds [OF y])
    finally show ?thesis .
  qed
  with x y show ?thesis by (simp add: f64_def)
qed

text \<open>A value with at most 53 significant bits is not changed.\<close>

lemma f64_exact:
  assumes m: "0 \<le> m" "m < 2 ^ 53"
  shows "f64 (of_int m * 2 powi k) = of_int m * 2 powi k"
proof (cases "m = 0")
  case False
  let ?x = "of_int m * 2 powi k :: rat"
  let ?e = "ilog2 ?x"
  have pos: "0 < ?x" using False m by simp
  have m1: "(of_int m :: rat) < 2 powi 53" using m(2) by (metis of_int_less_iff of_int_numeral of_int_power power_int_numeral)
  have "2 powi ?e \<le> ?x" using ilog2_bounds [OF pos] by simp
  also have "\<dots> < 2 powi (53 + k)" using m1 by (simp add: powi2_add)
  finally have "2 powi ?e < (2 powi (53 + k) :: rat)" .
  then have e: "?e - 52 \<le> k" using powi2_mono [of "53 + k" ?e] by force
  have "?x / 2 powi (?e - 52) = of_int m * 2 powi (k - (?e - 52))" by (simp add: powi2_diff)
  also have "2 powi (k - (?e - 52)) = (of_int (2 ^ nat (k - (?e - 52))) :: rat)"
    using e by (simp add: power_int_nonneg_exp)
  finally have "?x / 2 powi (?e - 52) = of_int (m * 2 ^ nat (k - (?e - 52)))" by simp
  then have "f64_pos ?x = of_int (m * 2 ^ nat (k - (?e - 52))) * 2 powi (?e - 52)"
    by (simp only: f64_pos_def Let_def round_even_of_int)
  also have "\<dots> = ?x" using \<open>?x / 2 powi (?e - 52) = of_int (m * 2 ^ nat (k - (?e - 52)))\<close>
    by (metis less_irrefl nonzero_eq_divide_eq powi2_pos)
  finally show ?thesis using pos by (simp add: f64_def)
qed (simp add: f64_def)

lemma f64_of_int: "0 \<le> m \<Longrightarrow> m < 2 ^ 53 \<Longrightarrow> f64 (of_int m) = of_int m"
  using f64_exact [of m 0] by simp

lemma f64_nonneg: "0 \<le> x \<Longrightarrow> 0 \<le> f64 x"
  using f64_mono [of 0 x] by (simp add: f64_def)

section \<open>Whole seconds of a duration\<close>

text \<open>Below 97 days the float arithmetic of \<open>Seconds\<close> never reaches the next second.\<close>

lemma seconds_truncate:
  assumes d: "0 \<le> d" "d < 2 ^ 23 * second"
  shows "int64_of_float (dur_Seconds d) = d div second"
proof -
  let ?s = "d div second" and ?n = "d mod second"
  have s: "0 \<le> ?s" "?s < 2 ^ 23" using d by (auto intro: div_less_dividend simp: div_less_iff_less_mult)
  have n: "0 \<le> ?n" "?n < second" by simp_all
  let ?q = "f64 (of_int ?n / 1000000000)"
  have "?n \<le> 999999999" using n(2) by simp
  then have "(of_int ?n :: rat) \<le> of_int 999999999" by (simp only: of_int_le_iff)
  then have "?q \<le> f64 (of_int (2 ^ 30 - 1) * 2 powi (- 30))"
    using n(1) by (intro f64_mono) (simp_all add: power_int_minus divide_simps)
  also have "\<dots> = of_int (2 ^ 30 - 1) * 2 powi (- 30)" by (rule f64_exact) simp_all
  finally have q: "?q \<le> of_int (2 ^ 30 - 1) * 2 powi (- 30)" .
  have q0: "0 \<le> ?q" using n(1) by (intro f64_nonneg) simp
  have sec: "dur_Seconds d = f64 (of_int ?s + ?q)"
    using d s n by (simp add: dur_Seconds_def go_quot_nonneg go_rem_nonneg f64_of_int)
  have "of_int ?s = f64 (of_int ?s)" using s by (simp add: f64_of_int)
  also have "\<dots> \<le> f64 (of_int ?s + ?q)" using s q0 by (intro f64_mono) simp_all
  finally have lo: "of_int ?s \<le> dur_Seconds d" using sec by simp
  have "of_int ?s + ?q \<le> of_int ((?s + 1) * 2 ^ 30 - 1) * 2 powi (- 30)"
    using q by (simp add: power_int_minus field_simps)
  then have "dur_Seconds d \<le> f64 (of_int ((?s + 1) * 2 ^ 30 - 1) * 2 powi (- 30))"
    unfolding sec using s q0 by (intro f64_mono) simp_all
  also have "\<dots> = of_int ((?s + 1) * 2 ^ 30 - 1) * 2 powi (- 30)"
    using s by (intro f64_exact) simp_all
  also have "\<dots> < of_int (?s + 1)" by (simp add: power_int_minus field_simps)
  finally have hi: "dur_Seconds d < of_int (?s + 1)" .
  have "\<lfloor>dur_Seconds d\<rfloor> = ?s" using lo hi by (intro floor_unique) simp_all
  moreover have "0 \<le> dur_Seconds d" using lo s by (meson of_int_0_le_iff order_trans)
  ultimately show ?thesis by (simp add: int64_of_float_def)
qed

lemma seconds_whole:
  assumes "0 \<le> k" "k < 2 ^ 53"
  shows "int64_of_float (dur_Seconds (k * second)) = k"
proof -
  have "f64 0 = 0" by (simp add: f64_def)
  then have "dur_Seconds (k * second) = of_int k"
    using assms by (simp add: dur_Seconds_def go_quot_nonneg go_rem_nonneg f64_of_int)
  with assms show ?thesis by (simp add: int64_of_float_def)
qed

end
