(* ===== verification/Ttl_Store.thy ===== *)
theory Ttl_Store
  imports SHC_Prelude
begin

text \<open>
  The contract of a store with expiring entries, as the node server and the rebalancer use
  it: a view of the live entries at a time, writes that replace one key, deletes that
  remove one key, and housekeeping that is invisible from its own time on, over states of
  an invariant that every operation keeps. Bulk writes and arbitrary interleavings of
  housekeeping are analysed here once, from the laws.
\<close>

locale ttl_store =
  fixes valid :: "'s \<Rightarrow> bool"
    and view :: "gtime \<Rightarrow> 's \<Rightarrow> string \<Rightarrow> 'i option"
    and live :: "gtime \<Rightarrow> 'i \<Rightarrow> bool"
    and put :: "gtime \<Rightarrow> 'w \<Rightarrow> 's \<Rightarrow> 's"
    and wkey :: "'w \<Rightarrow> string"
    and made :: "gtime \<Rightarrow> 'w \<Rightarrow> 's \<Rightarrow> 'i"
    and del :: "string \<Rightarrow> 's \<Rightarrow> 's"
    and purge :: "gtime \<Rightarrow> 's \<Rightarrow> 's"
  assumes valid_put: "valid s \<Longrightarrow> valid (put now w s)"
    and valid_del: "valid s \<Longrightarrow> valid (del k s)"
    and valid_purge: "valid s \<Longrightarrow> valid (purge now s)"
    and view_live: "view t s k = Some i \<Longrightarrow> live t i"
    and view_put: "view t (put now w s) k =
      (if k = wkey w then (if live t (made now w s) then Some (made now w s) else None) else view t s k)"
    and view_del: "view t (del k' s) k = (if k = k' then None else view t s k)"
    and view_purge: "valid s \<Longrightarrow> now \<le> t \<Longrightarrow> view t (purge now s) k = view t s k"
begin

lemma bulk_valid: "valid s \<Longrightarrow> valid (fold (\<lambda>p. put (fst p) (snd p)) ws s)"
  by (induction ws arbitrary: s) (auto simp: valid_put)

lemma bulk_other:
  "k \<notin> (\<lambda>p. wkey (snd p)) ` set ws \<Longrightarrow> view t (fold (\<lambda>p. put (fst p) (snd p)) ws s) k = view t s k"
  by (induction ws arbitrary: s) (auto simp: view_put)

text \<open>After a bulk write a key reads as its last write.\<close>

lemma bulk_last:
  assumes "k \<notin> (\<lambda>p. wkey (snd p)) ` set ys" "wkey w = k"
  shows "view t (fold (\<lambda>p. put (fst p) (snd p)) (xs @ (now, w) # ys) s) k =
    (let i = made now w (fold (\<lambda>p. put (fst p) (snd p)) xs s) in if live t i then Some i else None)"
  using assms by (simp add: bulk_other view_put)

text \<open>Any number of clean-up rounds up to \<open>t\<close> leaves the view at \<open>t\<close> as it was.\<close>

lemma purges_invisible:
  "valid s \<Longrightarrow> \<forall>now\<in>set ts. now \<le> t \<Longrightarrow> view t (fold purge ts s) k = view t s k"
  by (induction ts arbitrary: s) (auto simp: view_purge valid_purge)

lemma put_purges_read:
  assumes "valid s" "\<forall>n\<in>set ts. n \<le> t" "live t (made now w s)"
  shows "view t (fold purge ts (put now w s)) (wkey w) = Some (made now w s)"
  using assms by (simp add: purges_invisible valid_put view_put)

end

end
