(* ===== verification/Cache_Store.thy ===== *)
theory Cache_Store
  imports Go_Float Ttl_Store
begin

text \<open>
  The in-memory store of a node (\<^verbatim>\<open>backend/internal/cache/cache.go\<close>).

  \<^item> State: the record \<open>cache\<close> (items, the five atomic counters, start time, whether the
    clean-up worker was told to stop). Items are never mutated after they are stored, so
    the Go pointers are modelled by values.
  \<^item> Operations: one function per method; a method that reads the clock takes the reading
    as an argument. \<open>Get\<close> takes the lock twice; its two critical sections are the separate
    definitions \<open>cache_Get_lookup\<close> and \<open>cache_Get_evict\<close>, so that other operations can be
    interleaved between them.
  \<^item> Specification: \<open>cache_view now c\<close>, the live entries at a time.
\<close>

section \<open>Definitions\<close>

subsection \<open>Data\<close>

record item =
  it_Key :: string
  it_Value :: string
  it_CreatedAt :: gtime
  it_ExpiresAt :: gtime
  it_Version :: u64
  it_IsReplica :: bool

record cache_stats =
  cs_TotalKeys :: nat
  cs_PrimaryKeys :: nat
  cs_ReplicaKeys :: nat
  cs_HitCount :: u64
  cs_MissCount :: u64
  cs_SetCount :: u64
  cs_DeleteCount :: u64
  cs_ExpiredCount :: u64
  cs_UptimeSeconds :: int

record cache =
  c_items :: "(string, item) gomap"
  c_hitCount :: u64
  c_missCount :: u64
  c_setCount :: u64
  c_deleteCount :: u64
  c_expiredCount :: u64
  c_startTime :: gtime
  c_stopCleanup :: bool

subsection \<open>Items\<close>

definition item_IsExpired :: "gtime \<Rightarrow> item \<Rightarrow> bool" where
  "item_IsExpired now i = (if it_ExpiresAt i = 0 then False else it_ExpiresAt i < now)"

definition item_TTLRemaining :: "gtime \<Rightarrow> item \<Rightarrow> int" where
  "item_TTLRemaining now i =
     (if it_ExpiresAt i = 0 then - 1
      else let remaining = time_sub (it_ExpiresAt i) now
           in if remaining \<le> 0 then 0 else int64_of_float (dur_Seconds remaining))"

subsection \<open>Operations\<close>

definition cleanup_interval :: "duration \<Rightarrow> duration" where
  "cleanup_interval d = (if d \<le> 0 then 1 * second else d)"

definition cache_New :: "gtime \<Rightarrow> cache" where
  "cache_New now = \<lparr>c_items = [], c_hitCount = 0, c_missCount = 0, c_setCount = 0,
     c_deleteCount = 0, c_expiredCount = 0, c_startTime = now, c_stopCleanup = False\<rparr>"

definition cache_SetWithMetadata ::
  "gtime \<Rightarrow> string \<Rightarrow> string \<Rightarrow> duration \<Rightarrow> u64 \<Rightarrow> bool \<Rightarrow> cache \<Rightarrow> item \<times> cache" where
  "cache_SetWithMetadata now key value ttl version isReplica c =
     (let expiresAt = (if 0 < ttl then now + ttl else 0);
          version' = (if version = 0
                      then (case map_of (c_items c) key of None \<Rightarrow> 1 | Some existing \<Rightarrow> it_Version existing + 1)
                      else version);
          item = \<lparr>it_Key = key, it_Value = value, it_CreatedAt = now, it_ExpiresAt = expiresAt,
                  it_Version = version', it_IsReplica = isReplica\<rparr>
      in (item, c\<lparr>c_items := gm_put key item (c_items c), c_setCount := c_setCount c + 1\<rparr>))"

definition cache_Set :: "gtime \<Rightarrow> string \<Rightarrow> string \<Rightarrow> duration \<Rightarrow> cache \<Rightarrow> item \<times> cache" where
  "cache_Set now key value ttl c = cache_SetWithMetadata now key value ttl 0 False c"

definition cache_Get_lookup :: "string \<Rightarrow> cache \<Rightarrow> item option" where
  "cache_Get_lookup key c = map_of (c_items c) key"

definition cache_Get_evict :: "gtime \<Rightarrow> string \<Rightarrow> cache \<Rightarrow> cache" where
  "cache_Get_evict now key c =
     (case map_of (c_items c) key of
        Some curItem \<Rightarrow>
          (if item_IsExpired now curItem
           then c\<lparr>c_items := gm_del key (c_items c), c_expiredCount := c_expiredCount c + 1\<rparr> else c)
      | None \<Rightarrow> c)"

text \<open>\<open>Get\<close> without interference: \<open>t1\<close> is the first reading of the clock, \<open>t2\<close> the second.\<close>

definition cache_Get :: "gtime \<Rightarrow> gtime \<Rightarrow> string \<Rightarrow> cache \<Rightarrow> item option \<times> cache" where
  "cache_Get t1 t2 key c =
     (case cache_Get_lookup key c of
        None \<Rightarrow> (None, c\<lparr>c_missCount := c_missCount c + 1\<rparr>)
      | Some item \<Rightarrow>
          if item_IsExpired t1 item
          then (let c' = cache_Get_evict t2 key c in (None, c'\<lparr>c_missCount := c_missCount c' + 1\<rparr>))
          else (Some item, c\<lparr>c_hitCount := c_hitCount c + 1\<rparr>))"

definition cache_Delete :: "string \<Rightarrow> cache \<Rightarrow> bool \<times> cache" where
  "cache_Delete key c =
     (case map_of (c_items c) key of
        Some _ \<Rightarrow> (True, c\<lparr>c_items := gm_del key (c_items c), c_deleteCount := c_deleteCount c + 1\<rparr>)
      | None \<Rightarrow> (False, c))"

definition cache_Stats :: "gtime \<Rightarrow> cache \<Rightarrow> cache_stats" where
  "cache_Stats now c =
     (let (primaryCount, replicaCount) =
        fold (\<lambda>(k, item) (p, r). if it_IsReplica item then (p, r + 1) else (p + 1, r)) (c_items c) (0, 0)
      in \<lparr>cs_TotalKeys = length (c_items c), cs_PrimaryKeys = primaryCount, cs_ReplicaKeys = replicaCount,
          cs_HitCount = c_hitCount c, cs_MissCount = c_missCount c, cs_SetCount = c_setCount c,
          cs_DeleteCount = c_deleteCount c, cs_ExpiredCount = c_expiredCount c,
          cs_UptimeSeconds = int64_of_float (dur_Seconds (time_sub now (c_startTime c)))\<rparr>)"

text \<open>\<open>Keys\<close> ranges over the map in the unspecified order \<open>order\<close>.\<close>

definition cache_Keys :: "gtime \<Rightarrow> string list \<Rightarrow> cache \<Rightarrow> string list" where
  "cache_Keys now order c =
     filter (\<lambda>k. case map_of (c_items c) k of
                   Some item \<Rightarrow> it_ExpiresAt item = 0 \<or> now < it_ExpiresAt item
                 | None \<Rightarrow> False) order"

definition purge_entry :: "gtime \<Rightarrow> string \<times> item \<Rightarrow> cache \<Rightarrow> cache" where
  "purge_entry now e c =
     (if it_ExpiresAt (snd e) \<noteq> 0 \<and> it_ExpiresAt (snd e) < now
      then c\<lparr>c_items := gm_del (fst e) (c_items c), c_expiredCount := c_expiredCount c + 1\<rparr> else c)"

definition cache_purgeExpired :: "gtime \<Rightarrow> cache \<Rightarrow> cache" where
  "cache_purgeExpired now c = fold (purge_entry now) (c_items c) c"

definition cache_Close :: "cache \<Rightarrow> cache" where
  "cache_Close c = (if c_stopCleanup c then c else c\<lparr>c_stopCleanup := True\<rparr>)"

text \<open>The clean-up worker serves what its \<^verbatim>\<open>select\<close> receives: ticks, until the stop channel
  is closed.\<close>

datatype worker_event = Tick gtime | StopReceived

fun cleanup_worker :: "worker_event list \<Rightarrow> cache \<Rightarrow> cache" where
  "cleanup_worker [] c = c"
| "cleanup_worker (Tick now # es) c = cleanup_worker es (cache_purgeExpired now c)"
| "cleanup_worker (StopReceived # es) c = c"

subsection \<open>Specification\<close>

definition cache_view :: "gtime \<Rightarrow> cache \<Rightarrow> string \<Rightarrow> item option" where
  "cache_view now c key =
     (case map_of (c_items c) key of
        Some item \<Rightarrow> (if item_IsExpired now item then None else Some item) | None \<Rightarrow> None)"

text \<open>A write request, and the item it stores.\<close>

record cache_write =
  cw_key :: string
  cw_value :: string
  cw_ttl :: duration
  cw_version :: u64
  cw_isReplica :: bool

definition cache_put :: "gtime \<Rightarrow> cache_write \<Rightarrow> cache \<Rightarrow> cache" where
  "cache_put now w c = snd (cache_SetWithMetadata now (cw_key w) (cw_value w) (cw_ttl w) (cw_version w) (cw_isReplica w) c)"

definition cache_made :: "gtime \<Rightarrow> cache_write \<Rightarrow> cache \<Rightarrow> item" where
  "cache_made now w c = fst (cache_SetWithMetadata now (cw_key w) (cw_value w) (cw_ttl w) (cw_version w) (cw_isReplica w) c)"

text \<open>Every entry is filed under its own key, and no key twice.\<close>

definition cache_wf :: "cache \<Rightarrow> bool" where
  "cache_wf c \<longleftrightarrow> gm_wf (c_items c) \<and> (\<forall>k i. map_of (c_items c) k = Some i \<longrightarrow> it_Key i = k)"

text \<open>The operations as data, for statements about arbitrary sequences of calls.\<close>

datatype cache_op =
    OpSet gtime string string duration u64 bool
  | OpGet gtime gtime string
  | OpEvict gtime string
  | OpDelete string
  | OpPurge gtime

fun cache_step :: "cache_op \<Rightarrow> cache \<Rightarrow> cache" where
  "cache_step (OpSet now key value ttl ver rep) c = snd (cache_SetWithMetadata now key value ttl ver rep c)"
| "cache_step (OpGet t1 t2 key) c = snd (cache_Get t1 t2 key c)"
| "cache_step (OpEvict now key) c = cache_Get_evict now key c"
| "cache_step (OpDelete key) c = snd (cache_Delete key c)"
| "cache_step (OpPurge now) c = cache_purgeExpired now c"

fun cache_run :: "cache_op list \<Rightarrow> cache \<Rightarrow> cache" where
  "cache_run [] c = c"
| "cache_run (p # ps) c = cache_run ps (cache_step p c)"

text \<open>How many writes of a run create a key that is not in the store.\<close>

fun fresh_sets :: "cache_op list \<Rightarrow> cache \<Rightarrow> nat" where
  "fresh_sets [] c = 0"
| "fresh_sets (p # ps) c =
     (case p of OpSet _ key _ _ _ _ \<Rightarrow> (if map_of (c_items c) key = None then 1 else 0) | _ \<Rightarrow> 0)
     + fresh_sets ps (cache_step p c)"

fun is_get :: "cache_op \<Rightarrow> bool" where
  "is_get (OpGet _ _ _) = True"
| "is_get _ = False"

fun is_set :: "cache_op \<Rightarrow> bool" where
  "is_set (OpSet _ _ _ _ _ _) = True"
| "is_set _ = False"

section \<open>Reading after an operation\<close>

lemmas set_defs = cache_SetWithMetadata_def Let_def

lemma set_item:
  "fst (cache_SetWithMetadata now key value ttl ver rep c) =
     \<lparr>it_Key = key, it_Value = value, it_CreatedAt = now, it_ExpiresAt = (if 0 < ttl then now + ttl else 0),
      it_Version = (if ver = 0 then (case map_of (c_items c) key of None \<Rightarrow> 1 | Some e \<Rightarrow> it_Version e + 1) else ver),
      it_IsReplica = rep\<rparr>"
  by (simp add: set_defs)

lemma set_state:
  "snd (cache_SetWithMetadata now key value ttl ver rep c) =
     c\<lparr>c_items := gm_put key (fst (cache_SetWithMetadata now key value ttl ver rep c)) (c_items c),
       c_setCount := c_setCount c + 1\<rparr>"
  by (simp add: set_defs)

lemma evict_items:
  "c_items (cache_Get_evict now key c) =
     (case map_of (c_items c) key of
        Some i \<Rightarrow> (if item_IsExpired now i then gm_del key (c_items c) else c_items c) | None \<Rightarrow> c_items c)"
  by (auto simp: cache_Get_evict_def split: option.splits)

lemma get_items:
  "c_items (snd (cache_Get t1 t2 key c)) =
     (case map_of (c_items c) key of
        Some i \<Rightarrow> (if item_IsExpired t1 i \<and> item_IsExpired t2 i then gm_del key (c_items c) else c_items c)
      | None \<Rightarrow> c_items c)"
  by (auto simp: cache_Get_def cache_Get_lookup_def evict_items Let_def split: option.splits)

lemma delete_items: "c_items (snd (cache_Delete key c)) = (if map_of (c_items c) key = None then c_items c else gm_del key (c_items c))"
  by (auto simp: cache_Delete_def split: option.splits)

lemma expired_mono: "item_IsExpired now i \<Longrightarrow> now \<le> t \<Longrightarrow> item_IsExpired t i"
  by (auto simp: item_IsExpired_def split: if_splits)

lemma view_Some_iff: "cache_view t c k = Some i \<longleftrightarrow> map_of (c_items c) k = Some i \<and> \<not> item_IsExpired t i"
  by (auto simp: cache_view_def split: option.splits)

lemma view_cong: "map_of (c_items c) k = map_of (c_items c') k \<Longrightarrow> cache_view t c k = cache_view t c' k"
  by (simp add: cache_view_def)

lemma view_evict: "now \<le> t \<Longrightarrow> cache_view t (cache_Get_evict now key c) k = cache_view t c k"
  by (auto simp: cache_view_def evict_items dest: expired_mono split: option.splits)

lemma view_get: "t1 \<le> t \<Longrightarrow> cache_view t (snd (cache_Get t1 t2 key c)) k = cache_view t c k"
  by (auto simp: cache_view_def get_items dest: expired_mono split: option.splits)

lemma view_delete: "cache_view t (snd (cache_Delete k' c)) k = (if k = k' then None else cache_view t c k)"
  by (auto simp: cache_view_def delete_items split: option.splits)

lemma get_result: "fst (cache_Get t1 t2 key c) = cache_view t1 c key"
  by (auto simp: cache_Get_def cache_Get_lookup_def cache_view_def Let_def split: option.splits)

section \<open>Purging\<close>

lemma purge_items_aux:
  "c_items (fold (purge_entry now) es c) =
     filter (\<lambda>p. fst p \<notin> fst ` {e \<in> set es. item_IsExpired now (snd e)}) (c_items c)"
proof (induction es arbitrary: c)
  case (Cons e es)
  have step: "c_items (purge_entry now e c) =
      (if item_IsExpired now (snd e) then filter (\<lambda>p. fst p \<noteq> fst e) (c_items c) else c_items c)"
    by (auto simp: purge_entry_def item_IsExpired_def AList.delete_eq case_prod_unfold intro: filter_cong)
  show ?case
    by (simp add: Cons.IH step) (auto intro!: filter_cong)
qed simp

lemma purge_items:
  assumes "gm_wf (c_items c)"
  shows "c_items (cache_purgeExpired now c) = filter (\<lambda>p. \<not> item_IsExpired now (snd p)) (c_items c)"
proof -
  have same: "p = e" if "p \<in> set (c_items c)" "e \<in> set (c_items c)" "fst p = fst e" for p e
    using that assms by (simp add: distinct_map inj_on_def)
  have "fst p \<in> fst ` {e \<in> set (c_items c). item_IsExpired now (snd e)} \<longleftrightarrow> item_IsExpired now (snd p)"
    if p: "p \<in> set (c_items c)" for p
    using p same [OF p] by blast
  then show ?thesis unfolding cache_purgeExpired_def purge_items_aux by (intro filter_cong) auto
qed

lemma purge_counters:
  "c_expiredCount (fold (purge_entry now) es c) =
     c_expiredCount c + of_nat (length (filter (\<lambda>e. item_IsExpired now (snd e)) es))"
  "c_deleteCount (fold (purge_entry now) es c) = c_deleteCount c"
  "c_hitCount (fold (purge_entry now) es c) = c_hitCount c"
  "c_missCount (fold (purge_entry now) es c) = c_missCount c"
  "c_setCount (fold (purge_entry now) es c) = c_setCount c"
  by (induction es arbitrary: c) (auto simp: purge_entry_def item_IsExpired_def)

lemma map_of_filter_key: "map_of (filter (\<lambda>p. P (snd p)) m) k = (case map_of m k of Some i \<Rightarrow> if P i then Some i else map_of (filter (\<lambda>p. P (snd p)) m) k | None \<Rightarrow> None)"
  by (induction m) (auto split: option.splits)

lemma map_of_filter_wf:
  assumes "gm_wf m"
  shows "map_of (filter (\<lambda>p. P (snd p)) m) k = (case map_of m k of Some i \<Rightarrow> if P i then Some i else None | None \<Rightarrow> None)"
  using assms
proof (induction m)
  case (Cons p m)
  then have "map_of m (fst p) = None" by (simp add: map_of_eq_None_iff)
  then have "map_of (filter (\<lambda>p. P (snd p)) m) (fst p) = None"
    using map_of_filter_key [of P m "fst p"] by simp
  with Cons show ?case by (auto split: option.splits)
qed simp

lemma lookup_purge:
  assumes "gm_wf (c_items c)"
  shows "map_of (c_items (cache_purgeExpired now c)) k = cache_view now c k"
  unfolding purge_items [OF assms] map_of_filter_wf [OF assms, where P = "\<lambda>i. \<not> item_IsExpired now i"] cache_view_def
  by (simp split: option.splits)

lemma view_purge: "gm_wf (c_items c) \<Longrightarrow> now \<le> t \<Longrightarrow> cache_view t (cache_purgeExpired now c) k = cache_view t c k"
  unfolding cache_view_def [of t "cache_purgeExpired now c"] lookup_purge
  by (auto simp: cache_view_def dest: expired_mono split: option.splits)

section \<open>Well-formedness\<close>

lemma wf_New: "cache_wf (cache_New now)"
  by (simp add: cache_wf_def cache_New_def)

lemma wf_del: "cache_wf c \<Longrightarrow> c_items c' = gm_del key (c_items c) \<Longrightarrow> cache_wf c'"
  by (auto simp: cache_wf_def split: if_splits)

lemma wf_same: "cache_wf c \<Longrightarrow> c_items c' = c_items c \<Longrightarrow> cache_wf c'"
  by (simp add: cache_wf_def)

lemma wf_step: "cache_wf c \<Longrightarrow> cache_wf (cache_step p c)"
proof (cases p)
  case (OpSet now key val ttl ver rep)
  moreover assume "cache_wf c"
  ultimately show ?thesis by (auto simp: cache_wf_def set_defs)
next
  case (OpGet t1 t2 key)
  moreover assume "cache_wf c"
  ultimately show ?thesis
    using get_items [of t1 t2 key c] by (auto intro: wf_del wf_same split: option.splits if_splits)
next
  case (OpEvict now key)
  moreover assume "cache_wf c"
  ultimately show ?thesis
    using evict_items [of now key c] by (auto intro: wf_del wf_same split: option.splits if_splits)
next
  case (OpDelete key)
  moreover assume "cache_wf c"
  ultimately show ?thesis
    using delete_items [of key c] by (auto intro: wf_del wf_same split: if_splits)
next
  case (OpPurge now)
  moreover assume wf: "cache_wf c"
  then have gm: "gm_wf (c_items c)" by (simp add: cache_wf_def)
  have "gm_wf (filter (\<lambda>p. \<not> item_IsExpired now (snd p)) (c_items c))"
    using gm by (rule distinct_map_filter)
  ultimately show ?thesis using wf
    by (simp add: cache_wf_def lookup_purge [OF gm] view_Some_iff del: map_of_eq_Some_iff)
      (simp add: purge_items [OF gm])
qed

lemma wf_run: "cache_wf c \<Longrightarrow> cache_wf (cache_run ps c)"
  by (induction ps c rule: cache_run.induct) (simp_all add: wf_step)


lemma cache_wf_gm: "cache_wf c \<Longrightarrow> gm_wf (c_items c)"
  unfolding cache_wf_def by blast

section \<open>The contract\<close>

lemma view_set:
  "cache_view t (snd (cache_SetWithMetadata now key val ttl ver rep c)) k =
     (let i = fst (cache_SetWithMetadata now key val ttl ver rep c)
      in if k = key then (if item_IsExpired t i then None else Some i) else cache_view t c k)"
  by (simp add: set_state cache_view_def Let_def)

interpretation cs: ttl_store cache_wf cache_view "\<lambda>t i. \<not> item_IsExpired t i" cache_put cw_key cache_made
  "\<lambda>k c. snd (cache_Delete k c)" cache_purgeExpired
proof
  fix s :: cache and now w k
  assume wf: "cache_wf s"
  show "cache_wf (cache_put now w s)"
    using wf_step [OF wf, of "OpSet now (cw_key w) (cw_value w) (cw_ttl w) (cw_version w) (cw_isReplica w)"]
    by (simp add: cache_put_def)
  show "cache_wf (snd (cache_Delete k s))" using wf_step [OF wf, of "OpDelete k"] by simp
  show "cache_wf (cache_purgeExpired now s)" using wf_step [OF wf, of "OpPurge now"] by simp
qed (auto simp: view_Some_iff cache_put_def cache_made_def view_set Let_def view_delete view_purge cache_wf_gm)

section \<open>Counters\<close>

lemma evict_counters [simp]:
  "c_hitCount (cache_Get_evict now key c) = c_hitCount c"
  "c_missCount (cache_Get_evict now key c) = c_missCount c"
  "c_setCount (cache_Get_evict now key c) = c_setCount c"
  "c_deleteCount (cache_Get_evict now key c) = c_deleteCount c"
  by (auto simp: cache_Get_evict_def split: option.splits)

lemma step_hit_miss:
  "c_hitCount (cache_step p c) + c_missCount (cache_step p c) =
     c_hitCount c + c_missCount c + (if is_get p then 1 else 0)"
  by (cases p) (auto simp: set_state cache_Get_def cache_Delete_def cache_purgeExpired_def purge_counters
    Let_def split: option.splits)

lemma step_set: "c_setCount (cache_step p c) = c_setCount c + (if is_set p then 1 else 0)"
  by (cases p) (auto simp: set_state cache_Get_def cache_Delete_def cache_purgeExpired_def purge_counters
    Let_def split: option.splits)

lemma run_hit_miss:
  "c_hitCount (cache_run ps c) + c_missCount (cache_run ps c) =
     c_hitCount c + c_missCount c + of_nat (length (filter is_get ps))"
  by (induction ps arbitrary: c) (simp_all add: step_hit_miss)

lemma run_set: "c_setCount (cache_run ps c) = c_setCount c + of_nat (length (filter is_set ps))"
  by (induction ps arbitrary: c) (simp_all add: step_set)

text \<open>Every key that entered the store is still there, was deleted, or expired.\<close>

definition keys_accounted :: "cache \<Rightarrow> u64" where
  "keys_accounted c = of_nat (length (c_items c)) + c_deleteCount c + c_expiredCount c"

lemma accounted_del:
  assumes "gm_wf m" "map_of m k \<noteq> None"
  shows "(of_nat (length (gm_del k m)) :: u64) + 1 = of_nat (length m)"
proof -
  from assms have k: "k \<in> set (gm_keys m)" by (auto simp: gm_keys_dom)
  then have "0 < length m" by (auto simp: gm_keys_def)
  with assms k have "length m = Suc (length (gm_del k m))" by (simp add: length_gm_del)
  then show ?thesis by simp
qed

lemma accounted_evict:
  assumes "gm_wf (c_items c)"
  shows "keys_accounted (cache_Get_evict now key c) = keys_accounted c"
  using accounted_del [OF assms, of key]
  by (auto simp: keys_accounted_def cache_Get_evict_def algebra_simps split: option.splits)

lemma accounted_step:
  assumes "cache_wf c"
  shows "keys_accounted (cache_step p c) =
    keys_accounted c + of_nat (case p of OpSet _ key _ _ _ _ \<Rightarrow> (if map_of (c_items c) key = None then 1 else 0) | _ \<Rightarrow> 0)"
proof (cases p)
  case (OpSet now key val ttl ver rep)
  then show ?thesis
    by (auto simp: keys_accounted_def set_state length_gm_put gm_keys_dom domIff)
next
  case (OpGet t1 t2 key)
  have "keys_accounted (snd (cache_Get t1 t2 key c)) = keys_accounted c"
    using accounted_evict [OF cache_wf_gm [OF assms], of t2 key]
    by (auto simp: keys_accounted_def cache_Get_def Let_def split: option.splits)
  with OpGet show ?thesis by simp
next
  case (OpEvict now key)
  with accounted_evict [OF cache_wf_gm [OF assms]] show ?thesis by simp
next
  case (OpDelete key)
  with accounted_del [OF cache_wf_gm [OF assms], of key] show ?thesis
    by (auto simp: keys_accounted_def cache_Delete_def algebra_simps split: option.splits)
next
  case (OpPurge now)
  let ?P = "\<lambda>e. item_IsExpired now (snd e)"
  have "length (filter (\<lambda>e. \<not> ?P e) (c_items c)) + length (filter ?P (c_items c)) = length (c_items c)"
    using sum_length_filter_compl [of ?P "c_items c"] by simp
  then have "(of_nat (length (filter (\<lambda>e. \<not> ?P e) (c_items c))) :: u64) + of_nat (length (filter ?P (c_items c)))
      = of_nat (length (c_items c))" by (metis of_nat_add)
  with OpPurge show ?thesis
    by (simp add: keys_accounted_def purge_items [OF cache_wf_gm [OF assms]])
      (simp add: cache_purgeExpired_def purge_counters algebra_simps)
qed

lemma accounted_run:
  "cache_wf c \<Longrightarrow> keys_accounted (cache_run ps c) = keys_accounted c + of_nat (fresh_sets ps c)"
  by (induction ps arbitrary: c) (simp_all add: wf_step accounted_step)

end
