(* ===== verification/Cache_Properties.thy ===== *)
theory Cache_Properties
  imports Cache_Store
begin

text \<open>
  What the in-memory store promises: a write is read back until it expires whatever other
  operations run in between, the counters account for every operation and every key, the
  listings describe the live entries, and what the version numbers do and do not give.
\<close>

section \<open>Definitions\<close>

text \<open>The key an operation may write or delete, and the latest clock reading it uses.\<close>

fun op_writes :: "string \<Rightarrow> cache_op \<Rightarrow> bool" where
  "op_writes k (OpSet _ key _ _ _ _) = (key = k)"
| "op_writes k (OpDelete key) = (key = k)"
| "op_writes k _ = False"

fun op_clock_le :: "gtime \<Rightarrow> cache_op \<Rightarrow> bool" where
  "op_clock_le t (OpGet t1 t2 key) = (t1 \<le> t \<and> t2 \<le> t)"
| "op_clock_le t (OpEvict now key) = (now \<le> t)"
| "op_clock_le t (OpPurge now) = (now \<le> t)"
| "op_clock_le t _ = True"

definition demo_item :: "string \<Rightarrow> string \<Rightarrow> gtime \<Rightarrow> gtime \<Rightarrow> u64 \<Rightarrow> bool \<Rightarrow> item" where
  "demo_item k v cr ex ver rep =
     \<lparr>it_Key = k, it_Value = v, it_CreatedAt = cr, it_ExpiresAt = ex, it_Version = ver, it_IsReplica = rep\<rparr>"

definition demo_cache :: cache where
  "demo_cache = (cache_New 0)\<lparr>c_items := [(''a'', demo_item ''a'' ''1'' 5 105 1 False), (''b'', demo_item ''b'' ''2'' 5 0 1 True)]\<rparr>"

lemmas demo_cache_simps = demo_cache_def demo_item_def cache_New_def

section \<open>Lemmas\<close>

lemma view_step_other:
  "cache_wf c \<Longrightarrow> \<not> op_writes k p \<Longrightarrow> op_clock_le t p \<Longrightarrow> cache_view t (cache_step p c) k = cache_view t c k"
  by (cases p) (auto simp: view_set Let_def view_get view_evict view_delete view_purge cache_wf_gm)

lemma view_run_other:
  "cache_wf c \<Longrightarrow> \<forall>p\<in>set ps. \<not> op_writes k p \<and> op_clock_le t p \<Longrightarrow> cache_view t (cache_run ps c) k = cache_view t c k"
  by (induction ps arbitrary: c) (auto simp: view_step_other wf_step)

lemma stats_fold:
  "fold (\<lambda>(k, item) (p, r). if it_IsReplica item then (p, r + 1) else (p + 1, r)) es (p0, r0) =
     (p0 + length (filter (\<lambda>e. \<not> it_IsReplica (snd e)) es), r0 + length (filter (\<lambda>e. it_IsReplica (snd e)) es))"
  by (induction es arbitrary: p0 r0) auto

lemma demo_cache_wf: "cache_wf demo_cache"
  by (auto simp: cache_wf_def demo_cache_simps split: if_splits)

section \<open>Reading\<close>

text \<open>C10. A read returns the last write of its key until the write expires: after
  \<open>SetWithMetadata\<close> stores an item, whatever writes and deletes of other keys, reads,
  delayed evictions of reads and clean-up rounds with clock readings up to \<open>t\<close> follow, in any
  order, \<open>Get\<close> at \<open>t\<close> returns exactly that item when \<open>ttl \<le> 0\<close> or \<open>t \<le> now + ttl\<close>, and nothing
  otherwise.\<close>

theorem cache_read_last_write:
  assumes wf: "cache_wf c" and now: "0 < now"
    and set: "cache_SetWithMetadata now key val ttl ver rep c = (item, c')"
    and ops: "\<forall>p\<in>set ps. \<not> op_writes key p \<and> op_clock_le t p"
  shows "fst (cache_Get t t2 key (cache_run ps c')) = (if ttl \<le> 0 \<or> t \<le> now + ttl then Some item else None)"
proof -
  have c': "c' = snd (cache_SetWithMetadata now key val ttl ver rep c)"
    and item: "item = fst (cache_SetWithMetadata now key val ttl ver rep c)" by (simp_all add: set)
  have "cache_wf c'" using wf_step [OF wf, of "OpSet now key val ttl ver rep"] by (simp add: c')
  from view_run_other [OF this ops] show ?thesis
    using now by (auto simp: get_result c' item view_set Let_def set_item item_IsExpired_def)
qed

theorem cache_read_last_write_witness:
  "fst (cache_Get 140 141 ''k'' (cache_run
      [OpSet 51 ''a'' ''w'' 10 0 False, OpEvict 120 ''k'', OpDelete ''b'', OpPurge 130, OpGet 135 136 ''a'']
      (snd (cache_Set 50 ''k'' ''v'' 100 demo_cache)))) = Some (demo_item ''k'' ''v'' 50 150 1 False)"
  using cache_read_last_write [OF demo_cache_wf, of 50 "''k''" "''v''" 100 0 False _ _
      "[OpSet 51 ''a'' ''w'' 10 0 False, OpEvict 120 ''k'', OpDelete ''b'', OpPurge 130, OpGet 135 136 ''a'']" 140 141,
      OF _ prod.collapse [symmetric]]
  by (simp add: cache_Set_def set_item) (simp add: demo_cache_simps)

text \<open>The clean-up round removes exactly the expired entries: a key is in the store
  afterwards exactly when it was live, with the same item, and the expired counter grows by
  the number of entries removed; no read from then on can tell the difference.\<close>

theorem cache_purge_exact:
  assumes "cache_wf c"
  shows "map_of (c_items (cache_purgeExpired now c)) k = cache_view now c k
    \<and> c_expiredCount (cache_purgeExpired now c) =
        c_expiredCount c + of_nat (length (c_items c) - length (c_items (cache_purgeExpired now c)))
    \<and> (now \<le> t \<longrightarrow> fst (cache_Get t t2 k (cache_purgeExpired now c)) = fst (cache_Get t t2 k c))"
proof (intro conjI impI)
  have wf: "gm_wf (c_items c)" using assms by (rule cache_wf_gm)
  show "map_of (c_items (cache_purgeExpired now c)) k = cache_view now c k" using wf by (rule lookup_purge)
  let ?P = "\<lambda>e. item_IsExpired now (snd e)"
  have "length (filter ?P (c_items c)) = length (c_items c) - length (filter (\<lambda>e. \<not> ?P e) (c_items c))"
    using sum_length_filter_compl [of ?P "c_items c"] by linarith
  then show "c_expiredCount (cache_purgeExpired now c) =
        c_expiredCount c + of_nat (length (c_items c) - length (c_items (cache_purgeExpired now c)))"
    unfolding purge_items [OF wf] by (simp add: cache_purgeExpired_def purge_counters)
  assume "now \<le> t"
  with wf show "fst (cache_Get t t2 k (cache_purgeExpired now c)) = fst (cache_Get t t2 k c)"
    by (simp add: get_result view_purge)
qed

theorem cache_purge_exact_witness:
  "map_of (c_items (cache_purgeExpired 200 demo_cache)) ''a'' = None
    \<and> map_of (c_items (cache_purgeExpired 200 demo_cache)) ''b'' = Some (demo_item ''b'' ''2'' 5 0 1 True)
    \<and> fst (cache_Get 300 300 ''b'' (cache_purgeExpired 200 demo_cache)) = Some (demo_item ''b'' ''2'' 5 0 1 True)"
  using cache_purge_exact [OF demo_cache_wf, of 200 "''a''" 300 300] cache_purge_exact [OF demo_cache_wf, of 200 "''b''" 300 300]
  by (simp add: get_result view_purge [OF cache_wf_gm [OF demo_cache_wf]])
    (simp add: demo_cache_simps cache_view_def item_IsExpired_def)

section \<open>Counters\<close>

text \<open>C40. Over any sequence of operations on a new store the telemetry adds up, modulo
  \<open>2^64\<close>: hits and misses together count the \<open>Get\<close>s, the set counter counts the writes, and
  the keys in the store plus those deleted plus those expired are the writes that created
  a key, so no removal is ever counted twice or missed, whichever of the passive and the
  active expiry comes first.\<close>

theorem cache_accounting:
  "let c = cache_run ps (cache_New now) in
     c_hitCount c + c_missCount c = of_nat (length (filter is_get ps))
   \<and> c_setCount c = of_nat (length (filter is_set ps))
   \<and> of_nat (length (c_items c)) + c_deleteCount c + c_expiredCount c = of_nat (fresh_sets ps (cache_New now))"
  using run_hit_miss [of ps "cache_New now"] run_set [of ps "cache_New now"]
    accounted_run [OF wf_New, of ps now]
  by (simp add: Let_def keys_accounted_def) (simp add: cache_New_def)

text \<open>\<open>Stats\<close> splits the keys into primaries and replicas: the two counts are those of the
  entries with the flag off and on, and they add up to the total.\<close>

lemma cache_stats_partition:
  "let s = cache_Stats now c in
     cs_TotalKeys s = cs_PrimaryKeys s + cs_ReplicaKeys s
   \<and> cs_TotalKeys s = length (c_items c)
   \<and> cs_ReplicaKeys s = length (filter (\<lambda>e. it_IsReplica (snd e)) (c_items c))"
  using sum_length_filter_compl [of "\<lambda>e. it_IsReplica (snd e)" "c_items c"]
  by (simp add: cache_Stats_def Let_def stats_fold [of _ 0 0, simplified])

section \<open>Listings and metadata\<close>

text \<open>\<open>Keys\<close> lists, whatever the iteration order of the map, each key at most once, and
  exactly the keys a \<open>Get\<close> at the same instant would find, less those whose expiry is that very
  instant: for these \<open>Get\<close> still answers and \<open>Keys\<close> does not list them.\<close>

theorem cache_keys_live:
  assumes "range_order (c_items c) ord"
  shows "distinct (cache_Keys now ord c)
    \<and> (k \<in> set (cache_Keys now ord c) \<longleftrightarrow>
        (\<exists>i. fst (cache_Get now t2 k c) = Some i \<and> (it_ExpiresAt i = 0 \<or> it_ExpiresAt i \<noteq> now)))"
  using assms range_order_key [OF assms, of k]
  by (auto simp: cache_Keys_def get_result view_Some_iff item_IsExpired_def range_order_def
      split: option.splits if_splits simp del: map_of_eq_Some_iff)

theorem cache_keys_live_witness:
  "cache_Keys 105 [''b'', ''a''] demo_cache = [''b'']
    \<and> fst (cache_Get 105 106 ''a'' demo_cache) = Some (demo_item ''a'' ''1'' 5 105 1 False)
    \<and> ''b'' \<in> set (cache_Keys 105 [''b'', ''a''] demo_cache)"
proof -
  have r: "range_order (c_items demo_cache) [''b'', ''a'']"
    by (auto simp: range_order_def gm_keys_def demo_cache_simps)
  have k: "cache_Keys 105 [''b'', ''a''] demo_cache = [''b'']" by (simp add: cache_Keys_def demo_cache_simps)
  have g: "fst (cache_Get 105 106 ''a'' demo_cache) = Some (demo_item ''a'' ''1'' 5 105 1 False)"
    by (simp add: get_result cache_view_def item_IsExpired_def demo_cache_simps)
  show ?thesis using cache_keys_live [OF r, of 105 "''b''" 106] k g by simp
qed

text \<open>\<open>TTLRemaining\<close> reports \<open>-1\<close> exactly for items that never expire; otherwise it is the
  number of whole seconds left (for lifetimes below \<open>2^23\<close> seconds, 97 days, where the
  \<^verbatim>\<open>float64\<close> conversion is exact), so it is never negative, never more than what is left, and
  \<open>0\<close> for an item that is live but has less than a second to go.\<close>

theorem cache_ttl_remaining:
  assumes "it_ExpiresAt i - now < 2 ^ 23 * second"
  shows "item_TTLRemaining now i =
    (if it_ExpiresAt i = 0 then - 1 else if it_ExpiresAt i \<le> now then 0 else (it_ExpiresAt i - now) div second)"
proof (cases "it_ExpiresAt i \<noteq> 0 \<and> now < it_ExpiresAt i")
  case True
  then have "time_sub (it_ExpiresAt i) now = it_ExpiresAt i - now" using assms by (simp add: time_sub_def)
  with True assms show ?thesis by (simp add: item_TTLRemaining_def Let_def seconds_truncate)
next
  case False
  then show ?thesis by (auto simp: item_TTLRemaining_def Let_def time_sub_def)
qed

theorem cache_ttl_remaining_witness:
  "item_TTLRemaining 0 (demo_item ''a'' ''1'' 0 (3 * second - 1) 1 False) = 2
    \<and> \<not> item_IsExpired 0 (demo_item ''a'' ''1'' 0 (second - 1) 1 False)
    \<and> item_TTLRemaining 0 (demo_item ''a'' ''1'' 0 (second - 1) 1 False) = 0"
  using cache_ttl_remaining [of "demo_item ''a'' ''1'' 0 (3 * second - 1) 1 False" 0]
    cache_ttl_remaining [of "demo_item ''a'' ''1'' 0 (second - 1) 1 False" 0]
  by (simp add: demo_item_def item_IsExpired_def)

text \<open>Primary writes number the versions of a key: with \<open>n\<close> calls of \<open>Set\<close> on a key that holds
  version \<open>v\<close> (or \<open>0\<close> when it is absent), the key ends at version \<open>v + n\<close> modulo \<open>2^64\<close>,
  and the stored value is that of the last call.\<close>

theorem cache_version_chain:
  assumes "ws \<noteq> []"
  shows "\<exists>i. map_of (c_items (fold (\<lambda>(now, val, ttl) c. snd (cache_Set now key val ttl c)) ws c)) key = Some i
    \<and> it_Value i = fst (snd (last ws)) \<and> it_IsReplica i = False
    \<and> it_Version i = (case map_of (c_items c) key of None \<Rightarrow> 0 | Some e \<Rightarrow> it_Version e) + of_nat (length ws)"
  using assms
proof (induction ws arbitrary: c)
  case (Cons w ws)
  obtain now val ttl where w: "w = (now, val, ttl)" by (cases w)
  let ?c = "snd (cache_Set now key val ttl c)"
  obtain i where i: "map_of (c_items ?c) key = Some i" "it_Value i = val" "it_IsReplica i = False"
    "it_Version i = (case map_of (c_items c) key of None \<Rightarrow> 0 | Some e \<Rightarrow> it_Version e) + 1"
    by (auto simp: cache_Set_def set_state set_item add.commute split: option.splits)
  show ?case
  proof (cases "ws = []")
    case True
    with i w show ?thesis by simp
  next
    case False
    from Cons.IH [OF False, of ?c] i w False show ?thesis by (simp add: algebra_simps)
  qed
qed simp

theorem cache_version_chain_witness:
  "\<exists>i. map_of (c_items (snd (cache_Set 8 ''a'' ''y'' 0 (snd (cache_Set 7 ''a'' ''x'' 0 demo_cache))))) ''a'' = Some i
    \<and> it_Value i = ''y'' \<and> it_Version i = 3"
  using cache_version_chain [of "[(7, ''x'', 0), (8, ''y'', 0)]" "''a''" demo_cache]
  by (auto simp: demo_cache_simps)

text \<open>The version numbers are not monotonic: a write that carries an explicit version
  replaces the stored item whatever version that has, and a key that was removed (by a
  delete, by a read after its expiry or by the clean-up) starts again at version 1.\<close>

theorem cache_version_regress:
  assumes "map_of (c_items c) key = Some old" "item_IsExpired t old" "t \<le> t'" "ver \<noteq> 0"
  shows "map_of (c_items (snd (cache_SetWithMetadata now key val ttl ver rep c))) key =
      Some (fst (cache_SetWithMetadata now key val ttl ver rep c))
    \<and> it_Version (fst (cache_SetWithMetadata now key val ttl ver rep c)) = ver
    \<and> it_Version (fst (cache_Set now key val ttl (snd (cache_Get t t' key c)))) = 1
    \<and> it_Version (fst (cache_Set now key val ttl (snd (cache_Delete key c)))) = 1"
  using assms expired_mono [OF assms(2,3)]
  by (simp add: cache_Set_def set_state set_item get_items delete_items)

theorem cache_version_regress_witness:
  "let c = demo_cache\<lparr>c_items := [(''a'', demo_item ''a'' ''1'' 5 105 9 False)]\<rparr> in
     it_Version (fst (cache_SetWithMetadata 200 ''a'' ''old'' 0 3 True c)) = 3
   \<and> it_Version (fst (cache_Set 200 ''a'' ''new'' 0 (snd (cache_Get 150 151 ''a'' c)))) = 1"
  using cache_version_regress [of "demo_cache\<lparr>c_items := [(''a'', demo_item ''a'' ''1'' 5 105 9 False)]\<rparr>" "''a''"
      "demo_item ''a'' ''1'' 5 105 9 False" 150 151 3 200 "''old''" 0 True]
    cache_version_regress [of "demo_cache\<lparr>c_items := [(''a'', demo_item ''a'' ''1'' 5 105 9 False)]\<rparr>" "''a''"
      "demo_item ''a'' ''1'' 5 105 9 False" 150 151 3 200 "''new''" 0 True]
  by (simp add: Let_def demo_item_def item_IsExpired_def)

end
