(* ===== verification/Failure_Detector.thy ===== *)
theory Failure_Detector
  imports SHC_Prelude
begin

text \<open>
  The contract of a timeout failure detector, seen from one monitored member: an event is
  a missed ping, an answered one, or does not concern the member. A missed ping judges the
  member by the time since it was last seen, an answered one renews that time. From the
  laws: the verdict after a silence, and that a member that answers often enough is never
  suspected.
\<close>

definition detected_state :: "duration \<Rightarrow> duration \<Rightarrow> gtime \<Rightarrow> gtime \<Rightarrow> string \<Rightarrow> string" where
  "detected_state suspect fail now seen old =
     (if fail \<le> time_sub now seen then ''FAILED'' else if suspect \<le> time_sub now seen then ''SUSPECTED'' else old)"

lemma detected_state_exact:
  assumes "0 < suspect" "suspect < 2 ^ 63" "0 < fail" "fail < 2 ^ 63"
  shows "detected_state suspect fail now seen old =
    (if fail \<le> now - seen then ''FAILED'' else if suspect \<le> now - seen then ''SUSPECTED'' else old)"
  using assms by (simp add: detected_state_def time_sub_ge_iff)

lemma detected_state_again:
  "now \<le> now' \<Longrightarrow>
   detected_state suspect fail now' seen (detected_state suspect fail now seen old) = detected_state suspect fail now' seen old"
  using time_sub_mono [of now now' seen] by (auto simp: detected_state_def)

text \<open>The times of the missed pings of a sequence of events, and that every one of them comes
  before the suspicion timeout has passed since the last answer.\<close>

definition misses :: "('e \<Rightarrow> gtime option) \<Rightarrow> 'e list \<Rightarrow> gtime list" where
  "misses missed es = List.map_filter missed es"

fun timely :: "('e \<Rightarrow> gtime option) \<Rightarrow> ('e \<Rightarrow> gtime option) \<Rightarrow> duration \<Rightarrow> gtime \<Rightarrow> 'e list \<Rightarrow> bool" where
  "timely missed answered limit t [] = True"
| "timely missed answered limit t (e # es) =
     (case missed e of
        Some now \<Rightarrow> time_sub now t < limit \<and> timely missed answered limit t es
      | None \<Rightarrow> timely missed answered limit (case answered e of Some now \<Rightarrow> now | None \<Rightarrow> t) es)"

lemma misses_snoc: "misses missed (es @ [e]) = misses missed es @ (case missed e of None \<Rightarrow> [] | Some t \<Rightarrow> [t])"
  by (simp add: misses_def map_filter_def split: option.splits)

lemma misses_simps [simp]:
  "misses missed [] = []"
  "misses missed (e # es) = (case missed e of None \<Rightarrow> [] | Some t \<Rightarrow> [t]) @ misses missed es"
  by (simp_all add: misses_def map_filter_simps split: option.splits)

locale failure_detector =
  fixes suspect :: duration and fail :: duration
    and status :: "'m \<Rightarrow> string"
    and seen :: "'m \<Rightarrow> gtime"
    and pinned :: "'m \<Rightarrow> bool"
    and missed :: "'e \<Rightarrow> gtime option"
    and answered :: "'e \<Rightarrow> gtime option"
    and override :: "'e \<Rightarrow> bool"
    and step :: "'e \<Rightarrow> 'm \<Rightarrow> 'm"
  assumes step_missed: "missed e = Some now \<Longrightarrow>
      status (step e m) = detected_state suspect fail now (seen m) (status m) \<and> seen (step e m) = seen m \<and> pinned (step e m) = pinned m"
    and step_answered: "answered e = Some now \<Longrightarrow> \<not> pinned m \<Longrightarrow>
      status (step e m) = ''ALIVE'' \<and> seen (step e m) = now \<and> \<not> pinned (step e m)"
    and step_quiet: "\<not> override e \<Longrightarrow> missed e = None \<Longrightarrow> answered e = None \<Longrightarrow>
      status (step e m) = status m \<and> seen (step e m) = seen m \<and> pinned (step e m) = pinned m"
begin

text \<open>Completeness: after a silence the verdict is the one of the last missed ping.\<close>

lemma silent_run:
  assumes "\<forall>e\<in>set es. answered e = None \<and> \<not> override e" "sorted (misses missed es)"
  shows "seen (fold step es m) = seen m \<and> status (fold step es m) =
    (if misses missed es = [] then status m else detected_state suspect fail (last (misses missed es)) (seen m) (status m))"
  using assms
proof (induction es rule: rev_induct)
  case (snoc e es)
  let ?m = "fold step es m" and ?ms = "misses missed es"
  have IH: "seen ?m = seen m" "status ?m =
      (if ?ms = [] then status m else detected_state suspect fail (last ?ms) (seen m) (status m))"
    using snoc by (auto simp: misses_snoc sorted_append)
  show ?case
  proof (cases "missed e")
    case None
    then show ?thesis using IH step_quiet [of e ?m] snoc.prems(1) by (simp add: misses_snoc)
  next
    case (Some t)
    have "?ms \<noteq> [] \<Longrightarrow> last ?ms \<le> t"
      using snoc.prems(2) Some by (auto simp: misses_snoc sorted_append)
    then show ?thesis
      using IH step_missed [OF Some, of ?m] Some by (auto simp: misses_snoc detected_state_again)
  qed
qed simp

text \<open>Accuracy: a member whose missed pings are timely stays alive.\<close>

lemma timely_alive:
  assumes "limit \<le> suspect" "limit \<le> fail"
  shows "timely missed answered limit (seen m) es \<Longrightarrow> \<forall>e\<in>set es. \<not> override e \<Longrightarrow> \<not> pinned m \<Longrightarrow>
     status m = ''ALIVE'' \<Longrightarrow> status (fold step es m) = ''ALIVE'' \<and> \<not> pinned (fold step es m)"
proof (induction es arbitrary: m)
  case (Cons e es)
  have "timely missed answered limit (seen (step e m)) es \<and> \<not> pinned (step e m) \<and> status (step e m) = ''ALIVE''"
    using Cons.prems assms step_missed [of e _ m] step_answered [of e _ m] step_quiet [of e m]
    by (auto simp: detected_state_def split: option.splits)
  with Cons.IH [of "step e m"] Cons.prems(2) show ?case by simp
qed simp

end

end
