(* ===== verification/Health_Monitor.thy ===== *)
theory Health_Monitor
  imports Go_Float Failure_Detector "HOL-Library.Multiset"
begin

text \<open>
  The failure detector of a node and of the gateway (\<^verbatim>\<open>backend/internal/health/monitor.go\<close>).

  \<^item> State: the record \<open>monitor\<close> (configuration, members, listeners, whether it was told to
    stop). Listeners are values of an arbitrary type; a goroutine that calls one is an
    element of the list of calls an operation returns.
  \<^item> Operations: one definition per method. What a ping meets outside the program (building the request,
    the HTTP exchange, decoding the body) is the record \<open>ping_env\<close>, an argument.
  \<^item> Every method runs under the mutex, so concurrent pings, manual overrides and joins are
    sequences of atomic operations: the inductive relation \<open>mon_steps\<close>.
\<close>

section \<open>Definitions\<close>

subsection \<open>Data\<close>

type_synonym node_state = string

abbreviation StateAlive :: node_state where
  "StateAlive \<equiv> ''ALIVE''"

abbreviation StateSuspected :: node_state where
  "StateSuspected \<equiv> ''SUSPECTED''"

abbreviation StateFailed :: node_state where
  "StateFailed \<equiv> ''FAILED''"

record member_info =
  mi_NodeID :: string
  mi_Addr :: string
  mi_State :: node_state
  mi_LatencyMs :: int
  mi_PrimaryKeys :: int
  mi_ReplicaKeys :: int
  mi_HitCount :: u64
  mi_ManualOverride :: bool
  mi_LastSeen :: gtime
  mi_MissedPings :: int
  mi_LastError :: string

record cluster_view =
  cv_SelfNodeID :: string
  cv_TotalNodes :: nat
  cv_AliveNodes :: nat
  cv_FailedNodes :: nat
  cv_Members :: "(string, member_info) gomap"
  cv_Timestamp :: gtime

record health_config =
  hcf_SelfNodeID :: string
  hcf_SelfAddr :: string
  hcf_Peers :: "(string, string) gomap"
  hcf_HeartbeatInterval :: duration
  hcf_SuspectTimeout :: duration
  hcf_FailTimeout :: duration

record 'l monitor =
  m_config :: health_config
  m_members :: "(string, member_info) gomap"
  m_stopped :: bool
  m_listeners :: "'l list"

type_synonym 'l calls = "('l \<times> string \<times> node_state \<times> node_state) list"

subsection \<open>Construction and membership\<close>

definition new_member :: "string \<Rightarrow> string \<Rightarrow> gtime \<Rightarrow> member_info" where
  "new_member nodeID addr now =
     \<lparr>mi_NodeID = nodeID, mi_Addr = addr, mi_State = StateAlive, mi_LatencyMs = 0, mi_PrimaryKeys = 0,
      mi_ReplicaKeys = 0, mi_HitCount = 0, mi_ManualOverride = False, mi_LastSeen = now, mi_MissedPings = 0,
      mi_LastError = []\<rparr>"

text \<open>\<open>clock id\<close> is the reading of the clock when member \<open>id\<close> is registered.\<close>

definition NewMonitor :: "(string \<Rightarrow> gtime) \<Rightarrow> health_config \<Rightarrow> 'l monitor" where
  "NewMonitor clock cfg =
     (let c1 = (if hcf_HeartbeatInterval cfg \<le> 0 then cfg\<lparr>hcf_HeartbeatInterval := 1 * second\<rparr> else cfg);
          c2 = (if hcf_SuspectTimeout c1 \<le> 0 then c1\<lparr>hcf_SuspectTimeout := 2 * second\<rparr> else c1);
          c3 = (if hcf_FailTimeout c2 \<le> 0 then c2\<lparr>hcf_FailTimeout := 4 * second\<rparr> else c2);
          self = hcf_SelfNodeID c3;
          m0 = [(self, new_member self (hcf_SelfAddr c3) (clock self))]
      in \<lparr>m_config = c3,
          m_members = fold (\<lambda>(nodeID, addr) m. if nodeID \<noteq> self then gm_put nodeID (new_member nodeID addr (clock nodeID)) m else m)
                        (hcf_Peers c3) m0,
          m_stopped = False, m_listeners = []\<rparr>)"

definition monitor_Stop :: "'l monitor \<Rightarrow> 'l monitor" where
  "monitor_Stop m = (if m_stopped m then m else m\<lparr>m_stopped := True\<rparr>)"

definition monitor_AddNode :: "gtime \<Rightarrow> string \<Rightarrow> string \<Rightarrow> 'l monitor \<Rightarrow> 'l monitor" where
  "monitor_AddNode now nodeID addr m =
     (case map_of (m_members m) nodeID of
        None \<Rightarrow> m\<lparr>m_members := gm_put nodeID (new_member nodeID addr now) (m_members m)\<rparr>
      | Some mem \<Rightarrow> m\<lparr>m_members := gm_put nodeID (mem\<lparr>mi_Addr := addr\<rparr>) (m_members m)\<rparr>)"

definition OnStateChange :: "'l \<Rightarrow> 'l monitor \<Rightarrow> 'l monitor" where
  "OnStateChange cb m = m\<lparr>m_listeners := m_listeners m @ [cb]\<rparr>"

definition GetClusterView :: "gtime \<Rightarrow> 'l monitor \<Rightarrow> cluster_view" where
  "GetClusterView now m =
     (let (copy, alive, failed) =
        fold (\<lambda>(nid, mem) (cp, a, f).
                (gm_put nid mem cp,
                 if mi_State mem = StateAlive then a + 1 else a,
                 if mi_State mem \<noteq> StateAlive \<and> mi_State mem = StateFailed then f + 1 else f))
          (m_members m) ([], 0, 0)
      in \<lparr>cv_SelfNodeID = hcf_SelfNodeID (m_config m), cv_TotalNodes = length (m_members m),
          cv_AliveNodes = alive, cv_FailedNodes = failed, cv_Members = copy, cv_Timestamp = now\<rparr>)"

text \<open>The two results of \<open>GetNodeState\<close>: the state, and whether the node is known.\<close>

definition GetNodeState :: "string \<Rightarrow> 'l monitor \<Rightarrow> node_state \<times> bool" where
  "GetNodeState nodeID m =
     (case map_of (m_members m) nodeID of None \<Rightarrow> ([], False) | Some mem \<Rightarrow> (mi_State mem, True))"

subsection \<open>State changes\<close>

definition notifyStateChange :: "'l monitor \<Rightarrow> string \<Rightarrow> node_state \<Rightarrow> node_state \<Rightarrow> 'l calls" where
  "notifyStateChange m nodeID old new = map (\<lambda>cb. (cb, nodeID, old, new)) (m_listeners m)"

definition SetNodeStateManual :: "gtime \<Rightarrow> string \<Rightarrow> node_state \<Rightarrow> 'l monitor \<Rightarrow> bool \<times> 'l calls \<times> 'l monitor" where
  "SetNodeStateManual now nodeID newState m =
     (case map_of (m_members m) nodeID of
        None \<Rightarrow> (False, [], m)
      | Some mem \<Rightarrow>
          let oldState = mi_State mem;
              mem1 = mem\<lparr>mi_State := newState\<rparr>;
              mem2 = (if newState = StateAlive
                      then mem1\<lparr>mi_ManualOverride := False, mi_LastSeen := now, mi_MissedPings := 0, mi_LastError := []\<rparr>
                      else if newState = StateFailed
                      then mem1\<lparr>mi_ManualOverride := True,
                                mi_LastError := ''Manually marked FAILED by user via dashboard''\<rparr>
                      else mem1)
          in (True, notifyStateChange m nodeID oldState newState, m\<lparr>m_members := gm_put nodeID mem2 (m_members m)\<rparr>))"

definition recordSuccess ::
  "gtime \<Rightarrow> string \<Rightarrow> int \<Rightarrow> int \<Rightarrow> int \<Rightarrow> u64 \<Rightarrow> 'l monitor \<Rightarrow> 'l calls \<times> 'l monitor" where
  "recordSuccess now nodeID latency pKeys rKeys hits m =
     (case map_of (m_members m) nodeID of
        None \<Rightarrow> ([], m)
      | Some mem \<Rightarrow>
          let mem1 = mem\<lparr>mi_LastSeen := now, mi_LatencyMs := latency, mi_PrimaryKeys := pKeys, mi_ReplicaKeys := rKeys,
                         mi_HitCount := hits, mi_MissedPings := 0, mi_LastError := []\<rparr>
          in if mi_ManualOverride mem1 \<and> mi_State mem1 = StateFailed
             then ([], m\<lparr>m_members := gm_put nodeID mem1 (m_members m)\<rparr>)
             else let oldState = mi_State mem1
                  in (if oldState \<noteq> StateAlive then notifyStateChange m nodeID oldState StateAlive else [],
                      m\<lparr>m_members := gm_put nodeID (mem1\<lparr>mi_State := StateAlive\<rparr>) (m_members m)\<rparr>))"

definition recordFailure :: "gtime \<Rightarrow> string \<Rightarrow> string \<Rightarrow> 'l monitor \<Rightarrow> 'l calls \<times> 'l monitor" where
  "recordFailure now nodeID errReason m =
     (case map_of (m_members m) nodeID of
        None \<Rightarrow> ([], m)
      | Some mem \<Rightarrow>
          let mem1 = mem\<lparr>mi_MissedPings := mi_MissedPings mem + 1, mi_LastError := errReason\<rparr>;
              elapsed = time_sub now (mi_LastSeen mem1);
              oldState = mi_State mem1;
              newState = (if hcf_FailTimeout (m_config m) \<le> elapsed then StateFailed
                          else if hcf_SuspectTimeout (m_config m) \<le> elapsed then StateSuspected
                          else oldState)
          in if newState \<noteq> oldState
             then (notifyStateChange m nodeID oldState newState,
                   m\<lparr>m_members := gm_put nodeID (mem1\<lparr>mi_State := newState\<rparr>) (m_members m)\<rparr>)
             else ([], m\<lparr>m_members := gm_put nodeID mem1 (m_members m)\<rparr>))"

subsection \<open>Pings\<close>

record health_body =
  hb_NodeID :: string
  hb_State :: string
  hb_PrimaryKeys :: int
  hb_ReplicaKeys :: int
  hb_HitCount :: u64

text \<open>What a ping meets: whether the request can be built, the reply, the decoder (its error
  is ignored, so it returns what it filled in), and the readings of the clock before and
  after the exchange and when the outcome is recorded.\<close>

record ping_env =
  pe_newRequest :: "string \<Rightarrow> string option"
  pe_do :: "string \<Rightarrow> string + int \<times> string"
  pe_decode :: "string \<Rightarrow> health_body"
  pe_start :: gtime
  pe_done :: gtime
  pe_now :: gtime

definition pingPeer :: "ping_env \<Rightarrow> member_info \<Rightarrow> 'l monitor \<Rightarrow> 'l calls \<times> 'l monitor" where
  "pingPeer env peer m =
     (let url = mi_Addr peer @ ''/internal/health''
      in case pe_newRequest env url of
           Some err \<Rightarrow> recordFailure (pe_now env) (mi_NodeID peer) err m
         | None \<Rightarrow>
             let l = dur_Milliseconds (time_sub (pe_done env) (pe_start env));
                 latency = (if l \<le> 0 then 1 else l)
             in case pe_do env url of
                  Inl err \<Rightarrow> recordFailure (pe_now env) (mi_NodeID peer) err m
                | Inr (status, body) \<Rightarrow>
                    if status \<noteq> 200
                    then recordFailure (pe_now env) (mi_NodeID peer) (''HTTP '' @ itoa status) m
                    else let h = pe_decode env body
                         in recordSuccess (pe_now env) (mi_NodeID peer) latency (hb_PrimaryKeys h) (hb_ReplicaKeys h)
                              (hb_HitCount h) m)"

text \<open>One heartbeat cycle: the peers are copied under the lock, then pinged by one goroutine each;
  \<open>ord\<close> is the order in which the goroutines record their outcomes.\<close>

definition peersToPing :: "'l monitor \<Rightarrow> member_info list" where
  "peersToPing m = map snd (filter (\<lambda>(nid, mem). nid \<noteq> hcf_SelfNodeID (m_config m)) (m_members m))"

fun ping_each :: "(string \<Rightarrow> ping_env) \<Rightarrow> member_info list \<Rightarrow> 'l monitor \<Rightarrow> 'l calls \<times> 'l monitor" where
  "ping_each env [] m = ([], m)"
| "ping_each env (p # ps) m =
     (let (cs, m1) = pingPeer (env (mi_NodeID p)) p m; (cs', m2) = ping_each env ps m1 in (cs @ cs', m2))"

definition pingAllPeers ::
  "(string \<Rightarrow> ping_env) \<Rightarrow> (member_info list \<Rightarrow> member_info list) \<Rightarrow> 'l monitor \<Rightarrow> 'l calls \<times> 'l monitor" where
  "pingAllPeers env ord m = ping_each env (ord (peersToPing m)) m"

text \<open>The heartbeat loop: an immediate cycle, then one per tick until the stop channel is
  received from.\<close>

datatype beat_event = BeatTick "string \<Rightarrow> ping_env" | BeatStop

fun beat_loop :: "(member_info list \<Rightarrow> member_info list) \<Rightarrow> beat_event list \<Rightarrow> 'l monitor \<Rightarrow> 'l calls \<times> 'l monitor" where
  "beat_loop ord [] m = ([], m)"
| "beat_loop ord (BeatStop # es) m = ([], m)"
| "beat_loop ord (BeatTick env # es) m =
     (let (cs, m1) = pingAllPeers env ord m; (cs', m2) = beat_loop ord es m1 in (cs @ cs', m2))"

definition heartbeatLoop ::
  "(member_info list \<Rightarrow> member_info list) \<Rightarrow> (string \<Rightarrow> ping_env) \<Rightarrow> beat_event list \<Rightarrow> 'l monitor \<Rightarrow> 'l calls \<times> 'l monitor" where
  "heartbeatLoop ord env0 es m =
     (let (cs, m1) = pingAllPeers env0 ord m; (cs', m2) = beat_loop ord es m1 in (cs @ cs', m2))"

subsection \<open>Sequences of atomic operations\<close>

datatype 'l mon_op =
    MSuccess gtime string int int int u64
  | MFailure gtime string string
  | MManual gtime string node_state
  | MAdd gtime string string
  | MListen 'l

fun mon_apply :: "'l mon_op \<Rightarrow> 'l monitor \<Rightarrow> 'l calls \<times> 'l monitor" where
  "mon_apply (MSuccess now nid lat pk rk hits) m = recordSuccess now nid lat pk rk hits m"
| "mon_apply (MFailure now nid err) m = recordFailure now nid err m"
| "mon_apply (MManual now nid st) m = snd (SetNodeStateManual now nid st m)"
| "mon_apply (MAdd now nid addr) m = ([], monitor_AddNode now nid addr m)"
| "mon_apply (MListen cb) m = ([], OnStateChange cb m)"

inductive mon_steps :: "'l monitor \<Rightarrow> 'l mon_op list \<Rightarrow> 'l calls \<Rightarrow> 'l monitor \<Rightarrow> bool" where
  steps_nil: "mon_steps m [] [] m"
| steps_snoc: "mon_steps m ps cs m1 \<Longrightarrow> mon_apply p m1 = (cs', m2) \<Longrightarrow> mon_steps m (ps @ [p]) (cs @ cs') m2"

fun op_target :: "'l mon_op \<Rightarrow> string option" where
  "op_target (MSuccess now nid lat pk rk hits) = Some nid"
| "op_target (MFailure now nid err) = Some nid"
| "op_target (MManual now nid st) = Some nid"
| "op_target (MAdd now nid addr) = None"
| "op_target (MListen cb) = None"


section \<open>One operation, seen from one member\<close>

declare map_of_eq_Some_iff [simp del]

text \<open>What an operation does to the entry of member \<open>nid\<close>.\<close>

fun mem_step :: "health_config \<Rightarrow> 'l mon_op \<Rightarrow> string \<Rightarrow> member_info \<Rightarrow> member_info" where
  "mem_step cfg (MSuccess now n lat pk rk hits) nid mem =
     (if n \<noteq> nid then mem
      else mem\<lparr>mi_State := (if mi_ManualOverride mem \<and> mi_State mem = StateFailed then StateFailed else StateAlive),
               mi_LatencyMs := lat, mi_PrimaryKeys := pk, mi_ReplicaKeys := rk, mi_HitCount := hits,
               mi_LastSeen := now, mi_MissedPings := 0, mi_LastError := []\<rparr>)"
| "mem_step cfg (MFailure now n err) nid mem =
     (if n \<noteq> nid then mem
      else mem\<lparr>mi_State := (if hcf_FailTimeout cfg \<le> time_sub now (mi_LastSeen mem) then StateFailed
                            else if hcf_SuspectTimeout cfg \<le> time_sub now (mi_LastSeen mem) then StateSuspected
                            else mi_State mem),
               mi_MissedPings := mi_MissedPings mem + 1, mi_LastError := err\<rparr>)"
| "mem_step cfg (MManual now n st) nid mem =
     (if n \<noteq> nid then mem
      else if st = StateAlive
      then mem\<lparr>mi_State := st, mi_ManualOverride := False, mi_LastSeen := now, mi_MissedPings := 0, mi_LastError := []\<rparr>
      else if st = StateFailed
      then mem\<lparr>mi_State := st, mi_ManualOverride := True, mi_LastError := ''Manually marked FAILED by user via dashboard''\<rparr>
      else mem\<lparr>mi_State := st\<rparr>)"
| "mem_step cfg (MAdd now n addr) nid mem = (if n \<noteq> nid then mem else mem\<lparr>mi_Addr := addr\<rparr>)"
| "mem_step cfg (MListen cb) nid mem = mem"

lemmas mon_defs = recordSuccess_def recordFailure_def SetNodeStateManual_def monitor_AddNode_def OnStateChange_def Let_def

lemma apply_member:
  assumes "map_of (m_members m) nid = Some mem"
  shows "map_of (m_members (snd (mon_apply p m))) nid = Some (mem_step (m_config m) p nid mem)"
  using assms by (cases p) (auto simp: mon_defs split: option.splits)

lemma apply_absent:
  assumes "map_of (m_members m) nid = None"
  shows "map_of (m_members (snd (mon_apply p m))) nid =
    (case p of MAdd now n addr \<Rightarrow> if n = nid then Some (new_member nid addr now) else None | _ \<Rightarrow> None)"
  using assms by (cases p) (auto simp: mon_defs split: option.splits)

lemma apply_config [simp]: "m_config (snd (mon_apply p m)) = m_config m"
  by (cases p) (auto simp: mon_defs split: option.splits)

lemma apply_listeners:
  "m_listeners (snd (mon_apply p m)) = m_listeners m @ (case p of MListen cb \<Rightarrow> [cb] | _ \<Rightarrow> [])"
  by (cases p) (auto simp: mon_defs split: option.splits)

lemma apply_gm_wf: "gm_wf (m_members m) \<Longrightarrow> gm_wf (m_members (snd (mon_apply p m)))"
  by (cases p) (auto simp: mon_defs split: option.splits)

lemma mem_step_NodeID [simp]: "mi_NodeID (mem_step cfg p nid mem) = mi_NodeID mem"
  by (cases p) auto

lemma mem_step_other:
  "op_target p \<noteq> Some nid \<Longrightarrow> mi_State (mem_step cfg p nid mem) = mi_State mem \<and>
     mi_LastSeen (mem_step cfg p nid mem) = mi_LastSeen mem \<and> mi_MissedPings (mem_step cfg p nid mem) = mi_MissedPings mem
     \<and> mi_ManualOverride (mem_step cfg p nid mem) = mi_ManualOverride mem"
  by (cases p) auto

lemma steps_config: "mon_steps m ps cs m' \<Longrightarrow> m_config m' = m_config m"
  by (induction rule: mon_steps.induct) (auto, metis apply_config snd_conv)

text \<open>The entry of a member after a sequence of operations.\<close>

lemma steps_member:
  assumes "mon_steps m ps cs m'" "map_of (m_members m) nid = Some mem"
  shows "map_of (m_members m') nid = Some (fold (\<lambda>p. mem_step (m_config m) p nid) ps mem)"
  using assms
proof (induction rule: mon_steps.induct)
  case (steps_snoc m ps cs m1 p cs' m2)
  then show ?case using apply_member [of m1 nid _ p] steps_config [OF steps_snoc(1)] by simp
qed simp

section \<open>Well-formedness\<close>

text \<open>No member twice, every member filed under its id, and self a member.\<close>

definition mon_wf :: "'l monitor \<Rightarrow> bool" where
  "mon_wf m \<longleftrightarrow> gm_wf (m_members m) \<and> (\<forall>k mem. map_of (m_members m) k = Some mem \<longrightarrow> mi_NodeID mem = k)
     \<and> map_of (m_members m) (hcf_SelfNodeID (m_config m)) \<noteq> None"

lemma mon_wfD:
  assumes "mon_wf m"
  shows "gm_wf (m_members m)" "map_of (m_members m) k = Some mem \<Longrightarrow> mi_NodeID mem = k"
    "\<exists>mem. map_of (m_members m) (hcf_SelfNodeID (m_config m)) = Some mem"
  using assms unfolding mon_wf_def by blast+

lemma new_members_lookup:
  fixes peers :: "(string, string) gomap"
  assumes "m = fold (\<lambda>(nodeID, addr) m. if nodeID \<noteq> self then gm_put nodeID (new_member nodeID addr (clock nodeID)) m else m) peers m0"
  shows "gm_wf m0 \<Longrightarrow> gm_wf m" "map_of m self = map_of m0 self"
    "(\<And>k mem. map_of m0 k = Some mem \<Longrightarrow> mi_NodeID mem = k \<and> mi_State mem = StateAlive) \<Longrightarrow>
      map_of m k = Some mem \<Longrightarrow> mi_NodeID mem = k \<and> mi_State mem = StateAlive"
proof -
  show "gm_wf m0 \<Longrightarrow> gm_wf m" "map_of m self = map_of m0 self"
    unfolding assms by (induction peers arbitrary: m0) (auto simp: case_prod_unfold)
  have step: "\<forall>k mem. map_of (if p1 \<noteq> self then gm_put p1 (new_member p1 a t) m0 else m0) k = Some mem \<longrightarrow> mi_NodeID mem = k \<and> mi_State mem = StateAlive"
    if "\<forall>k mem. map_of m0 k = Some mem \<longrightarrow> mi_NodeID mem = k \<and> mi_State mem = StateAlive" for p1 a t m0
    using that by (auto simp: new_member_def)
  have all: "\<forall>k mem. map_of (fold (\<lambda>(nodeID, addr) m. if nodeID \<noteq> self then gm_put nodeID (new_member nodeID addr (clock nodeID)) m else m) peers m0) k = Some mem \<longrightarrow> mi_NodeID mem = k \<and> mi_State mem = StateAlive"
    if "\<forall>k mem. map_of m0 k = Some mem \<longrightarrow> mi_NodeID mem = k \<and> mi_State mem = StateAlive" for m0
    using that
  proof (induction peers arbitrary: m0)
    case (Cons p peers)
    obtain a b where p: "p = (a, b)" by (cases p)
    show ?case using Cons.IH [OF step [OF Cons.prems, of a b "clock a"]] by (simp only: fold.simps o_def p case_prod_conv)
  qed simp
  show "(\<And>k mem. map_of m0 k = Some mem \<Longrightarrow> mi_NodeID mem = k \<and> mi_State mem = StateAlive) \<Longrightarrow>
      map_of m k = Some mem \<Longrightarrow> mi_NodeID mem = k \<and> mi_State mem = StateAlive"
    using all [of m0] unfolding assms by blast
qed

lemma NewMonitor_alive:
  "mon_wf (NewMonitor clock cfg :: 'l monitor) \<and> (\<forall>k mem. map_of (m_members (NewMonitor clock cfg :: 'l monitor)) k = Some mem \<longrightarrow> mi_State mem = StateAlive)"
proof -
  let ?m = "NewMonitor clock cfg :: 'l monitor" and ?s = "hcf_SelfNodeID cfg"
  have self: "hcf_SelfNodeID (m_config ?m) = ?s" by (simp add: NewMonitor_def Let_def)
  have eq: "m_members ?m = fold (\<lambda>(nodeID, addr) m. if nodeID \<noteq> ?s then gm_put nodeID (new_member nodeID addr (clock nodeID)) m else m)
      (hcf_Peers cfg) [(?s, new_member ?s (hcf_SelfAddr cfg) (clock ?s))]"
    by (simp add: NewMonitor_def Let_def)
  note * = new_members_lookup [OF eq]
  have "map_of (m_members ?m) k = Some mem \<Longrightarrow> mi_NodeID mem = k \<and> mi_State mem = StateAlive" for k mem
    by (rule *(3)) (auto simp: new_member_def split: if_splits)
  with *(1,2) self show ?thesis unfolding mon_wf_def by auto
qed

lemma apply_wf: "mon_wf m \<Longrightarrow> mon_wf (snd (mon_apply p m))"
proof -
  assume wf: "mon_wf m"
  have "mi_NodeID mem = k" if "map_of (m_members (snd (mon_apply p m))) k = Some mem" for k mem
  proof (cases "map_of (m_members m) k")
    case None
    with that apply_absent [OF None, of p] show ?thesis
      by (auto simp: new_member_def split: mon_op.splits if_splits)
  next
    case (Some mem0)
    with that apply_member [OF Some, of p] mon_wfD(2) [OF wf Some] show ?thesis by auto
  qed
  moreover obtain mem where "map_of (m_members m) (hcf_SelfNodeID (m_config m)) = Some mem"
    using mon_wfD(3) [OF wf] by blast
  ultimately show ?thesis
    using apply_gm_wf [OF mon_wfD(1) [OF wf], of p] apply_member [of m _ mem p] unfolding mon_wf_def by simp
qed

lemma steps_wf: "mon_steps m ps cs m' \<Longrightarrow> mon_wf m \<Longrightarrow> mon_wf m'"
  by (induction rule: mon_steps.induct) (auto, metis apply_wf snd_conv)


section \<open>Ping cycles as sequences of operations\<close>

text \<open>The operation a ping of \<open>peer\<close> ends in.\<close>

definition ping_op :: "ping_env \<Rightarrow> member_info \<Rightarrow> 'l mon_op" where
  "ping_op env peer =
     (let url = mi_Addr peer @ ''/internal/health'';
          l = dur_Milliseconds (time_sub (pe_done env) (pe_start env))
      in case pe_newRequest env url of
           Some err \<Rightarrow> MFailure (pe_now env) (mi_NodeID peer) err
         | None \<Rightarrow> (case pe_do env url of
             Inl err \<Rightarrow> MFailure (pe_now env) (mi_NodeID peer) err
           | Inr (status, body) \<Rightarrow>
               if status \<noteq> 200 then MFailure (pe_now env) (mi_NodeID peer) (''HTTP '' @ itoa status)
               else MSuccess (pe_now env) (mi_NodeID peer) (if l \<le> 0 then 1 else l)
                      (hb_PrimaryKeys (pe_decode env body)) (hb_ReplicaKeys (pe_decode env body)) (hb_HitCount (pe_decode env body))))"

lemma pingPeer_op: "pingPeer env peer m = mon_apply (ping_op env peer) m"
  by (auto simp: pingPeer_def ping_op_def Let_def split: option.splits sum.splits)

lemma ping_op_target [simp]: "op_target (ping_op env peer) = Some (mi_NodeID peer)"
  by (auto simp: ping_op_def Let_def split: option.splits sum.splits)

lemma steps_append:
  "mon_steps m1 qs ds m2 \<Longrightarrow> mon_steps m ps cs m1 \<Longrightarrow> mon_steps m (ps @ qs) (cs @ ds) m2"
proof (induction rule: mon_steps.induct)
  case (steps_snoc m1 qs ds m2 p ds' m3)
  then show ?case
    using mon_steps.steps_snoc [of m "ps @ qs" "cs @ ds" m2 p ds' m3] by simp
qed simp

lemma step_one: "mon_apply p m = (cs, m') \<Longrightarrow> mon_steps m [p] cs m'"
  using mon_steps.steps_snoc [OF steps_nil, of p m cs m'] by simp

lemma ping_each_steps:
  "ping_each env ps m = (cs, m') \<Longrightarrow> mon_steps m (map (\<lambda>p. ping_op (env (mi_NodeID p)) p) ps) cs m'"
proof (induction ps arbitrary: m cs m')
  case Nil
  then show ?case by (simp add: steps_nil)
next
  case (Cons p ps)
  obtain c1 m1 where 1: "mon_apply (ping_op (env (mi_NodeID p)) p) m = (c1, m1)" by fastforce
  obtain c2 m2 where 2: "ping_each env ps m1 = (c2, m2)" by fastforce
  from Cons.prems 1 2 have "cs = c1 @ c2" "m' = m2" by (auto simp: pingPeer_op)
  with steps_append [OF Cons.IH [OF 2] step_one [OF 1]] show ?case by simp
qed

lemma peersToPing_member:
  assumes "mon_wf m"
  shows "p \<in> set (peersToPing m) \<longleftrightarrow>
    map_of (m_members m) (mi_NodeID p) = Some p \<and> mi_NodeID p \<noteq> hcf_SelfNodeID (m_config m)"
proof -
  have "(k, p) \<in> set (m_members m) \<longleftrightarrow> map_of (m_members m) k = Some p" for k
    using mon_wfD(1) [OF assms] by (simp add: map_of_eq_Some_iff)
  then show ?thesis
    using mon_wfD(2) [OF assms] by (auto simp: peersToPing_def image_iff simp del: map_of_eq_Some_iff)
qed

text \<open>Operations on other members do not matter; among distinct peers only one pings \<open>nid\<close>.\<close>

lemma fold_mem_step_other:
  "\<forall>p\<in>set ps. op_target p \<noteq> Some nid \<and> (\<forall>now addr. p \<noteq> MAdd now nid addr) \<Longrightarrow>
     fold (\<lambda>p. mem_step cfg p nid) ps mem = mem"
proof (induction ps)
  case (Cons p ps)
  then have "mem_step cfg p nid mem = mem" by (cases p) auto
  with Cons show ?case by simp
qed simp

lemma ping_op_not_add: "ping_op env p \<noteq> MAdd now nid addr"
  by (auto simp: ping_op_def Let_def split: option.splits sum.splits)

lemma fold_pings_one:
  assumes "distinct (map mi_NodeID ps)" "peer \<in> set ps"
  shows "fold (\<lambda>p. mem_step cfg p (mi_NodeID peer)) (map (\<lambda>p. ping_op (env (mi_NodeID p)) p :: 'l mon_op) ps) mem =
    mem_step cfg (ping_op (env (mi_NodeID peer)) peer :: 'l mon_op) (mi_NodeID peer) mem"
proof -
  obtain xs ys where ps: "ps = xs @ peer # ys" using assms(2) by (meson split_list)
  have *: "fold (\<lambda>p. mem_step cfg p (mi_NodeID peer)) (map (\<lambda>p. ping_op (env (mi_NodeID p)) p :: 'l mon_op) zs) mem = mem"
    if "\<forall>p\<in>set zs. mi_NodeID p \<noteq> mi_NodeID peer" for zs mem
    using that by (intro fold_mem_step_other) (auto simp: ping_op_not_add)
  have x: "\<forall>p\<in>set xs. mi_NodeID p \<noteq> mi_NodeID peer" and y: "\<forall>p\<in>set ys. mi_NodeID p \<noteq> mi_NodeID peer"
    using assms(1) ps by (auto simp: image_iff)
  show ?thesis unfolding ps using *[OF x] *[OF y] by simp
qed

lemma distinct_peers: "mon_wf m \<Longrightarrow> distinct (map mi_NodeID (peersToPing m))"
proof -
  assume wf: "mon_wf m"
  have "map mi_NodeID (peersToPing m) = map fst (filter (\<lambda>(nid, mem). nid \<noteq> hcf_SelfNodeID (m_config m)) (m_members m))"
    using mon_wfD(2) [OF wf] mon_wfD(1) [OF wf] by (auto simp: peersToPing_def map_of_eq_Some_iff)
  with mon_wfD(1) [OF wf] show ?thesis by (simp add: distinct_map_filter)
qed

text \<open>A ping order schedules every peer exactly once.\<close>

definition ping_order :: "(member_info list \<Rightarrow> member_info list) \<Rightarrow> bool" where
  "ping_order ord \<longleftrightarrow> (\<forall>ps. mset (ord ps) = mset ps)"

lemma pingAllPeers_member:
  fixes m :: "'l monitor"
  assumes wf: "mon_wf m" and ord: "ping_order ord" and cyc: "pingAllPeers env ord m = (cs, m')"
    and mem: "map_of (m_members m) nid = Some mem"
  shows "map_of (m_members m') nid =
    Some (if nid = hcf_SelfNodeID (m_config m) then mem
          else mem_step (m_config m) (ping_op (env nid) mem :: 'l mon_op) nid mem)"
proof -
  let ?ps = "ord (peersToPing m)"
  have set: "set ?ps = set (peersToPing m)" and dist: "distinct (map mi_NodeID ?ps)"
    using ord distinct_peers [OF wf] unfolding ping_order_def
    by (metis set_mset_mset, metis mset_map mset_eq_imp_distinct_iff)
  have steps: "map_of (m_members m') nid =
      Some (fold (\<lambda>p. mem_step (m_config m) p nid) (map (\<lambda>p. ping_op (env (mi_NodeID p)) p :: 'l mon_op) ?ps) mem)"
    using steps_member [OF ping_each_steps mem] cyc unfolding pingAllPeers_def by blast
  show ?thesis
  proof (cases "nid = hcf_SelfNodeID (m_config m)")
    case True
    have "\<forall>p\<in>set ?ps. mi_NodeID p \<noteq> nid" using True set peersToPing_member [OF wf] by blast
    with steps True show ?thesis
      using fold_mem_step_other [of "map (\<lambda>p. ping_op (env (mi_NodeID p)) p :: 'l mon_op) ?ps" nid "m_config m" mem]
      by (simp add: ping_op_not_add)
  next
    case False
    have id: "mi_NodeID mem = nid" using mon_wfD(2) [OF wf mem] .
    with False mem set have "mem \<in> set ?ps" using peersToPing_member [OF wf, of mem] by simp
    with steps False show ?thesis using fold_pings_one [OF dist, of mem "m_config m" env mem] id by simp
  qed
qed


section \<open>The failure-detector contract\<close>

fun op_missed :: "string \<Rightarrow> 'l mon_op \<Rightarrow> gtime option" where
  "op_missed nid (MFailure now n err) = (if n = nid then Some now else None)"
| "op_missed nid _ = None"

fun op_answered :: "string \<Rightarrow> 'l mon_op \<Rightarrow> gtime option" where
  "op_answered nid (MSuccess now n lat pk rk hits) = (if n = nid then Some now else None)"
| "op_answered nid _ = None"

fun op_override :: "string \<Rightarrow> 'l mon_op \<Rightarrow> bool" where
  "op_override nid (MManual now n st) = (n = nid)"
| "op_override nid _ = False"

lemma op_missed_Some: "op_missed nid p = Some now \<longleftrightarrow> (\<exists>err. p = MFailure now nid err)"
  by (cases p) auto

lemma op_answered_Some: "op_answered nid p = Some now \<longleftrightarrow> (\<exists>lat pk rk hits. p = MSuccess now nid lat pk rk hits)"
  by (cases p) auto

lemma op_quiet:
  "op_missed nid p = None \<Longrightarrow> op_answered nid p = None \<Longrightarrow> \<not> op_override nid p \<Longrightarrow> op_target p \<noteq> Some nid"
  by (cases p) (auto split: if_splits)

interpretation fd: failure_detector "hcf_SuspectTimeout cfg" "hcf_FailTimeout cfg" mi_State mi_LastSeen mi_ManualOverride
  "op_missed nid" "op_answered nid" "op_override nid" "\<lambda>p. mem_step cfg p nid"
  for cfg :: health_config and nid :: string
proof
  show "mi_State (mem_step cfg e nid m) = detected_state (hcf_SuspectTimeout cfg) (hcf_FailTimeout cfg) now (mi_LastSeen m) (mi_State m)
      \<and> mi_LastSeen (mem_step cfg e nid m) = mi_LastSeen m \<and> mi_ManualOverride (mem_step cfg e nid m) = mi_ManualOverride m"
    if "op_missed nid e = Some now" for e :: "'a mon_op" and now m
    using that by (auto simp: op_missed_Some detected_state_def)
  show "mi_State (mem_step cfg e nid m) = ''ALIVE'' \<and> mi_LastSeen (mem_step cfg e nid m) = now
      \<and> \<not> mi_ManualOverride (mem_step cfg e nid m)"
    if "op_answered nid e = Some now" "\<not> mi_ManualOverride m" for e :: "'a mon_op" and now m
    using that by (auto simp: op_answered_Some)
  show "mi_State (mem_step cfg e nid m) = mi_State m \<and> mi_LastSeen (mem_step cfg e nid m) = mi_LastSeen m
      \<and> mi_ManualOverride (mem_step cfg e nid m) = mi_ManualOverride m"
    if "\<not> op_override nid e" "op_missed nid e = None" "op_answered nid e = None" for e :: "'a mon_op" and m
    using that op_quiet [of nid e] mem_step_other [of e nid cfg m] by simp
qed

section \<open>Calls to the listeners\<close>

text \<open>The state changes listener \<open>l\<close> is told about member \<open>nid\<close>, and that they link up from one
  state to another.\<close>

definition calls_for :: "'l \<Rightarrow> string \<Rightarrow> 'l calls \<Rightarrow> (node_state \<times> node_state) list" where
  "calls_for l nid cs = map (\<lambda>(_, _, old, new). (old, new)) (filter (\<lambda>(l', n, _, _). l' = l \<and> n = nid) cs)"

fun call_chain :: "node_state \<Rightarrow> (node_state \<times> node_state) list \<Rightarrow> node_state \<Rightarrow> bool" where
  "call_chain s [] s' = (s = s')"
| "call_chain s ((a, b) # cs) s' = (s = a \<and> call_chain b cs s')"

lemma call_chain_append: "call_chain s cs s1 \<Longrightarrow> call_chain s1 ds s2 \<Longrightarrow> call_chain s (cs @ ds) s2"
  by (induction s cs s1 rule: call_chain.induct) auto

lemma calls_for_append [simp]: "calls_for l nid (cs @ ds) = calls_for l nid cs @ calls_for l nid ds"
  by (simp add: calls_for_def)

lemma filter_single: "distinct xs \<Longrightarrow> x \<in> set xs \<Longrightarrow> filter (\<lambda>y. y = x) xs = [x]"
  by (induction xs) (auto simp: filter_empty_conv)

lemma calls_for_notify:
  assumes "distinct (m_listeners m)" "l \<in> set (m_listeners m)"
  shows "calls_for l nid (notifyStateChange m n old new) = (if n = nid then [(old, new)] else [])"
proof -
  have "filter (\<lambda>x. x = l) (m_listeners m) = [l]"
    using assms by (rule filter_single)
  then show ?thesis by (simp add: calls_for_def notifyStateChange_def filter_map o_def)
qed

lemma apply_calls:
  assumes "distinct (m_listeners m)" "l \<in> set (m_listeners m)" "map_of (m_members m) nid = Some mem"
  shows "call_chain (mi_State mem) (calls_for l nid (fst (mon_apply p m))) (mi_State (mem_step (m_config m) p nid mem))"
proof -
  have nil: "calls_for l nid [] = []" by (simp add: calls_for_def)
  show ?thesis using assms(3)
    by (cases p) (auto simp: mon_defs calls_for_notify [OF assms(1,2)] nil split: option.splits)
qed


section \<open>Cycles keep the invariant\<close>

lemma pingAllPeers_steps:
  "pingAllPeers env ord m = (cs, m') \<Longrightarrow>
     mon_steps m (map (\<lambda>p. ping_op (env (mi_NodeID p)) p) (ord (peersToPing m))) cs m'"
  unfolding pingAllPeers_def by (rule ping_each_steps)

lemma pingAllPeers_wf:
  assumes "mon_wf m"
  shows "mon_wf (snd (pingAllPeers env ord m))" "m_config (snd (pingAllPeers env ord m)) = m_config m"
  using steps_wf [OF pingAllPeers_steps [OF prod.collapse [symmetric]] assms]
    steps_config [OF pingAllPeers_steps [OF prod.collapse [symmetric]]] by blast+

lemma cycle_self:
  assumes "mon_wf m" "ping_order ord"
  shows "map_of (m_members (snd (pingAllPeers env ord m))) (hcf_SelfNodeID (m_config m)) =
    map_of (m_members m) (hcf_SelfNodeID (m_config m))"
proof -
  obtain mem where "map_of (m_members m) (hcf_SelfNodeID (m_config m)) = Some mem"
    using mon_wfD(3) [OF assms(1)] by blast
  with pingAllPeers_member [OF assms prod.collapse [symmetric] this] show ?thesis by simp
qed

lemma beat_loop_self:
  assumes "ping_order ord"
  shows "mon_wf m \<Longrightarrow>
     map_of (m_members (snd (beat_loop ord es m))) (hcf_SelfNodeID (m_config m)) =
       map_of (m_members m) (hcf_SelfNodeID (m_config m))"
proof (induction es arbitrary: m)
  case (Cons e es)
  show ?case
  proof (cases e)
    case (BeatTick env)
    show ?thesis
      using Cons.IH [OF pingAllPeers_wf(1) [OF Cons.prems]] pingAllPeers_wf(2) [OF Cons.prems] BeatTick
        cycle_self [OF Cons.prems assms] by (simp add: case_prod_unfold Let_def)
  qed simp
qed simp

section \<open>Counting members\<close>

lemma view_fold:
  "fold (\<lambda>(nid, mem) (cp, a, f). (gm_put nid mem cp, if mi_State mem = StateAlive then a + 1 else a,
       if mi_State mem \<noteq> StateAlive \<and> mi_State mem = StateFailed then f + 1 else f)) es (cp, a, f) =
     (fold (\<lambda>(nid, mem). gm_put nid mem) es cp,
      a + length (filter (\<lambda>e. mi_State (snd e) = StateAlive) es),
      f + length (filter (\<lambda>e. mi_State (snd e) = StateFailed) es))"
  by (induction es arbitrary: cp a f) auto

lemma copy_lookup:
  "gm_wf es \<Longrightarrow> map_of (fold (\<lambda>(nid, mem). gm_put nid mem) es cp) k = (case map_of es k of Some v \<Rightarrow> Some v | None \<Rightarrow> map_of cp k)"
proof (induction es arbitrary: cp)
  case (Cons e es)
  then have "map_of es (fst e) = None" by (auto simp: map_of_eq_None_iff)
  with Cons show ?case by (auto simp: case_prod_unfold split: option.splits)
qed simp

end
