(* ===== verification/Health_Properties.thy ===== *)
theory Health_Properties
  imports Health_Monitor
begin

text \<open>
  What the health monitor promises to the routers: a silent member is suspected and then
  failed on time, a member that answers in time never is, a heartbeat cycle judges every peer
  by its own reply whatever the order of the concurrent pings, the monitoring node never
  doubts itself, and the listeners hear of every change. It also shows how a manual override
  is lost.
\<close>

section \<open>Definitions\<close>

definition ping_ok :: "ping_env \<Rightarrow> member_info \<Rightarrow> bool" where
  "ping_ok env peer \<longleftrightarrow> (let url = mi_Addr peer @ ''/internal/health'' in
     pe_newRequest env url = None \<and> (case pe_do env url of Inl _ \<Rightarrow> False | Inr (status, _) \<Rightarrow> status = 200))"

definition demo_health_cfg :: health_config where
  "demo_health_cfg = \<lparr>hcf_SelfNodeID = ''n1'', hcf_SelfAddr = ''http://a1'', hcf_Peers = [(''n2'', ''http://a2'')],
     hcf_HeartbeatInterval = 0, hcf_SuspectTimeout = 0, hcf_FailTimeout = 0\<rparr>"

definition demo_monitor :: "string monitor" where
  "demo_monitor = NewMonitor (\<lambda>_. 0) demo_health_cfg"

definition demo_env :: "int \<Rightarrow> gtime \<Rightarrow> ping_env" where
  "demo_env status now = \<lparr>pe_newRequest = (\<lambda>_. None), pe_do = (\<lambda>_. Inr (status, [])),
     pe_decode = (\<lambda>_. \<lparr>hb_NodeID = [], hb_State = [], hb_PrimaryKeys = 4, hb_ReplicaKeys = 2, hb_HitCount = 7\<rparr>),
     pe_start = now, pe_done = now, pe_now = now\<rparr>"

section \<open>Lemmas\<close>

declare map_of_eq_Some_iff [simp del]

lemma demo_monitor_eq:
  "demo_monitor = \<lparr>m_config = demo_health_cfg\<lparr>hcf_HeartbeatInterval := second, hcf_SuspectTimeout := 2 * second, hcf_FailTimeout := 4 * second\<rparr>,
     m_members = [(''n1'', new_member ''n1'' ''http://a1'' 0), (''n2'', new_member ''n2'' ''http://a2'' 0)],
     m_stopped = False, m_listeners = []\<rparr>"
  by (simp add: demo_monitor_def NewMonitor_def demo_health_cfg_def Let_def)

lemma demo_monitor_wf: "mon_wf demo_monitor"
  unfolding demo_monitor_def using NewMonitor_alive by blast

lemma GetNodeState_Some: "map_of (m_members m) nid = Some mem \<Longrightarrow> GetNodeState nid m = (mi_State mem, True)"
  by (simp add: GetNodeState_def)

lemma mem_step_ping:
  "mi_NodeID mem = nid \<Longrightarrow> mi_State (mem_step cfg (ping_op env mem :: 'l mon_op) nid mem) =
     (if ping_ok env mem then (if mi_ManualOverride mem \<and> mi_State mem = StateFailed then StateFailed else StateAlive)
      else detected_state (hcf_SuspectTimeout cfg) (hcf_FailTimeout cfg) (pe_now env) (mi_LastSeen mem) (mi_State mem))
   \<and> mi_MissedPings (mem_step cfg (ping_op env mem :: 'l mon_op) nid mem) = (if ping_ok env mem then 0 else mi_MissedPings mem + 1)
   \<and> mi_LastSeen (mem_step cfg (ping_op env mem :: 'l mon_op) nid mem) = (if ping_ok env mem then pe_now env else mi_LastSeen mem)"
  by (auto simp: ping_op_def ping_ok_def detected_state_def Let_def split: option.splits sum.splits)

lemma steps_listeners:
  "mon_steps m ps cs m' \<Longrightarrow> \<forall>p\<in>set ps. \<forall>cb. p \<noteq> MListen cb \<Longrightarrow> m_listeners m' = m_listeners m"
proof (induction rule: mon_steps.induct)
  case (steps_snoc m ps cs m1 p cs' m2)
  then show ?case using apply_listeners [of p m1] by (cases p) auto
qed simp

lemma steps_calls:
  assumes "mon_steps m ps cs m'" "distinct (m_listeners m)" "l \<in> set (m_listeners m)"
    "\<forall>p\<in>set ps. \<forall>cb. p \<noteq> MListen cb" "map_of (m_members m) nid = Some mem"
  shows "\<exists>mem'. map_of (m_members m') nid = Some mem' \<and> call_chain (mi_State mem) (calls_for l nid cs) (mi_State mem')"
  using assms
proof (induction rule: mon_steps.induct)
  case (steps_nil m)
  then show ?case by (auto simp: calls_for_def)
next
  case (steps_snoc m ps cs m1 p cs' m2)
  have ls: "m_listeners m1 = m_listeners m" using steps_snoc.prems(3) by (intro steps_listeners [OF steps_snoc(1)]) auto
  obtain mem1 where m1: "map_of (m_members m1) nid = Some mem1"
    and ch: "call_chain (mi_State mem) (calls_for l nid cs) (mi_State mem1)"
    using steps_snoc by auto
  have "map_of (m_members m2) nid = Some (mem_step (m_config m1) p nid mem1)"
    using apply_member [OF m1, of p] steps_snoc(2) by simp
  moreover have "call_chain (mi_State mem1) (calls_for l nid cs') (mi_State (mem_step (m_config m1) p nid mem1))"
    using apply_calls [of m1 l nid mem1 p] ls steps_snoc.prems(1,2) m1 steps_snoc(2) by simp
  ultimately show ?case using call_chain_append [OF ch] by simp
qed

section \<open>Detection\<close>

text \<open>A single miss decides: a member that was \<open>ALIVE\<close> is \<open>FAILED\<close> at once, and its listeners are told so, when its first missed ping comes
  \<open>FailTimeout\<close> or more after its last answer. It need not have been \<open>SUSPECTED\<close> before.\<close>

lemma late_miss_fails_at_once:
  assumes "map_of (m_members m) nid = Some mem" "mi_State mem = StateAlive" "hcf_FailTimeout (m_config m) \<le> time_sub now (mi_LastSeen mem)"
  shows "GetNodeState nid (snd (recordFailure now nid err m)) = (StateFailed, True)"
    "fst (recordFailure now nid err m) = map (\<lambda>l. (l, nid, StateAlive, StateFailed)) (m_listeners m)"
  using assms by (simp_all add: mon_defs GetNodeState_def notifyStateChange_def)

text \<open>C4. Completeness of the failure detector: when a member stops answering and no operator sets its state by hand meanwhile
  (a revival would renew its last-seen time), then, whatever the monitor does about other members, its state after its latest missed ping
  depends on the length of the silence alone: \<open>FAILED\<close> once the silence has lasted \<open>FailTimeout\<close>, otherwise \<open>SUSPECTED\<close> once it has lasted
  \<open>SuspectTimeout\<close>, otherwise what it was before. The number of missed pings plays no part, and a member can become \<open>FAILED\<close> without having
  been \<open>SUSPECTED\<close>.\<close>

theorem health_crash_detection:
  assumes run: "mon_steps m ps cs m'" and mem: "map_of (m_members m) nid = Some mem"
    and silent: "\<forall>p\<in>set ps. op_answered nid p = None \<and> \<not> op_override nid p"
    and clock: "sorted (misses (op_missed nid) ps)" and pinged: "misses (op_missed nid) ps \<noteq> []"
    and cfg: "0 < hcf_SuspectTimeout (m_config m)" "hcf_SuspectTimeout (m_config m) < 2 ^ 63"
      "0 < hcf_FailTimeout (m_config m)" "hcf_FailTimeout (m_config m) < 2 ^ 63"
  shows "GetNodeState nid m' =
    (let silence = last (misses (op_missed nid) ps) - mi_LastSeen mem
     in (if hcf_FailTimeout (m_config m) \<le> silence then StateFailed
         else if hcf_SuspectTimeout (m_config m) \<le> silence then StateSuspected else mi_State mem), True)"
  using fd.silent_run [OF silent clock, where cfg = "m_config m" and m = mem] pinged
  by (simp add: GetNodeState_Some [OF steps_member [OF run mem]] detected_state_exact [OF cfg] Let_def)

theorem health_crash_detection_witness:
  "GetNodeState ''n2'' (snd (mon_apply (MFailure (5 * second) ''n2'' ''down'') (snd (mon_apply (MFailure (3 * second) ''n2'' ''down'') demo_monitor))))
     = (StateFailed, True)"
proof -
  let ?p = "MFailure (3 * second) ''n2'' ''down''" and ?q = "MFailure (5 * second) ''n2'' ''down''"
  have "mon_steps demo_monitor [?p] (fst (mon_apply ?p demo_monitor)) (snd (mon_apply ?p demo_monitor))"
    by (rule step_one) simp
  from steps_snoc [OF this prod.collapse [symmetric], of ?q]
  show ?thesis
    using health_crash_detection [of demo_monitor "[?p, ?q]" _ _ "''n2''" "new_member ''n2'' ''http://a2'' 0"]
    by (simp add: demo_monitor_eq new_member_def Let_def)
qed

text \<open>C34. Accuracy: a member that is alive and not overridden stays \<open>ALIVE\<close> through any sequence of
  operations in which each of its missed pings comes less than \<open>SuspectTimeout\<close> after its last
  answer.\<close>

theorem health_no_false_alarm:
  assumes run: "mon_steps m ps cs m'" and mem: "map_of (m_members m) nid = Some mem"
    and alive: "mi_State mem = StateAlive" "\<not> mi_ManualOverride mem"
    and timely: "timely (op_missed nid) (op_answered nid) (hcf_SuspectTimeout (m_config m)) (mi_LastSeen mem) ps"
    and plain: "\<forall>p\<in>set ps. \<not> op_override nid p"
    and cfg: "hcf_SuspectTimeout (m_config m) \<le> hcf_FailTimeout (m_config m)"
  shows "GetNodeState nid m' = (StateAlive, True)"
  using fd.timely_alive [OF order_refl cfg timely plain alive(2,1)]
  by (simp add: GetNodeState_Some [OF steps_member [OF run mem]])

theorem health_no_false_alarm_witness:
  "GetNodeState ''n2'' (snd (mon_apply (MFailure (3 * second) ''n2'' ''jitter'')
     (snd (mon_apply (MSuccess (2 * second) ''n2'' 1 0 0 0) demo_monitor)))) = (StateAlive, True)"
proof -
  let ?p = "MSuccess (2 * second) ''n2'' 1 0 0 0" and ?q = "MFailure (3 * second) ''n2'' ''jitter''"
  have "mon_steps demo_monitor [?p] (fst (mon_apply ?p demo_monitor)) (snd (mon_apply ?p demo_monitor))"
    by (rule step_one) simp
  from steps_snoc [OF this prod.collapse [symmetric], of ?q]
  show ?thesis
    using health_no_false_alarm [of demo_monitor "[?p, ?q]" _ _ "''n2''" "new_member ''n2'' ''http://a2'' 0"]
    by (simp add: demo_monitor_eq new_member_def time_sub_def)
qed

text \<open>C23. One heartbeat cycle judges every peer by its own reply, whatever the order in which
  the concurrent pings finish: an answer with status 200 makes the peer \<open>ALIVE\<close> (unless it
  is manually failed), renews its last-seen time and clears the missed pings; anything else
  counts a missed ping and applies the timeouts. The monitoring node's own entry is not touched.\<close>

theorem health_ping_cycle:
  fixes m :: "'l monitor"
  assumes wf: "mon_wf m" and ord: "ping_order ord" and mem: "map_of (m_members m) nid = Some mem"
  shows "\<exists>mem'. map_of (m_members (snd (pingAllPeers env ord m))) nid = Some mem'
    \<and> (nid = hcf_SelfNodeID (m_config m) \<longrightarrow> mem' = mem)
    \<and> (nid \<noteq> hcf_SelfNodeID (m_config m) \<longrightarrow>
        mi_State mem' =
          (if ping_ok (env nid) mem then (if mi_ManualOverride mem \<and> mi_State mem = StateFailed then StateFailed else StateAlive)
           else detected_state (hcf_SuspectTimeout (m_config m)) (hcf_FailTimeout (m_config m)) (pe_now (env nid)) (mi_LastSeen mem) (mi_State mem))
      \<and> mi_MissedPings mem' = (if ping_ok (env nid) mem then 0 else mi_MissedPings mem + 1)
      \<and> mi_LastSeen mem' = (if ping_ok (env nid) mem then pe_now (env nid) else mi_LastSeen mem))"
  using pingAllPeers_member [OF wf ord prod.collapse [symmetric] mem, of env]
    mem_step_ping [OF mon_wfD(2) [OF wf mem], where cfg = "m_config m" and env = "env nid" and 'l = 'l]
  by simp

theorem health_ping_cycle_witness:
  "\<exists>mem. map_of (m_members (snd (pingAllPeers (\<lambda>_. demo_env 503 (3 * second)) rev demo_monitor))) ''n2'' = Some mem
    \<and> mi_State mem = StateSuspected \<and> mi_MissedPings mem = 1"
proof -
  have "ping_order rev" by (simp add: ping_order_def)
  with health_ping_cycle [OF demo_monitor_wf this, of "''n2''" "new_member ''n2'' ''http://a2'' 0" "\<lambda>_. demo_env 503 (3 * second)"]
  show ?thesis
    by (auto simp: demo_monitor_eq new_member_def ping_ok_def demo_env_def detected_state_def time_sub_def demo_health_cfg_def)
qed

text \<open>A node never doubts itself: from the start, through the whole heartbeat loop, with any
  replies, any schedule and until stopped, the monitor's own member is known and \<open>ALIVE\<close>.\<close>

theorem health_self_alive:
  assumes "ping_order ord"
  shows "GetNodeState (hcf_SelfNodeID cfg) (snd (heartbeatLoop ord env0 es (NewMonitor clock cfg :: 'l monitor))) = (StateAlive, True)"
proof -
  let ?m = "NewMonitor clock cfg :: 'l monitor"
  have wf: "mon_wf ?m" using NewMonitor_alive by blast
  have self: "hcf_SelfNodeID (m_config ?m) = hcf_SelfNodeID cfg" by (simp add: NewMonitor_def Let_def)
  obtain mem where mem: "map_of (m_members ?m) (hcf_SelfNodeID cfg) = Some mem"
    using mon_wfD(3) [OF wf] self by auto
  then have "mi_State mem = StateAlive" using NewMonitor_alive by blast
  moreover have "map_of (m_members (snd (heartbeatLoop ord env0 es ?m))) (hcf_SelfNodeID cfg) = Some mem"
    using beat_loop_self [OF assms pingAllPeers_wf(1) [OF wf]] pingAllPeers_wf(2) [OF wf] cycle_self [OF wf assms] self mem
    by (simp add: heartbeatLoop_def case_prod_unfold Let_def)
  ultimately show ?thesis by (simp add: GetNodeState_Some)
qed

theorem health_self_alive_witness:
  "GetNodeState ''n1'' (snd (heartbeatLoop rev (\<lambda>_. demo_env 500 1) [BeatTick (\<lambda>_. demo_env 500 (9 * second)), BeatStop] demo_monitor))
     = (StateAlive, True)"
proof -
  have "ping_order rev" by (simp add: ping_order_def)
  from health_self_alive [OF this, of demo_health_cfg "\<lambda>_. demo_env 500 1" "[BeatTick (\<lambda>_. demo_env 500 (9 * second)), BeatStop]" "\<lambda>_. 0"]
  show ?thesis by (simp add: demo_monitor_def demo_health_cfg_def)
qed

section \<open>Overrides and listeners\<close>

text \<open>C36. The manual override does not hold: \<open>recordSuccess\<close> keeps a manually failed member
  \<open>FAILED\<close> however often it answers, but one missed ping between \<open>SuspectTimeout\<close> and \<open>FailTimeout\<close>
  after the last answer turns it \<open>SUSPECTED\<close>, and the next answer \<open>ALIVE\<close>, without a revive and with
  the override flag still set.\<close>

theorem health_override_lost:
  assumes mem: "map_of (m_members m) nid = Some mem" and gap: "hcf_SuspectTimeout (m_config m) \<le> time_sub t2 t1"
    "time_sub t2 t1 < hcf_FailTimeout (m_config m)"
  shows "let m1 = snd (mon_apply (MManual t0 nid StateFailed) m);
             m2 = snd (recordSuccess t1 nid l1 p1 r1 h1 m1);
             m3 = snd (recordFailure t2 nid err m2);
             m4 = snd (recordSuccess t3 nid l2 p2 r2 h2 m3)
    in GetNodeState nid m1 = (StateFailed, True) \<and> GetNodeState nid m2 = (StateFailed, True)
     \<and> GetNodeState nid m3 = (StateSuspected, True) \<and> GetNodeState nid m4 = (StateAlive, True)
     \<and> map_option mi_ManualOverride (map_of (m_members m4) nid) = Some True"
  using assms by (simp add: Let_def recordSuccess_def recordFailure_def SetNodeStateManual_def GetNodeState_def)

theorem health_override_lost_witness:
  "let m1 = snd (mon_apply (MManual 0 ''n2'' StateFailed) demo_monitor);
       m2 = snd (recordSuccess second ''n2'' 1 0 0 0 m1);
       m3 = snd (recordFailure (4 * second) ''n2'' ''timeout'' m2);
       m4 = snd (recordSuccess (5 * second) ''n2'' 1 0 0 0 m3)
   in GetNodeState ''n2'' m4 = (StateAlive, True)"
  using health_override_lost [of demo_monitor "''n2''" "new_member ''n2'' ''http://a2'' 0" "4 * second" second 0 1 0 0 0 "''timeout''" "5 * second" 1 0 0 0]
  by (simp add: Let_def demo_monitor_eq time_sub_def)

text \<open>The listeners hear of every change: over any sequence of operations, the changes of a
  member that a registered listener is called with link up, each starting where the last one
  ended, from the member's first state to its current one.\<close>

theorem health_listener_chain:
  assumes "mon_steps m ps cs m'" "distinct (m_listeners m)" "l \<in> set (m_listeners m)"
    "\<forall>p\<in>set ps. \<forall>cb. p \<noteq> MListen cb" "map_of (m_members m) nid = Some mem"
  shows "call_chain (mi_State mem) (calls_for l nid cs) (fst (GetNodeState nid m'))"
proof -
  obtain mem' where "map_of (m_members m') nid = Some mem'" "call_chain (mi_State mem) (calls_for l nid cs) (mi_State mem')"
    using steps_calls [OF assms] by blast
  then show ?thesis by (simp add: GetNodeState_Some)
qed

theorem health_listener_chain_witness:
  "call_chain StateAlive
     (calls_for ''l'' ''n2'' (fst (mon_apply (MFailure (5 * second) ''n2'' ''down'') (demo_monitor\<lparr>m_listeners := [''l'', ''k'']\<rparr>)))) StateFailed"
proof -
  let ?m = "demo_monitor\<lparr>m_listeners := [''l'', ''k'']\<rparr>" and ?p = "MFailure (5 * second) ''n2'' ''down''"
  have run: "mon_steps ?m [?p] (fst (mon_apply ?p ?m)) (snd (mon_apply ?p ?m))" by (rule step_one) simp
  have mem: "map_of (m_members ?m) ''n2'' = Some (new_member ''n2'' ''http://a2'' 0)" by (simp add: demo_monitor_eq)
  have st: "fst (GetNodeState ''n2'' (snd (mon_apply ?p ?m))) = StateFailed"
    unfolding GetNodeState_Some [OF apply_member [OF mem]]
    by (simp add: demo_monitor_eq new_member_def time_sub_def)
  have d: "distinct (m_listeners ?m)" and l: "''l'' \<in> set (m_listeners ?m)" by simp_all
  have ps: "\<forall>p\<in>set [?p]. \<forall>cb. p \<noteq> MListen cb" by simp
  have "call_chain (mi_State (new_member ''n2'' ''http://a2'' 0)) (calls_for ''l'' ''n2'' (fst (mon_apply ?p ?m)))
      (fst (GetNodeState ''n2'' (snd (mon_apply ?p ?m))))"
    using health_listener_chain [OF run d l ps mem] .
  then show ?thesis unfolding st by (simp only: new_member_def member_info.simps)
qed

text \<open>The cluster view is a faithful snapshot: its members are those of the monitor, and its
  counters are the numbers of members in the respective states, with the suspected ones
  making up the rest of the total.\<close>

lemma health_view_counts:
  assumes "mon_wf m"
  shows "let v = GetClusterView now m in
      map_of (cv_Members v) = map_of (m_members m)
    \<and> cv_AliveNodes v = length (filter (\<lambda>e. mi_State (snd e) = StateAlive) (m_members m))
    \<and> cv_FailedNodes v = length (filter (\<lambda>e. mi_State (snd e) = StateFailed) (m_members m))
    \<and> cv_TotalNodes v = cv_AliveNodes v + cv_FailedNodes v
        + length (filter (\<lambda>e. mi_State (snd e) \<noteq> StateAlive \<and> mi_State (snd e) \<noteq> StateFailed) (m_members m))"
proof -
  have "length (filter (\<lambda>e. mi_State (snd e) = StateAlive) es) + length (filter (\<lambda>e. mi_State (snd e) = StateFailed) es)
      + length (filter (\<lambda>e. mi_State (snd e) \<noteq> StateAlive \<and> mi_State (snd e) \<noteq> StateFailed) es) = length es" for es :: "(string, member_info) gomap"
    by (induction es) auto
  moreover have "map_of (fold (\<lambda>(nid, mem). gm_put nid mem) (m_members m) []) = map_of (m_members m)"
    using copy_lookup [OF mon_wfD(1) [OF assms], of "[]"] by (auto simp: fun_eq_iff split: option.splits)
  ultimately show ?thesis by (simp add: GetClusterView_def Let_def view_fold)
qed

end
