(* ===== verification/Rebalance.thy ===== *)
theory Rebalance
  imports Cache_Store Hash_Ring
begin

text \<open>
  Synchronisation on recovery and rebalancing on growth
  (\<^verbatim>\<open>backend/internal/rebalancing/rebalance.go\<close>): dump of the local keys, bulk ingestion, pull from
  a peer, push to a new node. The cache and the ring are shared with the rest of the node, so the
  operations take and return them; the HTTP exchanges and the decoder are arguments, and so is every
  reading of the clock. Neither the pull nor the push holds a lock from beginning to end in the code (the cache and the ring lock each
  single access), so each is modelled as it runs when nothing else touches the cache and the ring meanwhile.
\<close>

section \<open>Definitions\<close>

record dump_item =
  di_Key :: string
  di_Value :: string
  di_TTLSeconds :: int
  di_Version :: u64
  di_IsReplica :: bool

record bulk_sync_payload =
  bp_SourceNode :: string
  bp_Items :: "dump_item list"

record rebalance_report =
  rb_ID :: string
  rb_TriggeredAt :: gtime
  rb_AddedNodeID :: string
  rb_RemovedNodeID :: string
  rb_KeysEvaluated :: int
  rb_KeysMoved :: int
  rb_KeysPerNode :: "(string, int) gomap"
  rb_DurationMs :: int
  rb_Status :: string

record rebalance_manager =
  mg_selfNodeID :: string
  mg_selfAddr :: string
  mg_timeout :: duration
  mg_reports :: "rebalance_report list"

definition NewManager :: "string \<Rightarrow> string \<Rightarrow> duration \<Rightarrow> rebalance_manager" where
  "NewManager selfNodeID selfAddr timeout =
     \<lparr>mg_selfNodeID = selfNodeID, mg_selfAddr = selfAddr,
      mg_timeout = (if timeout \<le> 0 then 3 * second else timeout), mg_reports = []\<rparr>"

text \<open>The readings of the clock while a key is read and dumped: the two of \<open>Get\<close>, and the one of
  \<open>TTLRemaining\<close>.\<close>

record key_clock =
  kc_get :: gtime
  kc_evict :: gtime
  kc_ttl :: gtime

definition dump_item_of :: "gtime \<Rightarrow> bool \<Rightarrow> item \<Rightarrow> dump_item" where
  "dump_item_of now isReplica i =
     \<lparr>di_Key = it_Key i, di_Value = it_Value i, di_TTLSeconds = item_TTLRemaining now i, di_Version = it_Version i,
      di_IsReplica = isReplica\<rparr>"

definition dump_key :: "(string \<Rightarrow> key_clock) \<Rightarrow> string \<Rightarrow> dump_item list \<times> cache \<Rightarrow> dump_item list \<times> cache" where
  "dump_key clock k s =
     (let (items, c) = s; (found, c') = cache_Get (kc_get (clock k)) (kc_evict (clock k)) k c
      in case found of
           Some item \<Rightarrow> (items @ [dump_item_of (kc_ttl (clock k)) (it_IsReplica item) item], c')
         | None \<Rightarrow> (items, c'))"

definition DumpLocalKeys :: "gtime \<Rightarrow> string list \<Rightarrow> (string \<Rightarrow> key_clock) \<Rightarrow> cache \<Rightarrow> dump_item list \<times> cache" where
  "DumpLocalKeys now ord clock c = fold (dump_key clock) (cache_Keys now ord c) ([], c)"

definition ingest_ttl :: "int \<Rightarrow> duration" where
  "ingest_ttl s = (if 0 < s then wrap64 (s * second) else 0)"

fun ingest_items :: "(nat \<Rightarrow> gtime) \<Rightarrow> dump_item list \<Rightarrow> nat \<Rightarrow> cache \<Rightarrow> nat \<times> cache" where
  "ingest_items clock [] n c = (n, c)"
| "ingest_items clock (i # is) n c =
     ingest_items clock is (n + 1)
       (snd (cache_SetWithMetadata (clock n) (di_Key i) (di_Value i) (ingest_ttl (di_TTLSeconds i)) (di_Version i) (di_IsReplica i) c))"

definition IngestBulkKeys :: "(nat \<Rightarrow> gtime) \<Rightarrow> dump_item list \<Rightarrow> cache \<Rightarrow> nat \<times> cache" where
  "IngestBulkKeys clock items c = ingest_items clock items 0 c"

subsection \<open>Pull from a peer\<close>

datatype sync_error = SyncErr string | SyncStatus int

record sync_env =
  se_newRequest :: "string \<Rightarrow> string option"
  se_get :: "string \<Rightarrow> string + int \<times> string"
  se_decode :: "string \<Rightarrow> string + dump_item list"
  se_post :: "string \<Rightarrow> bulk_sync_payload \<Rightarrow> string + int"

text \<open>Whether the node \<open>self\<close> adopts a key, and as a replica or not.\<close>

definition adopt_role :: "hash_ring \<Rightarrow> string \<Rightarrow> string \<Rightarrow> bool option" where
  "adopt_role ring self key =
     (case ring_GetNodes ring key 2 of
        Inl _ \<Rightarrow> None
      | Inr [] \<Rightarrow> None
      | Inr (t # ts) \<Rightarrow>
          (let isPrimary = (nt_NodeID t = self);
               isReplica = (case ts of [] \<Rightarrow> False | t' # _ \<Rightarrow> nt_NodeID t' = self)
           in if isPrimary \<or> isReplica then Some isReplica else None))"

fun sync_items :: "(nat \<Rightarrow> gtime) \<Rightarrow> hash_ring \<Rightarrow> string \<Rightarrow> dump_item list \<Rightarrow> nat \<Rightarrow> cache \<Rightarrow> nat \<times> cache" where
  "sync_items clock ring self [] n c = (n, c)"
| "sync_items clock ring self (i # is) n c =
     (case adopt_role ring self (di_Key i) of
        None \<Rightarrow> sync_items clock ring self is n c
      | Some isReplica \<Rightarrow>
          sync_items clock ring self is (n + 1)
            (snd (cache_SetWithMetadata (clock n) (di_Key i) (di_Value i) (ingest_ttl (di_TTLSeconds i)) (di_Version i) isReplica c)))"

definition SyncFromPeer ::
  "sync_env \<Rightarrow> (nat \<Rightarrow> gtime) \<Rightarrow> hash_ring \<Rightarrow> rebalance_manager \<Rightarrow> string \<Rightarrow> cache \<Rightarrow> (sync_error + nat) \<times> cache" where
  "SyncFromPeer env clock ring mgr peerAddr c =
     (let url = peerAddr @ ''/internal/dump''
      in case se_newRequest env url of
           Some err \<Rightarrow> (Inl (SyncErr err), c)
         | None \<Rightarrow>
             (case se_get env url of
                Inl err \<Rightarrow> (Inl (SyncErr (''sync dump request failed: '' @ err)), c)
              | Inr (status, body) \<Rightarrow>
                  if status \<noteq> 200 then (Inl (SyncStatus status), c)
                  else (case se_decode env body of
                          Inl err \<Rightarrow> (Inl (SyncErr (''failed to decode dump: '' @ err)), c)
                        | Inr items \<Rightarrow>
                            let (synced, c') = sync_items clock ring (mg_selfNodeID mgr) items 0 c in (Inr synced, c'))))"

subsection \<open>Push to a new node\<close>

definition migrate_key ::
  "(string \<Rightarrow> key_clock) \<Rightarrow> hash_ring \<Rightarrow> string \<Rightarrow> string \<Rightarrow> dump_item list \<times> cache \<Rightarrow> dump_item list \<times> cache" where
  "migrate_key clock ring newNodeID k s =
     (let (items, c) = s
      in case ring_GetNodes ring k 2 of
           Inl _ \<Rightarrow> s
         | Inr [] \<Rightarrow> s
         | Inr (t # _) \<Rightarrow>
             if nt_NodeID t = newNodeID
             then (let (found, c') = cache_Get (kc_get (clock k)) (kc_evict (clock k)) k c
                   in case found of
                        Some item \<Rightarrow> (items @ [dump_item_of (kc_ttl (clock k)) False item], c')
                      | None \<Rightarrow> (items, c'))
             else s)"

definition collect_migration ::
  "(string \<Rightarrow> key_clock) \<Rightarrow> hash_ring \<Rightarrow> string \<Rightarrow> string list \<Rightarrow> cache \<Rightarrow> dump_item list \<times> cache" where
  "collect_migration clock ring newNodeID allKeys c = fold (migrate_key clock ring newNodeID) allKeys ([], c)"

definition unix_nano :: "gtime \<Rightarrow> int" where
  "unix_nano t = wrap64 (t - 62135596800 * second)"

text \<open>The readings of the clock of one rebalance: at the start, when the keys are listed, for each
  key, at the end, and for the id of the report.\<close>

record rebalance_clock =
  bc_start :: gtime
  bc_keys :: gtime
  bc_key :: "string \<Rightarrow> key_clock"
  bc_end :: gtime
  bc_id :: gtime

text \<open>The message to the new node, and the cache after the reads it took. The ring has the new node already.\<close>

definition rebalance_payload ::
  "rebalance_clock \<Rightarrow> string list \<Rightarrow> string \<Rightarrow> rebalance_manager \<Rightarrow> hash_ring \<Rightarrow> cache \<Rightarrow> bulk_sync_payload \<times> cache" where
  "rebalance_payload clock ord newNodeID mgr ring c0 =
     (let (keysToMigrate, c) = collect_migration (bc_key clock) ring newNodeID (cache_Keys (bc_keys clock) ord c0) c0
      in (\<lparr>bp_SourceNode = mg_selfNodeID mgr, bp_Items = keysToMigrate\<rparr>, c))"

definition RebalanceForNewNode ::
  "sync_env \<Rightarrow> rebalance_clock \<Rightarrow> string list \<Rightarrow> string \<Rightarrow> string \<Rightarrow> rebalance_manager \<Rightarrow> hash_ring \<Rightarrow> cache
    \<Rightarrow> (sync_error + rebalance_report) \<times> rebalance_manager \<times> hash_ring \<times> cache" where
  "RebalanceForNewNode env clock ord newNodeID newNodeAddr mgr ring0 c0 =
     (let ring = ring_AddNode newNodeID newNodeAddr ring0;
          allKeys = cache_Keys (bc_keys clock) ord c0;
          (payload, c) = rebalance_payload clock ord newNodeID mgr ring c0;
          keysToMigrate = bp_Items payload;
          url = newNodeAddr @ ''/internal/sync/bulk'';
          transfer = (if 0 < length keysToMigrate
                      then (case se_newRequest env url of
                              Some err \<Rightarrow> Some (SyncErr err)
                            | None \<Rightarrow> (case se_post env url payload of
                                         Inl err \<Rightarrow> Some (SyncErr (''bulk transfer to new node '' @ newNodeAddr @ '' failed: '' @ err))
                                       | Inr status \<Rightarrow> None))
                      else None)
      in case transfer of
           Some err \<Rightarrow> (Inl err, mgr, ring, c)
         | None \<Rightarrow>
             let duration = dur_Milliseconds (time_sub (bc_end clock) (bc_start clock));
                 report = \<lparr>rb_ID = ''reb-'' @ itoa (unix_nano (bc_id clock)), rb_TriggeredAt = bc_start clock,
                           rb_AddedNodeID = newNodeID, rb_RemovedNodeID = [],
                           rb_KeysEvaluated = int (length allKeys), rb_KeysMoved = int (length keysToMigrate),
                           rb_KeysPerNode = gm_put (mg_selfNodeID mgr) (int (length allKeys) - int (length keysToMigrate))
                             (gm_put newNodeID (int (length keysToMigrate)) []),
                           rb_DurationMs = duration, rb_Status = ''COMPLETED''\<rparr>
             in (Inr report, mgr\<lparr>mg_reports := mg_reports mgr @ [report]\<rparr>, ring, c))"

definition GetReports :: "rebalance_manager \<Rightarrow> rebalance_report list" where
  "GetReports mgr = [] @ mg_reports mgr"

section \<open>Lemmas\<close>

declare map_of_eq_Some_iff [simp del]

lemma view_get_other: "k \<noteq> k' \<Longrightarrow> cache_view t (snd (cache_Get t1 t2 k' c)) k = cache_view t c k"
  by (auto simp: cache_view_def get_items split: option.splits)

lemma rebalance_payload_simps [simp]:
  "fst (rebalance_payload clock ord n mgr h c) =
     \<lparr>bp_SourceNode = mg_selfNodeID mgr, bp_Items = fst (collect_migration (bc_key clock) h n (cache_Keys (bc_keys clock) ord c) c)\<rparr>"
  "snd (rebalance_payload clock ord n mgr h c) = snd (collect_migration (bc_key clock) h n (cache_Keys (bc_keys clock) ord c) c)"
  by (simp_all add: rebalance_payload_def case_prod_unfold Let_def)

subsection \<open>Dumps\<close>

text \<open>What one visit of the dump loop appends.\<close>

definition dumped :: "(string \<Rightarrow> key_clock) \<Rightarrow> cache \<Rightarrow> string \<Rightarrow> dump_item list" where
  "dumped clock c k =
     (case cache_view (kc_get (clock k)) c k of
        Some i \<Rightarrow> [dump_item_of (kc_ttl (clock k)) (it_IsReplica i) i] | None \<Rightarrow> [])"

lemma dump_key_eq:
  "dump_key clock k s = (fst s @ dumped clock (snd s) k, snd (cache_Get (kc_get (clock k)) (kc_evict (clock k)) k (snd s)))"
  using get_result [of "kc_get (clock k)" "kc_evict (clock k)" k "snd s"]
  by (simp add: dump_key_def dumped_def Let_def case_prod_unfold split: option.splits)

lemma dump_fold:
  "distinct ks \<Longrightarrow> fst (fold (dump_key clock) ks s) = fst s @ concat (map (dumped clock (snd s)) ks)"
proof (induction ks arbitrary: s)
  case (Cons k ks)
  let ?c = "snd (cache_Get (kc_get (clock k)) (kc_evict (clock k)) k (snd s))"
  have "dumped clock ?c k' = dumped clock (snd s) k'" if "k' \<in> set ks" for k'
  proof -
    from that Cons.prems have "k' \<noteq> k" by auto
    then show ?thesis by (simp add: dumped_def view_get_other)
  qed
  then have same: "map (dumped clock ?c) ks = map (dumped clock (snd s)) ks" by simp
  from Cons show ?case by (simp add: dump_key_eq same del: map_eq_conv)
qed simp

lemma fold_view_other: "k \<notin> set ks \<Longrightarrow> cache_view t (snd (fold (dump_key clock) ks s)) k = cache_view t (snd s) k"
  by (induction ks arbitrary: s) (simp_all add: dump_key_eq view_get_other)

subsection \<open>Ingestion\<close>

definition dump_write :: "bool \<Rightarrow> dump_item \<Rightarrow> cache_write" where
  "dump_write isReplica i =
     \<lparr>cw_key = di_Key i, cw_value = di_Value i, cw_ttl = ingest_ttl (di_TTLSeconds i), cw_version = di_Version i,
      cw_isReplica = isReplica\<rparr>"

text \<open>The writes of an ingestion with their clock readings.\<close>

fun ingest_writes :: "(nat \<Rightarrow> gtime) \<Rightarrow> nat \<Rightarrow> dump_item list \<Rightarrow> (gtime \<times> cache_write) list" where
  "ingest_writes clock n [] = []"
| "ingest_writes clock n (i # is) = (clock n, dump_write (di_IsReplica i) i) # ingest_writes clock (Suc n) is"
lemma ingest_items_eq:
  "ingest_items clock is n c = (n + length is, fold (\<lambda>p. cache_put (fst p) (snd p)) (ingest_writes clock n is) c)"
  by (induction "is" arbitrary: n c) (simp_all add: cache_put_def dump_write_def)

lemma ingest_writes_keys: "(\<lambda>p. cw_key (snd p)) ` set (ingest_writes clock n is) = di_Key ` set is"
  by (induction "is" arbitrary: n) (simp_all add: dump_write_def)

lemma ingest_writes_append:
  "ingest_writes clock n (xs @ ys) = ingest_writes clock n xs @ ingest_writes clock (n + length xs) ys"
  by (induction xs arbitrary: n) simp_all

lemma ingest_view_other:
  "k \<notin> di_Key ` set is \<Longrightarrow> cache_view t (snd (ingest_items clock is n c)) k = cache_view t c k"
  by (simp add: ingest_items_eq cs.bulk_other ingest_writes_keys)


lemma ingest_view_key:
  assumes "distinct (map di_Key is)" "j < length is"
  shows "\<exists>s. cache_view t (snd (ingest_items clock is n c)) (di_Key (is ! j)) =
    (let i = cache_made (clock (n + j)) (dump_write (di_IsReplica (is ! j)) (is ! j)) s in if item_IsExpired t i then None else Some i)"
proof -
  let ?x = "is ! j"
  have split: "is = take j is @ ?x # drop (Suc j) is" using assms(2) by (rule id_take_nth_drop)
  have notin: "di_Key ?x \<notin> di_Key ` set (drop (Suc j) is)"
    using assms split by (metis distinct.simps(2) distinct_append list.simps(9) map_append set_map)
  have ws: "ingest_writes clock n is = ingest_writes clock n (take j is)
      @ (clock (n + j), dump_write (di_IsReplica ?x) ?x) # ingest_writes clock (Suc (n + j)) (drop (Suc j) is)"
    using assms(2) by (subst split) (simp add: ingest_writes_append)
  have key: "cw_key (dump_write (di_IsReplica ?x) ?x) = di_Key ?x" by (simp add: dump_write_def)
  show ?thesis
    using cs.bulk_last [OF _ key, of "ingest_writes clock (Suc (n + j)) (drop (Suc j) is)" t "ingest_writes clock n (take j is)" "clock (n + j)" c]
      notin by (auto simp: ingest_items_eq ws ingest_writes_keys Let_def)
qed

text \<open>The item an ingestion stores.\<close>

lemma cache_made_dump:
  "cache_made now (dump_write rep i) s =
     \<lparr>it_Key = di_Key i, it_Value = di_Value i, it_CreatedAt = now,
      it_ExpiresAt = (if 0 < ingest_ttl (di_TTLSeconds i) then now + ingest_ttl (di_TTLSeconds i) else 0),
      it_Version = (if di_Version i = 0 then (case map_of (c_items s) (di_Key i) of None \<Rightarrow> 1 | Some e \<Rightarrow> it_Version e + 1) else di_Version i),
      it_IsReplica = rep\<rparr>"
  by (simp add: cache_made_def dump_write_def set_item)

lemma ingest_ttl_exact: "0 \<le> s \<Longrightarrow> s < 2 ^ 23 \<Longrightarrow> ingest_ttl s = s * second"
  by (simp add: ingest_ttl_def wrap64_id)

subsection \<open>Adoption\<close>

lemma adopt_role_prefs:
  assumes "ring_exact h"
  shows "adopt_role h self key = (if self \<in> set (take 2 (prefs h key)) then Some (self \<noteq> hd (prefs h key)) else None)"
proof (cases "hr_ring h = []")
  case True
  then show ?thesis by (simp add: adopt_role_def ring_GetNodes_def prefs_def clockwise_def)
next
  case False
  have g: "ring_GetNodes h key 2 = Inr (map (ring_target h) (take 2 (prefs h key)))"
    using False by (simp add: GetNodes_prefs [OF ring_exact_sorted [OF assms]])
  have d: "distinct (prefs h key)" by (rule prefs_distinct)
  have id: "nt_NodeID (ring_target h n) = n" for n by (simp add: ring_target_def)
  obtain p ps where p: "prefs h key = p # ps" using prefs_nonempty [OF False, of key] by (cases "prefs h key") auto
  show ?thesis
  proof (cases ps)
    case Nil
    with g p show ?thesis by (simp add: adopt_role_def id eq_commute)
  next
    case (Cons q qs)
    with g p d show ?thesis by (auto simp: adopt_role_def id)
  qed
qed

text \<open>The items a node adopts from a dump, with their role on the ring.\<close>

definition adopted :: "hash_ring \<Rightarrow> string \<Rightarrow> dump_item list \<Rightarrow> dump_item list" where
  "adopted ring self is =
     List.map_filter (\<lambda>i. map_option (\<lambda>r. i\<lparr>di_IsReplica := r\<rparr>) (adopt_role ring self (di_Key i))) is"

lemma adopted_simps [simp]:
  "adopted ring self [] = []"
  "adopted ring self (i # is) =
     (case adopt_role ring self (di_Key i) of None \<Rightarrow> [] | Some r \<Rightarrow> [i\<lparr>di_IsReplica := r\<rparr>]) @ adopted ring self is"
  by (simp_all add: adopted_def map_filter_simps split: option.splits)

lemma sync_items_ingest: "sync_items clock ring self is n c = ingest_items clock (adopted ring self is) n c"
  by (induction clock ring self "is" n c rule: sync_items.induct) (auto split: option.splits)

lemma adopted_keys: "di_Key ` set (adopted ring self is) = {k \<in> di_Key ` set is. adopt_role ring self k \<noteq> None}"
  by (induction "is") (auto split: option.splits)

lemma adopted_distinct: "distinct (map di_Key is) \<Longrightarrow> distinct (map di_Key (adopted ring self is))"
  by (induction "is") (auto simp: adopted_keys split: option.splits)

lemma set_map_filter: "set (List.map_filter f xs) = {y. \<exists>x\<in>set xs. f x = Some y}"
  by (induction xs) (auto simp: map_filter_simps split: option.splits)

lemma adopted_mem:
  "i' \<in> set (adopted ring self is) \<longleftrightarrow> (\<exists>i r. i \<in> set is \<and> adopt_role ring self (di_Key i) = Some r \<and> i' = i\<lparr>di_IsReplica := r\<rparr>)"
  unfolding adopted_def set_map_filter by auto

subsection \<open>Migration\<close>

definition migrated :: "(string \<Rightarrow> key_clock) \<Rightarrow> cache \<Rightarrow> string \<Rightarrow> dump_item list" where
  "migrated clock c k =
     (case cache_view (kc_get (clock k)) c k of Some i \<Rightarrow> [dump_item_of (kc_ttl (clock k)) False i] | None \<Rightarrow> [])"

lemma migrate_key_eq:
  assumes "ring_exact h" "ring_ids h \<noteq> []"
  shows "migrate_key clock h new k s =
    (if hd (prefs h k) = new
     then (fst s @ migrated clock (snd s) k, snd (cache_Get (kc_get (clock k)) (kc_evict (clock k)) k (snd s))) else s)"
proof -
  have ne: "hr_ring h \<noteq> []" using assms by (simp add: ring_exact_empty_iff)
  then obtain p ps where p: "prefs h k = p # ps" using prefs_nonempty [of h k] by (cases "prefs h k") auto
  have g: "ring_GetNodes h k 2 = Inr (ring_target h p # map (ring_target h) (take 1 ps))"
    using ne p by (simp add: GetNodes_prefs [OF ring_exact_sorted [OF assms(1)]] take_Cons numeral_2_eq_2)
  have id: "nt_NodeID (ring_target h p) = p" by (simp add: ring_target_def)
  show ?thesis
    using get_result [of "kc_get (clock k)" "kc_evict (clock k)" k "snd s"]
    by (simp add: migrate_key_def migrated_def g p id case_prod_unfold Let_def split: option.splits)
qed

lemma migrate_view:
  assumes "ring_exact h" "ring_ids h \<noteq> []" "\<forall>k\<in>set ks. kc_get (clock k) \<le> t"
  shows "cache_view t (snd (fold (migrate_key clock h new) ks s)) k = cache_view t (snd s) k"
  using assms(3) by (induction ks arbitrary: s) (simp_all add: migrate_key_eq [OF assms(1,2)] view_get)

lemma migrate_fold:
  assumes "ring_exact h" "ring_ids h \<noteq> []"
  shows "distinct ks \<Longrightarrow> fst (fold (migrate_key clock h new) ks s) =
    fst s @ concat (map (migrated clock (snd s)) (filter (\<lambda>k. hd (prefs h k) = new) ks))"
proof (induction ks arbitrary: s)
  case (Cons k ks)
  let ?c = "snd (cache_Get (kc_get (clock k)) (kc_evict (clock k)) k (snd s))"
  have "migrated clock ?c k' = migrated clock (snd s) k'" if "k' \<in> set ks" for k'
  proof -
    from that Cons.prems have "k' \<noteq> k" by auto
    then show ?thesis by (simp add: migrated_def view_get_other)
  qed
  then have same: "map (migrated clock ?c) (filter (\<lambda>k. hd (prefs h k) = new) ks) =
      map (migrated clock (snd s)) (filter (\<lambda>k. hd (prefs h k) = new) ks)" by simp
  from Cons show ?case by (simp add: migrate_key_eq [OF assms] same del: map_eq_conv)
qed simp

end
