(* ===== verification/Rebalance_Properties.thy ===== *)
theory Rebalance_Properties
  imports Rebalance
begin

text \<open>
  What synchronisation and rebalancing promise: a dump carries every listed live entry to the
  peer with its value, version and remaining lifetime in whole seconds; a recovering node adopts
  exactly the keys it owns on the ring; a new node is sent exactly the keys whose primary it becomes,
  and nothing is lost locally. They also show where a lifetime is lost on the way.
\<close>

section \<open>Lemmas\<close>

declare map_of_eq_Some_iff [simp del]

lemma view_key: "cache_wf c \<Longrightarrow> cache_view t c k = Some i \<Longrightarrow> it_Key i = k"
  unfolding cache_wf_def view_Some_iff by blast

lemma dumped_keys:
  assumes "cache_wf c"
  shows "map di_Key (concat (map (dumped clock c) ks)) = filter (\<lambda>k. cache_view (kc_get (clock k)) c k \<noteq> None) ks"
  by (induction ks) (auto simp: dumped_def dump_item_of_def view_key [OF assms] split: option.splits)

lemma migrated_keys:
  assumes "cache_wf c"
  shows "map di_Key (concat (map (migrated clock c) ks)) = filter (\<lambda>k. cache_view (kc_get (clock k)) c k \<noteq> None) ks"
  by (induction ks) (auto simp: migrated_def dump_item_of_def view_key [OF assms] split: option.splits)

text \<open>What a rebalance sends of a key.\<close>

definition moved_item :: "(string \<Rightarrow> key_clock) \<Rightarrow> cache \<Rightarrow> string \<Rightarrow> dump_item" where
  "moved_item clock c k =
     (let i = the (cache_view (kc_get (clock k)) c k)
      in \<lparr>di_Key = k, di_Value = it_Value i, di_TTLSeconds = item_TTLRemaining (kc_ttl (clock k)) i, di_Version = it_Version i,
          di_IsReplica = False\<rparr>)"

lemma migrated_items:
  assumes "cache_wf c"
  shows "concat (map (migrated clock c) ks) = map (moved_item clock c) (filter (\<lambda>k. cache_view (kc_get (clock k)) c k \<noteq> None) ks)"
  by (induction ks) (auto simp: migrated_def moved_item_def dump_item_of_def view_key [OF assms] split: option.splits)

lemma Keys_distinct: "range_order (c_items c) ord \<Longrightarrow> distinct (cache_Keys now ord c)"
  by (simp add: cache_Keys_def range_order_def)

lemma ttl_remaining_exact:
  assumes "it_ExpiresAt i - now < 2 ^ 23 * second"
  shows "item_TTLRemaining now i =
    (if it_ExpiresAt i = 0 then - 1 else if it_ExpiresAt i \<le> now then 0 else (it_ExpiresAt i - now) div second)"
proof (cases "it_ExpiresAt i \<noteq> 0 \<and> now < it_ExpiresAt i")
  case True
  then have "time_sub (it_ExpiresAt i) now = it_ExpiresAt i - now" using assms by (simp add: time_sub_def)
  with True assms show ?thesis by (simp add: item_TTLRemaining_def Let_def seconds_truncate)
next
  case False
  then show ?thesis by (auto simp: item_TTLRemaining_def Let_def time_sub_def)
qed

text \<open>The lifetime that survives a dump and an ingestion.\<close>

lemma ingest_ttl_dump:
  assumes "it_ExpiresAt i - now < 2 ^ 23 * second"
  shows "ingest_ttl (item_TTLRemaining now i) =
    (if it_ExpiresAt i = 0 \<or> it_ExpiresAt i - now < second then 0 else (it_ExpiresAt i - now) div second * second)"
proof (cases "it_ExpiresAt i = 0 \<or> it_ExpiresAt i - now < second")
  case True
  then show ?thesis using ttl_remaining_exact [OF assms] by (auto simp: ingest_ttl_def div_pos_pos_trivial)
next
  case False
  let ?r = "it_ExpiresAt i - now"
  have "?r div second < 2 ^ 23" using assms by (simp add: div_less_iff_less_mult)
  moreover have "0 \<le> ?r div second" using False by (intro pos_imp_zdiv_nonneg_iff [THEN iffD2]) simp_all
  ultimately have "ingest_ttl (?r div second) = ?r div second * second" by (rule ingest_ttl_exact [rotated])
  with False ttl_remaining_exact [OF assms] show ?thesis by simp
qed

lemma ingest_key_item:
  assumes "distinct (map di_Key is)" "x \<in> set is" "di_Version x \<noteq> 0"
  obtains j i where "j < length is"
    and "\<forall>t. cache_view t (snd (IngestBulkKeys clock is c)) (di_Key x) = (if item_IsExpired t i then None else Some i)"
    and "i = \<lparr>it_Key = di_Key x, it_Value = di_Value x, it_CreatedAt = clock j,
              it_ExpiresAt = (if 0 < ingest_ttl (di_TTLSeconds x) then clock j + ingest_ttl (di_TTLSeconds x) else 0),
              it_Version = di_Version x, it_IsReplica = di_IsReplica x\<rparr>"
proof -
  obtain j where j: "j < length is" "x = is ! j" using assms(2) by (metis in_set_conv_nth)
  let ?i = "\<lparr>it_Key = di_Key x, it_Value = di_Value x, it_CreatedAt = clock j,
              it_ExpiresAt = (if 0 < ingest_ttl (di_TTLSeconds x) then clock j + ingest_ttl (di_TTLSeconds x) else 0),
              it_Version = di_Version x, it_IsReplica = di_IsReplica x\<rparr>"
  have made: "cache_made (clock j) (dump_write (di_IsReplica x) x) s = ?i" for s
    by (simp add: cache_made_dump assms(3))
  have "cache_view t (snd (IngestBulkKeys clock is c)) (di_Key x) = (if item_IsExpired t ?i then None else Some ?i)" for t
    using ingest_view_key [OF assms(1) j(1), of t clock 0 c]
    unfolding j(2) [symmetric] add_0 made Let_def IngestBulkKeys_def by blast
  with j(1) show ?thesis by (intro that [of j ?i]) simp_all
qed

text \<open>A dumped entry, ingested: value, version and role are kept, the lifetime is cut to whole seconds.\<close>

lemma ingest_dumped:
  assumes items: "distinct (map di_Key is)" "dump_item_of now rep i \<in> set is" and key: "it_Key i = k" and ver: "it_Version i \<noteq> 0"
    and bound: "it_ExpiresAt i - now < 2 ^ 23 * second"
  shows "\<exists>j i'. (\<forall>t. cache_view t (snd (IngestBulkKeys clock is c)) k = (if item_IsExpired t i' then None else Some i'))
    \<and> it_Key i' = k \<and> it_Value i' = it_Value i \<and> it_Version i' = it_Version i \<and> it_IsReplica i' = rep
    \<and> it_ExpiresAt i' =
        (let left = it_ExpiresAt i - now in if it_ExpiresAt i = 0 \<or> left < second then 0 else clock j + left div second * second)"
proof -
  let ?x = "dump_item_of now rep i"
  have key': "di_Key ?x = k" using key by (simp add: dump_item_of_def)
  have ttl: "ingest_ttl (di_TTLSeconds ?x) = (if it_ExpiresAt i = 0 \<or> it_ExpiresAt i - now < second then 0
      else (it_ExpiresAt i - now) div second * second)"
    using ingest_ttl_dump [OF bound] by (simp add: dump_item_of_def)
  have pos: "\<not> it_ExpiresAt i - now < second \<Longrightarrow> 0 < (it_ExpiresAt i - now) div second * second"
    by (simp add: pos_imp_zdiv_pos_iff)
  have "di_Version ?x \<noteq> 0" using ver by (simp add: dump_item_of_def)
  then obtain j i' where V: "\<forall>t. cache_view t (snd (IngestBulkKeys clock is c)) (di_Key ?x) = (if item_IsExpired t i' then None else Some i')"
    and i': "i' = \<lparr>it_Key = di_Key ?x, it_Value = di_Value ?x, it_CreatedAt = clock j,
              it_ExpiresAt = (if 0 < ingest_ttl (di_TTLSeconds ?x) then clock j + ingest_ttl (di_TTLSeconds ?x) else 0),
              it_Version = di_Version ?x, it_IsReplica = di_IsReplica ?x\<rparr>"
    by (rule ingest_key_item [OF items])
  have "it_Key i' = k \<and> it_Value i' = it_Value i \<and> it_Version i' = it_Version i \<and> it_IsReplica i' = rep"
    using key' by (simp add: i' dump_item_of_def)
  moreover have "it_ExpiresAt i' =
      (let left = it_ExpiresAt i - now in if it_ExpiresAt i = 0 \<or> left < second then 0 else clock j + left div second * second)"
    using pos by (auto simp: i' ttl Let_def)
  ultimately show ?thesis using V unfolding key' by blast
qed

section \<open>Dump and ingestion\<close>
text \<open>A dump carried to a peer keeps the entries: for every listed key that is live when the
  dump reads it, the peer afterwards reads the same value, version and replica flag, with the
  remaining lifetime cut to whole seconds (below 97 days) counted from the moment it is stored. The
  exception is visible in the statement: an entry with less than a second to live arrives
  without expiry.\<close>

theorem rebalance_dump_ingest:
  assumes wf: "cache_wf c" and ord: "range_order (c_items c) ord" and k: "k \<in> set (cache_Keys now ord c)"
    and live: "cache_view (kc_get (clock k)) c k = Some i" and ver: "it_Version i \<noteq> 0"
    and bound: "it_ExpiresAt i - kc_ttl (clock k) < 2 ^ 23 * second"
  shows "\<exists>j i'. (\<forall>t. cache_view t (snd (IngestBulkKeys clock2 (fst (DumpLocalKeys now ord clock c)) peer)) k =
        (if item_IsExpired t i' then None else Some i'))
    \<and> it_Key i' = k \<and> it_Value i' = it_Value i \<and> it_Version i' = it_Version i \<and> it_IsReplica i' = it_IsReplica i
    \<and> it_ExpiresAt i' =
        (let left = it_ExpiresAt i - kc_ttl (clock k)
         in if it_ExpiresAt i = 0 \<or> left < second then 0 else clock2 j + left div second * second)"
proof -
  let ?ks = "cache_Keys now ord c"
  let ?x = "dump_item_of (kc_ttl (clock k)) (it_IsReplica i) i"
  have d: "distinct ?ks" using ord by (rule Keys_distinct)
  have dump: "fst (DumpLocalKeys now ord clock c) = concat (map (dumped clock c) ?ks)"
    by (simp add: DumpLocalKeys_def dump_fold [OF d])
  have dist: "distinct (map di_Key (concat (map (dumped clock c) ?ks)))" using d by (simp add: dumped_keys [OF wf])
  have x: "?x \<in> set (concat (map (dumped clock c) ?ks))" using k live by (auto simp: dumped_def intro!: bexI [of _ k])
  show ?thesis unfolding dump by (rule ingest_dumped [OF dist x view_key [OF wf live] ver bound])
qed

definition demo_src :: cache where
  "demo_src = (cache_New 0)\<lparr>c_items :=
     [(''k'', \<lparr>it_Key = ''k'', it_Value = ''v'', it_CreatedAt = 0, it_ExpiresAt = 5 * second, it_Version = 3, it_IsReplica = False\<rparr>)]\<rparr>"

lemma demo_src_wf: "cache_wf demo_src"
  by (simp add: demo_src_def cache_wf_def cache_New_def)

lemma demo_src_order: "range_order (c_items demo_src) [''k'']"
  by (simp add: range_order_def demo_src_def gm_keys_def)

theorem rebalance_dump_ingest_witness:
  "\<exists>i'. (\<forall>t. cache_view t (snd (IngestBulkKeys (\<lambda>_. 7 * second) (fst (DumpLocalKeys second [''k'']
       (\<lambda>_. \<lparr>kc_get = second, kc_evict = second, kc_ttl = 4 * second + 500\<rparr>) demo_src)) (cache_New 0))) ''k'' =
        (if item_IsExpired t i' then None else Some i'))
    \<and> it_Value i' = ''v'' \<and> it_ExpiresAt i' = 0"
proof -
  let ?i = "\<lparr>it_Key = ''k'', it_Value = ''v'', it_CreatedAt = 0, it_ExpiresAt = 5 * second, it_Version = 3, it_IsReplica = False\<rparr>"
  let ?clock = "\<lambda>_::string. \<lparr>kc_get = second, kc_evict = second, kc_ttl = 4 * second + 500\<rparr>"
  have k: "''k'' \<in> set (cache_Keys second [''k''] demo_src)" by (simp add: cache_Keys_def demo_src_def)
  have v: "cache_view (kc_get (?clock ''k'')) demo_src ''k'' = Some ?i" by (simp add: cache_view_def demo_src_def item_IsExpired_def)
  have ver: "it_Version ?i \<noteq> 0" and b: "it_ExpiresAt ?i - kc_ttl (?clock ''k'') < 2 ^ 23 * second" by simp_all
  show ?thesis
    using rebalance_dump_ingest [OF demo_src_wf demo_src_order k v ver b, of "\<lambda>_. 7 * second" "cache_New 0"] by (auto simp: Let_def)
qed

section \<open>Recovery\<close>

lemma sync_run:
  assumes "se_newRequest env (peer @ ''/internal/dump'') = None" "se_get env (peer @ ''/internal/dump'') = Inr (200, body)"
    "se_decode env body = Inr items"
  shows "SyncFromPeer env clock h mgr peer c =
    (Inr (length (adopted h (mg_selfNodeID mgr) items)), snd (IngestBulkKeys clock (adopted h (mg_selfNodeID mgr) items) c))"
  using assms by (simp add: SyncFromPeer_def Let_def sync_items_ingest ingest_items_eq IngestBulkKeys_def)

lemma adopted_length: "length (adopted h self items) \<le> length items"
  by (induction items) (simp_all split: option.split)

lemma adopted_view:
  assumes ring: "ring_exact h" and items: "distinct (map di_Key items)" and x: "x \<in> set items" "di_Version x \<noteq> 0" "self \<in> set (take 2 (prefs h (di_Key x)))"
  shows "\<exists>i j. (\<forall>t. cache_view t (snd (IngestBulkKeys clock (adopted h self items) c)) (di_Key x) = (if item_IsExpired t i then None else Some i))
      \<and> it_Key i = di_Key x \<and> it_Value i = di_Value x \<and> it_Version i = di_Version x \<and> it_IsReplica i = (self \<noteq> hd (prefs h (di_Key x)))
      \<and> j < length (adopted h self items)
      \<and> (di_TTLSeconds x \<le> 9223372036 \<longrightarrow>
          it_ExpiresAt i = (if 0 < di_TTLSeconds x then clock j + di_TTLSeconds x * second else 0))"
proof -
  let ?is = "adopted h self items" and ?y = "x\<lparr>di_IsReplica := (self \<noteq> hd (prefs h (di_Key x)))\<rparr>"
  have "?y \<in> set ?is" using x by (auto simp: adopted_mem adopt_role_prefs [OF ring])
  moreover have "di_Version ?y \<noteq> 0" using x(2) by simp
  ultimately obtain j i where "j < length ?is"
    and "\<forall>t. cache_view t (snd (IngestBulkKeys clock ?is c)) (di_Key ?y) = (if item_IsExpired t i then None else Some i)"
    and "i = \<lparr>it_Key = di_Key ?y, it_Value = di_Value ?y, it_CreatedAt = clock j,
            it_ExpiresAt = (if 0 < ingest_ttl (di_TTLSeconds ?y) then clock j + ingest_ttl (di_TTLSeconds ?y) else 0),
            it_Version = di_Version ?y, it_IsReplica = di_IsReplica ?y\<rparr>"
    by (rule ingest_key_item [OF adopted_distinct [OF items]])
  moreover have "ingest_ttl (di_TTLSeconds x) = (if 0 < di_TTLSeconds x then di_TTLSeconds x * second else 0)" if "di_TTLSeconds x \<le> 9223372036"
    using that by (simp add: ingest_ttl_def wrap64_id)
  ultimately show ?thesis by (intro exI [of _ i] exI [of _ j]) simp
qed

lemma adopted_view_other:
  "ring_exact h \<Longrightarrow> k \<notin> di_Key ` set items \<or> self \<notin> set (take 2 (prefs h k)) \<Longrightarrow>
     cache_view t (snd (IngestBulkKeys clock (adopted h self items) c)) k = cache_view t c k"
  using ingest_view_other [of k "adopted h self items" t clock 0 c] by (auto simp: IngestBulkKeys_def adopted_keys adopt_role_prefs)

lemma sync_error_unchanged: "fst (SyncFromPeer env clock h mgr peer c) = Inl e \<Longrightarrow> snd (SyncFromPeer env clock h mgr peer c) = c"
  by (auto simp: SyncFromPeer_def Let_def case_prod_unfold split: option.splits sum.splits if_splits)

text \<open>C25. A recovering node adopts from a peer's dump exactly the keys it owns: on a ring
  without collisions, \<open>SyncFromPeer\<close> stores an item of the dump exactly when this node is one of the
  first two nodes clockwise from its key, flags it as a replica exactly when it is not the first, gives it the
  lifetime of the dump counted from the moment it is stored (no expiry when that is not positive), counts what it stored, leaves every other key as it was, and changes nothing when the exchange or
  the decoding fails.\<close>

theorem rebalance_sync_adopts_owned:
  assumes ring: "ring_exact h"
    and reply: "se_newRequest env (peer @ ''/internal/dump'') = None"
      "se_get env (peer @ ''/internal/dump'') = Inr (200, body)" "se_decode env body = Inr items"
    and items: "distinct (map di_Key items)" "\<forall>x\<in>set items. di_Version x \<noteq> 0"
  shows "fst (SyncFromPeer env clock h mgr peer c) =
      Inr (length (filter (\<lambda>x. mg_selfNodeID mgr \<in> set (take 2 (prefs h (di_Key x)))) items))
    \<and> (\<forall>x\<in>set items. mg_selfNodeID mgr \<in> set (take 2 (prefs h (di_Key x))) \<longrightarrow>
        (\<exists>i j. (\<forall>t. cache_view t (snd (SyncFromPeer env clock h mgr peer c)) (di_Key x) = (if item_IsExpired t i then None else Some i))
           \<and> it_Value i = di_Value x \<and> it_Version i = di_Version x
           \<and> it_IsReplica i = (mg_selfNodeID mgr \<noteq> hd (prefs h (di_Key x)))
           \<and> j < length (filter (\<lambda>x. mg_selfNodeID mgr \<in> set (take 2 (prefs h (di_Key x)))) items)
           \<and> (di_TTLSeconds x \<le> 9223372036 \<longrightarrow>
               it_ExpiresAt i = (if 0 < di_TTLSeconds x then clock j + di_TTLSeconds x * second else 0))))
    \<and> (\<forall>k t. k \<notin> di_Key ` set items \<or> mg_selfNodeID mgr \<notin> set (take 2 (prefs h k)) \<longrightarrow>
        cache_view t (snd (SyncFromPeer env clock h mgr peer c)) k = cache_view t c k)
    \<and> (\<forall>env' e. fst (SyncFromPeer env' clock h mgr peer c) = Inl e \<longrightarrow> snd (SyncFromPeer env' clock h mgr peer c) = c)"
proof (intro conjI ballI allI impI)
  let ?self = "mg_selfNodeID mgr" and ?is = "adopted h (mg_selfNodeID mgr) items"
  note run = sync_run [OF reply]
  have len: "length (adopted h ?self xs) = length (filter (\<lambda>x. ?self \<in> set (take 2 (prefs h (di_Key x)))) xs)" for xs
    by (induction xs) (auto simp: adopt_role_prefs [OF ring])
  show "fst (SyncFromPeer env clock h mgr peer c) = Inr (length (filter (\<lambda>x. ?self \<in> set (take 2 (prefs h (di_Key x)))) items))"
    by (simp add: run len)
  show "\<exists>i j. (\<forall>t. cache_view t (snd (SyncFromPeer env clock h mgr peer c)) (di_Key x) = (if item_IsExpired t i then None else Some i))
      \<and> it_Value i = di_Value x \<and> it_Version i = di_Version x \<and> it_IsReplica i = (?self \<noteq> hd (prefs h (di_Key x)))
      \<and> j < length (filter (\<lambda>x. ?self \<in> set (take 2 (prefs h (di_Key x)))) items)
      \<and> (di_TTLSeconds x \<le> 9223372036 \<longrightarrow> it_ExpiresAt i = (if 0 < di_TTLSeconds x then clock j + di_TTLSeconds x * second else 0))"
    if "x \<in> set items" "?self \<in> set (take 2 (prefs h (di_Key x)))" for x
    unfolding run snd_conv len [symmetric] using adopted_view [OF ring items(1)] items(2) that by blast
  show "cache_view t (snd (SyncFromPeer env clock h mgr peer c)) k = cache_view t c k"
    if "k \<notin> di_Key ` set items \<or> ?self \<notin> set (take 2 (prefs h k))" for k t
    unfolding run snd_conv by (rule adopted_view_other [OF ring that])
  show "snd (SyncFromPeer env' clock h mgr peer c) = c" if "fst (SyncFromPeer env' clock h mgr peer c) = Inl e" for env' e
    using that by (rule sync_error_unchanged)
qed

definition demo_dump :: "dump_item list" where
  "demo_dump = [\<lparr>di_Key = ''k'', di_Value = ''v'', di_TTLSeconds = 9, di_Version = 2, di_IsReplica = False\<rparr>]"

definition demo_sync_env :: sync_env where
  "demo_sync_env = \<lparr>se_newRequest = (\<lambda>_. None), se_get = (\<lambda>_. Inr (200, [])), se_decode = (\<lambda>_. Inr demo_dump), se_post = (\<lambda>_ _. Inr 500)\<rparr>"

theorem rebalance_sync_adopts_owned_witness:
  "\<exists>i. cache_view 1 (snd (SyncFromPeer demo_sync_env (\<lambda>_. 1) demo_ring (NewManager ''BB'' ''http://b'' 0) ''http://a'' (cache_New 0))) ''k'' = Some i
     \<and> it_Value i = ''v'' \<and> it_IsReplica i"
proof -
  have r: "se_newRequest demo_sync_env (''http://a'' @ ''/internal/dump'') = None"
    "se_get demo_sync_env (''http://a'' @ ''/internal/dump'') = Inr (200, [])" "se_decode demo_sync_env [] = Inr demo_dump"
    "distinct (map di_Key demo_dump)" "\<forall>x\<in>set demo_dump. di_Version x \<noteq> 0"
    by (simp_all add: demo_sync_env_def demo_dump_def)
  let ?x = "\<lparr>di_Key = ''k'', di_Value = ''v'', di_TTLSeconds = 9, di_Version = 2, di_IsReplica = False\<rparr>"
  let ?c = "snd (SyncFromPeer demo_sync_env (\<lambda>_. 1) demo_ring (NewManager ''BB'' ''http://b'' 0) ''http://a'' (cache_New 0))"
  note * = rebalance_sync_adopts_owned [OF demo_ring_exact r, of "\<lambda>_. 1" "NewManager ''BB'' ''http://b'' 0" "cache_New 0"]
  have x: "?x \<in> set demo_dump" "mg_selfNodeID (NewManager ''BB'' ''http://b'' 0) = ''BB''" by (simp_all add: demo_dump_def NewManager_def)
  obtain i where "\<forall>t. cache_view t ?c ''k'' = (if item_IsExpired t i then None else Some i)" "it_Value i = ''v''" "it_IsReplica i"
    using *[THEN conjunct2, THEN conjunct1] x by (fastforce simp: demo_ring_prefs)
  moreover have "\<not> item_IsExpired 1 i" if "cache_view 1 ?c ''k'' = (if item_IsExpired 1 i then None else Some i)"
    using that r by (simp add: SyncFromPeer_def demo_dump_def adopt_role_def demo_ring_two NewManager_def cache_view_def
        set_state set_item ingest_ttl_def wrap64_def item_IsExpired_def cache_New_def split: if_splits)
  ultimately show ?thesis by (metis (no_types, lifting))
qed


section \<open>Growth\<close>

text \<open>C18. A rebalance for a new node sends exactly what moves and loses nothing. It puts the node on the ring; every key keeps its
  primary or moves to the new node. The keys that move are the listed live keys whose primary the new node becomes. When there are any, they
  are posted to the new node in one message, each with the value, the version and the remaining lifetime of its live entry and not flagged
  as a replica: the outcome is the one of that exchange, an error when it fails, a report otherwise, whatever the status. When there are
  none, nothing is posted and there is a report. The report is recorded and counts the keys listed and sent, and every key remains readable
  locally as before.\<close>

theorem rebalance_new_node:
  assumes wf: "cache_wf c" and ord: "range_order (c_items c) ord"
    and ring: "ring_exact h" "ring_ids h \<noteq> []" "ring_joinable h n" "n = a \<or> \<not> ring_has h a"
    and run: "RebalanceForNewNode env clock ord n a mgr h c = (res, mgr', h', c')"
    and ks: "ks = cache_Keys (bc_keys clock) ord c"
    and moved: "moved = filter (\<lambda>k. hd (prefs h' k) = n \<and> cache_view (kc_get (bc_key clock k)) c k \<noteq> None) ks"
    and url: "url = a @ ''/internal/sync/bulk''"
    and msg: "msg = \<lparr>bp_SourceNode = mg_selfNodeID mgr, bp_Items = map (moved_item (bc_key clock) c) moved\<rparr>"
  shows "h' = ring_AddNode n a h
    \<and> hd (prefs h' k) \<in> {n, hd (prefs h k)}
    \<and> ((\<forall>k. kc_get (bc_key clock k) \<le> t) \<longrightarrow> cache_view t c' k = cache_view t c k)
    \<and> (case (if moved = [] then None
             else case se_newRequest env url of
                    Some e \<Rightarrow> Some (SyncErr e)
                  | None \<Rightarrow> (case se_post env url msg of
                               Inl e \<Rightarrow> Some (SyncErr (''bulk transfer to new node '' @ a @ '' failed: '' @ e))
                             | Inr status \<Rightarrow> None)) of
         Some err \<Rightarrow> res = Inl err \<and> mgr' = mgr
       | None \<Rightarrow> (\<exists>report. res = Inr report \<and> mgr' = mgr\<lparr>mg_reports := mg_reports mgr @ [report]\<rparr>
           \<and> rb_KeysEvaluated report = int (length ks) \<and> rb_KeysMoved report = int (length moved)))"
proof (intro conjI impI allI)
  let ?h = "ring_AddNode n a h"
  have eq: "?h = ring_insert n a h"
    using ring(3,4) ring_exact_has [OF ring(1), of n] by (intro ring_AddNode_insert) (auto simp: ring_joinable_def)
  have ex: "ring_exact ?h" unfolding eq by (rule ringp.valid_join [OF ring(1,3)])
  have ids: "set (ring_ids ?h) = insert n (set (ring_ids h))" unfolding eq by (rule ringp.members_join [OF ring(1,3)])
  note ne = ring_ids_ne [OF ids]
  have h': "h' = ?h" and c': "c' = snd (collect_migration (bc_key clock) ?h n ks c)"
    using run unfolding ks by (auto simp: RebalanceForNewNode_def Let_def case_prod_unfold split: option.splits)
  show "h' = ?h" by (rule h')
  have items: "fst (collect_migration (bc_key clock) ?h n (cache_Keys (bc_keys clock) ord c) c) = map (moved_item (bc_key clock) c) moved"
    unfolding collect_migration_def migrate_fold [OF ex ne Keys_distinct [OF ord]] moved ks h'
    by (simp add: migrated_items [OF wf] conj_commute del: map_concat)
  show "hd (prefs h' k) \<in> {n, hd (prefs h k)}"
    unfolding h' eq using ring(2) by (intro ringp.primary_after_join [OF ring(1,3)]) auto
  show "cache_view t c' k = cache_view t c k" if "\<forall>k. kc_get (bc_key clock k) \<le> t"
    unfolding c' collect_migration_def using that by (simp add: migrate_view [OF ex ne])
  show "case (if moved = [] then None
             else case se_newRequest env url of
                    Some e \<Rightarrow> Some (SyncErr e)
                  | None \<Rightarrow> (case se_post env url msg of
                               Inl e \<Rightarrow> Some (SyncErr (''bulk transfer to new node '' @ a @ '' failed: '' @ e))
                             | Inr status \<Rightarrow> None)) of
         Some err \<Rightarrow> res = Inl err \<and> mgr' = mgr
       | None \<Rightarrow> (\<exists>report. res = Inr report \<and> mgr' = mgr\<lparr>mg_reports := mg_reports mgr @ [report]\<rparr>
           \<and> rb_KeysEvaluated report = int (length ks) \<and> rb_KeysMoved report = int (length moved))"
    using run unfolding msg url ks
    by (cases "moved = []"; cases "se_newRequest env (a @ ''/internal/sync/bulk'')")
      (auto simp: RebalanceForNewNode_def Let_def case_prod_unfold items split: sum.splits)
qed

definition demo_moving :: cache where
  "demo_moving = (cache_New 0)\<lparr>c_items :=
     [(''0123456789ab'', \<lparr>it_Key = ''0123456789ab'', it_Value = ''v'', it_CreatedAt = 0, it_ExpiresAt = 0, it_Version = 1, it_IsReplica = False\<rparr>),
      (''k'', \<lparr>it_Key = ''k'', it_Value = ''w'', it_CreatedAt = 0, it_ExpiresAt = 0, it_Version = 1, it_IsReplica = False\<rparr>)]\<rparr>"

definition demo_clock :: rebalance_clock where
  "demo_clock = \<lparr>bc_start = 1, bc_keys = 1, bc_key = (\<lambda>_. \<lparr>kc_get = 1, kc_evict = 1, kc_ttl = 1\<rparr>), bc_end = 1, bc_id = 1\<rparr>"

lemma demo_moving_wf: "cache_wf demo_moving" "range_order (c_items demo_moving) [''k'', ''0123456789ab'']"
  by (auto simp: demo_moving_def cache_wf_def cache_New_def range_order_def gm_keys_def)

lemma demo_grown_prefs:
  "hd (prefs (ring_AddNode ''DDDD'' ''http://d'' demo_ring) ''0123456789ab'') = ''DDDD''"
  "hd (prefs (ring_AddNode ''DDDD'' ''http://d'' demo_ring) ''k'') = ''A''"
  by (simp_all add: demo_ring_eq ring_AddNode_def addVNode_def vnodeKey_def itoa_def nat_digits.simps gm_get_def
      prefs_def clockwise_def demo_hash_def Let_def ring_internalRemoveNode_def)

text \<open>A network that refuses exactly the message expected.\<close>

definition demo_bulk :: bulk_sync_payload where
  "demo_bulk = \<lparr>bp_SourceNode = ''A'',
     bp_Items = [\<lparr>di_Key = ''0123456789ab'', di_Value = ''v'', di_TTLSeconds = - 1, di_Version = 1, di_IsReplica = False\<rparr>]\<rparr>"

definition demo_refusing_env :: sync_env where
  "demo_refusing_env = demo_sync_env\<lparr>se_post := (\<lambda>url p. if url = ''http://d/internal/sync/bulk'' \<and> p = demo_bulk then Inl ''refused'' else Inr 200)\<rparr>"

theorem rebalance_new_node_witness:
  "fst (RebalanceForNewNode demo_refusing_env demo_clock [''k'', ''0123456789ab''] ''DDDD'' ''http://d'' (NewManager ''A'' ''http://a'' 0) demo_ring demo_moving)
     = Inl (SyncErr ''bulk transfer to new node http://d failed: refused'')"
proof -
  let ?h = "ring_AddNode ''DDDD'' ''http://d'' demo_ring"
  have ids: "ring_ids demo_ring \<noteq> []" and free: "''DDDD'' = ''http://d'' \<or> \<not> ring_has demo_ring ''http://d''"
    by (simp_all add: demo_ring_eq gm_keys_def gm_get_def)
  obtain res mgr' h' c' where run: "RebalanceForNewNode demo_refusing_env demo_clock [''k'', ''0123456789ab''] ''DDDD'' ''http://d''
      (NewManager ''A'' ''http://a'' 0) demo_ring demo_moving = (res, mgr', h', c')" by (metis prod_cases4)
  have live: "cache_view 1 demo_moving k \<noteq> None \<longleftrightarrow> k = ''0123456789ab'' \<or> k = ''k''" for k
    by (simp add: cache_view_def demo_moving_def item_IsExpired_def)
  have cl: "bc_keys demo_clock = 1" "kc_get (bc_key demo_clock k) = 1" for k by (simp_all add: demo_clock_def)
  have keys: "[''k'', ''0123456789ab''] = cache_Keys (bc_keys demo_clock) [''k'', ''0123456789ab''] demo_moving"
    by (simp add: cache_Keys_def demo_moving_def)
  have moved: "[''0123456789ab''] = filter (\<lambda>k. hd (prefs ?h k) = ''DDDD'' \<and> cache_view (kc_get (bc_key demo_clock k)) demo_moving k \<noteq> None)
      [''k'', ''0123456789ab'']"
    by (simp only: cl live filter.simps demo_grown_prefs) simp
  have url: "''http://d/internal/sync/bulk'' = ''http://d'' @ ''/internal/sync/bulk''" by simp
  have msg: "demo_bulk = \<lparr>bp_SourceNode = mg_selfNodeID (NewManager ''A'' ''http://a'' 0),
      bp_Items = map (moved_item (bc_key demo_clock) demo_moving) [''0123456789ab'']\<rparr>"
    by (simp add: demo_bulk_def NewManager_def moved_item_def demo_clock_def cache_view_def demo_moving_def item_IsExpired_def item_TTLRemaining_def)
  have h': "h' = ?h" using run by (auto simp: RebalanceForNewNode_def Let_def case_prod_unfold split: option.splits)
  have env: "se_newRequest demo_refusing_env u = None" "se_post demo_refusing_env ''http://d/internal/sync/bulk'' demo_bulk = Inl ''refused''" for u
    by (simp_all add: demo_refusing_env_def demo_sync_env_def)
  show ?thesis
    unfolding run fst_conv
    using rebalance_new_node [OF demo_moving_wf demo_ring_exact ids demo_ring_joinable free run keys moved [folded h'] url msg]
    by (simp add: env)
qed

text \<open>The outcome of the transfer: an exchange that fails returns its error and records no
  report, but the new node stays on the ring without the keys; and any HTTP status,
  an error status included, counts as success: the report says \<open>COMPLETED\<close>.\<close>

theorem rebalance_transfer_outcome:
  assumes "collect_migration (bc_key clock) (ring_AddNode n a h) n (cache_Keys (bc_keys clock) ord c) c = (x # xs, c')"
    and "se_newRequest env (a @ ''/internal/sync/bulk'') = None"
  shows "case se_post env (a @ ''/internal/sync/bulk'') \<lparr>bp_SourceNode = mg_selfNodeID mgr, bp_Items = x # xs\<rparr> of
      Inl e \<Rightarrow> RebalanceForNewNode env clock ord n a mgr h c = 
        (Inl (SyncErr (''bulk transfer to new node '' @ a @ '' failed: '' @ e)), mgr, ring_AddNode n a h, c')
    | Inr status \<Rightarrow> (\<exists>report. rb_Status report = ''COMPLETED'' \<and> rb_KeysMoved report = int (length (x # xs))
        \<and> RebalanceForNewNode env clock ord n a mgr h c =
            (Inr report, mgr\<lparr>mg_reports := mg_reports mgr @ [report]\<rparr>, ring_AddNode n a h, c'))"
  using assms by (simp add: RebalanceForNewNode_def Let_def case_prod_unfold split: sum.splits)

theorem rebalance_transfer_outcome_witness:
  "\<exists>report mgr h c. rb_Status report = ''COMPLETED'' \<and>
     RebalanceForNewNode demo_sync_env demo_clock [''k'', ''0123456789ab''] ''DDDD'' ''http://d'' (NewManager ''A'' ''http://a'' 0) demo_ring demo_moving
       = (Inr report, mgr, h, c)"
proof -
  let ?h = "ring_AddNode ''DDDD'' ''http://d'' demo_ring"
  obtain xs c' where m: "collect_migration (bc_key demo_clock) ?h ''DDDD'' (cache_Keys (bc_keys demo_clock) [''k'', ''0123456789ab''] demo_moving) demo_moving = (xs, c')"
    by fastforce
  have keys: "cache_Keys (bc_keys demo_clock) [''k'', ''0123456789ab''] demo_moving = [''k'', ''0123456789ab'']"
    by (simp add: cache_Keys_def demo_moving_def demo_clock_def)
  have eq: "?h = ring_insert ''DDDD'' ''http://d'' demo_ring"
    by (intro ring_AddNode_insert) (simp_all add: demo_ring_eq gm_get_def)
  have ex: "ring_exact ?h" unfolding eq by (rule ringp.valid_join [OF demo_ring_exact demo_ring_joinable])
  have ne: "ring_ids ?h \<noteq> []" by (rule ring_ids_ne) (use ringp.members_join [OF demo_ring_exact demo_ring_joinable] eq in simp)
  have d: "distinct [''k'', ''0123456789ab'']" by simp
  have "fst (collect_migration (bc_key demo_clock) ?h ''DDDD'' [''k'', ''0123456789ab''] demo_moving) =
      migrated (bc_key demo_clock) demo_moving ''0123456789ab''"
    unfolding collect_migration_def migrate_fold [OF ex ne d] by (simp add: demo_grown_prefs)
  moreover have "migrated (bc_key demo_clock) demo_moving ''0123456789ab'' \<noteq> []"
    by (simp add: migrated_def demo_clock_def cache_view_def demo_moving_def item_IsExpired_def)
  ultimately have "xs \<noteq> []" using m unfolding keys by simp
  then obtain y ys where "xs = y # ys" by (cases xs) auto
  with rebalance_transfer_outcome [of demo_clock "''DDDD''" "''http://d''" demo_ring "[''k'', ''0123456789ab'']" demo_moving y ys c' demo_sync_env
      "NewManager ''A'' ''http://a'' 0"] m
  show ?thesis by (auto simp: demo_sync_env_def)
qed

end
