(* ===== verification/Go_Strings.thy ===== *)
theory Go_Strings
  imports SHC_Prelude
begin

text \<open>
  The parts of Go's \<^verbatim>\<open>strings\<close>, \<^verbatim>\<open>fmt\<close> and \<^verbatim>\<open>regexp\<close> packages the node server uses, on strings as byte
  lists (UTF-8): trimming of white space, \<^verbatim>\<open>Sscanf\<close> with \<^verbatim>\<open>%d\<close>, splitting at a separator, and the
  four regular expressions of the server's tolerant field extraction.
\<close>

section \<open>Definitions\<close>

subsection \<open>White space\<close>

abbreviation code :: "char \<Rightarrow> nat" where
  "code c \<equiv> of_char c"

text \<open>The length in bytes of a leading white-space rune (\<^verbatim>\<open>unicode.IsSpace\<close>), 0 when there is none.\<close>

definition space_len :: "string \<Rightarrow> nat" where
  "space_len s =
     (case s of [] \<Rightarrow> 0 | a # r \<Rightarrow>
        if code a \<in> {9, 10, 11, 12, 13, 32} then 1
        else (case r of [] \<Rightarrow> 0 | b # r' \<Rightarrow>
          if code a = 194 \<and> code b \<in> {133, 160} then 2
          else (case r' of [] \<Rightarrow> 0 | c # _ \<Rightarrow>
            if code a = 225 \<and> code b = 154 \<and> code c = 128
              \<or> code a = 226 \<and> code b = 128 \<and> (128 \<le> code c \<and> code c \<le> 138 \<or> code c \<in> {168, 169, 175})
              \<or> code a = 226 \<and> code b = 129 \<and> code c = 159
              \<or> code a = 227 \<and> code b = 128 \<and> code c = 128
            then 3 else 0)))"

lemma space_len_drop: "space_len s \<noteq> 0 \<Longrightarrow> length (drop (space_len s) s) < length s"
  by (cases s) (simp_all, simp add: space_len_def)

function trim_left :: "string \<Rightarrow> string" where
  "trim_left s = (if space_len s = 0 then s else trim_left (drop (space_len s) s))"
  by auto
termination
  by (relation "measure length") (use space_len_drop in simp_all)

declare trim_left.simps [simp del]

definition space_suffix :: "string \<Rightarrow> nat" where
  "space_suffix s =
     (if 1 \<le> length s \<and> space_len (drop (length s - 1) s) = 1 then 1
      else if 2 \<le> length s \<and> space_len (drop (length s - 2) s) = 2 then 2
      else if 3 \<le> length s \<and> space_len (drop (length s - 3) s) = 3 then 3 else 0)"

function trim_right :: "string \<Rightarrow> string" where
  "trim_right s = (if space_suffix s = 0 then s else trim_right (take (length s - space_suffix s) s))"
  by auto
termination
  by (relation "measure length") (auto simp: space_suffix_def split: if_splits)

declare trim_right.simps [simp del]

definition TrimSpace :: "string \<Rightarrow> string" where
  "TrimSpace s = trim_right (trim_left s)"

subsection \<open>Scanning a decimal integer\<close>

definition is_digit :: "char \<Rightarrow> bool" where
  "is_digit c \<longleftrightarrow> 48 \<le> code c \<and> code c \<le> 57"

text \<open>Leading space is skipped; a newline in it is an error.\<close>

function skip_space :: "string \<Rightarrow> string option" where
  "skip_space s =
     (if s \<noteq> [] \<and> code (hd s) = 10 then None
      else if space_len s = 0 then Some s else skip_space (drop (space_len s) s))"
  by auto
termination
  by (relation "measure length") (use space_len_drop in simp_all)

declare skip_space.simps [simp del]

definition digits_value :: "string \<Rightarrow> int" where
  "digits_value ds = foldl (\<lambda>n c. n * 10 + (int (code c) - 48)) 0 ds"

definition Sscanf_d :: "string \<Rightarrow> int option" where
  "Sscanf_d s =
     (case skip_space s of
        None \<Rightarrow> None
      | Some r \<Rightarrow>
          let (neg, r1) = (case r of c # cs \<Rightarrow> if c = CHR ''-'' then (True, cs) else if c = CHR ''+'' then (False, cs) else (False, r)
                                   | [] \<Rightarrow> (False, []));
              ds = takeWhile is_digit r1;
              v = (if neg then - digits_value ds else digits_value ds)
          in if ds = [] then None else if - (2 ^ 63) \<le> v \<and> v < 2 ^ 63 then Some v else None)"

subsection \<open>Splitting\<close>

text \<open>\<^verbatim>\<open>strings.SplitN(s, c, 2)\<close> on a string that contains \<open>c\<close>.\<close>

definition split_at_char :: "char \<Rightarrow> string \<Rightarrow> string \<times> string" where
  "split_at_char c s = (takeWhile (\<lambda>x. x \<noteq> c) s, tl (dropWhile (\<lambda>x. x \<noteq> c) s))"

subsection \<open>Tolerant field extraction\<close>

definition re_space :: "char \<Rightarrow> bool" where
  "re_space c \<longleftrightarrow> code c \<in> {9, 10, 12, 13, 32}"

definition re_word :: "char \<Rightarrow> bool" where
  "re_word c \<longleftrightarrow> is_digit c \<or> 65 \<le> code c \<and> code c \<le> 90 \<or> 97 \<le> code c \<and> code c \<le> 122 \<or> c = CHR ''_''"

fun strip_prefix :: "string \<Rightarrow> string \<Rightarrow> string option" where
  "strip_prefix [] s = Some s"
| "strip_prefix (p # ps) [] = None"
| "strip_prefix (p # ps) (c # cs) = (if p = c then strip_prefix ps cs else None)"

text \<open>\<^verbatim>\<open>\s*:\s*\<close>\<close>

definition re_colon :: "string \<Rightarrow> string option" where
  "re_colon s = (case dropWhile re_space s of c # r \<Rightarrow> if c = CHR '':'' then Some (dropWhile re_space r) else None | [] \<Rightarrow> None)"

abbreviation dquote :: char where
  "dquote \<equiv> CHR 0x22"

text \<open>\<^verbatim>\<open>"([^"]+)"\<close> and \<^verbatim>\<open>([^,}\s]+)\<close>\<close>

definition re_quoted :: "string \<Rightarrow> string option" where
  "re_quoted s =
     (case s of
        c # r \<Rightarrow> (let v = takeWhile (\<lambda>x. x \<noteq> dquote) r
                  in if c = dquote \<and> v \<noteq> [] \<and> length v < length r then Some v else None)
      | [] \<Rightarrow> None)"

definition re_bare :: "string \<Rightarrow> string option" where
  "re_bare s = (let v = takeWhile (\<lambda>x. x \<noteq> CHR '','' \<and> x \<noteq> CHR ''}'' \<and> \<not> re_space x) s in if v \<noteq> [] then Some v else None)"

text \<open>One of the four patterns at one position: whether the field name is quoted, else preceded by a
  word boundary, and whether the value is quoted.\<close>

definition match_at :: "bool \<Rightarrow> bool \<Rightarrow> string \<Rightarrow> char option \<Rightarrow> string \<Rightarrow> string option" where
  "match_at qname qval field prev s =
     (if \<not> qname \<and> (case prev of Some c \<Rightarrow> re_word c | None \<Rightarrow> False) then None
      else case strip_prefix (if qname then [dquote] @ field @ [dquote] else field) s of
             None \<Rightarrow> None
           | Some r \<Rightarrow> (case re_colon r of
               None \<Rightarrow> None
             | Some r' \<Rightarrow> if qval then re_quoted r' else re_bare r'))"

text \<open>The leftmost match.\<close>

fun find_match :: "bool \<Rightarrow> bool \<Rightarrow> string \<Rightarrow> char option \<Rightarrow> string \<Rightarrow> string option" where
  "find_match qname qval field prev [] = match_at qname qval field prev []"
| "find_match qname qval field prev (c # cs) =
     (case match_at qname qval field prev (c # cs) of
        Some v \<Rightarrow> Some v
      | None \<Rightarrow> find_match qname qval field (Some c) cs)"

definition trim_cutset :: "string \<Rightarrow> string" where
  "trim_cutset s =
     (let cut = (\<lambda>c. c = dquote \<or> code c = 39 \<or> c = CHR '' '')
      in rev (dropWhile cut (rev (dropWhile cut s))))"

definition extractField :: "string \<Rightarrow> string \<Rightarrow> string" where
  "extractField raw field =
     (case find_match True True field None raw of Some v \<Rightarrow> trim_cutset v | None \<Rightarrow>
      (case find_match True False field None raw of Some v \<Rightarrow> trim_cutset v | None \<Rightarrow>
       (case find_match False True field None raw of Some v \<Rightarrow> trim_cutset v | None \<Rightarrow>
        (case find_match False False field None raw of Some v \<Rightarrow> trim_cutset v | None \<Rightarrow> []))))"

section \<open>Lemmas\<close>

text \<open>Sample runs of the extraction on what a shell that strips quotes sends.\<close>

lemma extractField_samples:
  "extractField ''{key:user:123,value:Rushabh_Rocks}'' ''key'' = ''user:123''"
  "extractField ''{key:user:123,value:Rushabh_Rocks}'' ''value'' = ''Rushabh_Rocks''"
  "Sscanf_d '' 42s'' = Some 42"
  by code_simp+

end
