(* ===== verification/Peer_Manager.thy ===== *)
theory Peer_Manager
  imports Go_Float "HOL-Library.Multiset"
begin

text \<open>
  Node-to-node status checks (\<^verbatim>\<open>backend/internal/cluster/peer.go\<close>): one definition per method.
  What a check meets outside the program is the record \<open>peer_env\<close>; \<open>CheckAllPeers\<close> starts one
  goroutine per configured peer, so it takes one environment per goroutine and the order in which
  they store their results.
\<close>

section \<open>Definitions\<close>

record internal_health =
  ih_Status :: string
  ih_NodeID :: string
  ih_State :: string
  ih_Addr :: string
  ih_PrimaryKeys :: int
  ih_ReplicaKeys :: int
  ih_HitCount :: u64
  ih_UptimeSeconds :: int

record internal_stats =
  is_NodeID :: string
  is_State :: string
  is_TotalKeys :: int
  is_HitCount :: u64
  is_MissCount :: u64
  is_SetCount :: u64
  is_DeleteCount :: u64
  is_ExpiredCount :: u64
  is_UptimeSeconds :: int

record peer_status =
  ps_Addr :: string
  ps_Reachable :: bool
  ps_LatencyMs :: int
  ps_NodeID :: string
  ps_State :: string
  ps_Stats :: "internal_stats option"
  ps_LastError :: string
  ps_LastChecked :: gtime

record peer_manager =
  pm_selfNodeID :: string
  pm_selfAddr :: string
  pm_peers :: "string list"
  pm_timeout :: duration
  pm_peerStates :: "(string, peer_status) gomap"

record peer_env =
  pv_newRequest :: "string \<Rightarrow> string option"
  pv_do :: "string \<Rightarrow> string + int \<times> string"
  pv_decodeHealth :: "string \<Rightarrow> string + internal_health"
  pv_decodeStats :: "string \<Rightarrow> string + internal_stats"
  pv_start :: gtime
  pv_done :: gtime
  pv_now :: gtime

definition empty_status :: "string \<Rightarrow> int \<Rightarrow> gtime \<Rightarrow> peer_status" where
  "empty_status addr latency now =
     \<lparr>ps_Addr = addr, ps_Reachable = False, ps_LatencyMs = latency, ps_NodeID = [], ps_State = [], ps_Stats = None,
      ps_LastError = [], ps_LastChecked = now\<rparr>"

definition NewPeerManager :: "string \<Rightarrow> string \<Rightarrow> string list \<Rightarrow> duration \<Rightarrow> peer_manager" where
  "NewPeerManager selfNodeID selfAddr peers timeout =
     \<lparr>pm_selfNodeID = selfNodeID, pm_selfAddr = selfAddr, pm_peers = peers,
      pm_timeout = (if timeout \<le> 0 then 2 * second else timeout),
      pm_peerStates = fold (\<lambda>p m. gm_put p (empty_status p 0 0) m) peers []\<rparr>"

text \<open>The health, the latency and the error of a ping.\<close>

definition PingPeer :: "peer_env \<Rightarrow> string \<Rightarrow> internal_health option \<times> int \<times> string option" where
  "PingPeer env peerAddr =
     (let url = peerAddr @ ''/internal/health''
      in case pv_newRequest env url of
           Some err \<Rightarrow> (None, 0, Some err)
         | None \<Rightarrow>
             let latency = dur_Milliseconds (time_sub (pv_done env) (pv_start env))
             in case pv_do env url of
                  Inl err \<Rightarrow> (None, latency, Some (''ping failed: '' @ err))
                | Inr (status, body) \<Rightarrow>
                    if status \<noteq> 200 then (None, latency, Some (''unexpected status code: '' @ itoa status))
                    else (case pv_decodeHealth env body of
                            Inl err \<Rightarrow> (None, latency, Some (''failed to decode response: '' @ err))
                          | Inr h \<Rightarrow> (Some h, latency, None)))"

definition FetchPeerStats :: "peer_env \<Rightarrow> string \<Rightarrow> string + internal_stats" where
  "FetchPeerStats env peerAddr =
     (let url = peerAddr @ ''/internal/stats''
      in case pv_newRequest env url of
           Some err \<Rightarrow> Inl err
         | None \<Rightarrow>
             (case pv_do env url of
                Inl err \<Rightarrow> Inl (''fetch stats failed: '' @ err)
              | Inr (status, body) \<Rightarrow>
                  if status \<noteq> 200 then Inl (''unexpected status code: '' @ itoa status)
                  else (case pv_decodeStats env body of
                          Inl err \<Rightarrow> Inl (''failed to decode stats: '' @ err)
                        | Inr st \<Rightarrow> Inr st)))"

text \<open>The status one goroutine of \<open>CheckAllPeers\<close> arrives at.\<close>

definition check_peer :: "peer_env \<Rightarrow> string \<Rightarrow> peer_status" where
  "check_peer env addr =
     (let (health, latency, err) = PingPeer env addr;
          status = empty_status addr latency (pv_now env)
      in case err of
           Some e \<Rightarrow> status\<lparr>ps_Reachable := False, ps_LastError := e\<rparr>
         | None \<Rightarrow>
             (case health of
                Some h \<Rightarrow>
                  status\<lparr>ps_Reachable := True, ps_NodeID := ih_NodeID h, ps_State := ih_State h,
                         ps_Stats := (case FetchPeerStats env addr of Inr st \<Rightarrow> Some st | Inl _ \<Rightarrow> None)\<rparr>
              | None \<Rightarrow> status))"

definition store_status :: "string \<Rightarrow> peer_status \<Rightarrow> (string, peer_status) gomap \<times> peer_manager \<Rightarrow> (string, peer_status) gomap \<times> peer_manager" where
  "store_status addr status s =
     (gm_put addr status (fst s), (snd s)\<lparr>pm_peerStates := gm_put addr status (pm_peerStates (snd s))\<rparr>)"

definition CheckAllPeers ::
  "(nat \<Rightarrow> peer_env) \<Rightarrow> nat list \<Rightarrow> peer_manager \<Rightarrow> (string, peer_status) gomap \<times> peer_manager" where
  "CheckAllPeers env ord pm =
     fold (\<lambda>j. store_status (pm_peers pm ! j) (check_peer (env j) (pm_peers pm ! j))) ord ([], pm)"

definition GetPeersStatus :: "peer_manager \<Rightarrow> (string, peer_status) gomap" where
  "GetPeersStatus pm = fold (\<lambda>(k, v) m. gm_put k v m) (pm_peerStates pm) []"

definition Peers :: "peer_manager \<Rightarrow> string list" where
  "Peers pm = [] @ pm_peers pm"

section \<open>Lemmas\<close>

text \<open>An order of the goroutines: each one once.\<close>

definition schedule :: "peer_manager \<Rightarrow> nat list \<Rightarrow> bool" where
  "schedule pm ord \<longleftrightarrow> mset ord = mset [0..<length (pm_peers pm)]"

lemma schedule_set: "schedule pm ord \<Longrightarrow> set ord = {0..<length (pm_peers pm)} \<and> distinct ord"
  unfolding schedule_def by (metis atLeastLessThan_upt distinct_upt mset_eq_imp_distinct_iff set_mset_mset)

lemma store_fold:
  fixes ps :: "string list"
  assumes "distinct ps"
  shows "distinct js \<Longrightarrow> \<forall>j\<in>set js. j < length ps \<Longrightarrow> j \<in> set js \<Longrightarrow>
    map_of (fst (fold (\<lambda>j. store_status (ps ! j) (f j)) js s)) (ps ! j) = Some (f j)
    \<and> map_of (pm_peerStates (snd (fold (\<lambda>j. store_status (ps ! j) (f j)) js s))) (ps ! j) = Some (f j)"
proof (induction js rule: rev_induct)
  case (snoc x xs)
  then show ?case using assms by (auto simp: store_status_def nth_eq_iff_index_eq)
qed simp

lemma store_fold_other:
  "a \<notin> (!) ps ` set js \<Longrightarrow>
    map_of (fst (fold (\<lambda>j. store_status (ps ! j) (f j)) js s)) a = map_of (fst s) a
    \<and> map_of (pm_peerStates (snd (fold (\<lambda>j. store_status (ps ! j) (f j)) js s))) a = map_of (pm_peerStates (snd s)) a"
  by (induction js arbitrary: s) (auto simp: store_status_def)

lemma check_peer_reachable:
  "ps_Reachable (check_peer env addr) \<longleftrightarrow>
     pv_newRequest env (addr @ ''/internal/health'') = None \<and>
     (\<exists>body h. pv_do env (addr @ ''/internal/health'') = Inr (200, body) \<and> pv_decodeHealth env body = Inr h)"
  by (auto simp: check_peer_def PingPeer_def Let_def empty_status_def split: option.splits sum.splits)

section \<open>Properties\<close>

text \<open>A check of all peers reports each of them on its own: with distinct addresses, whatever
  order the concurrent checks finish in, the result and the stored state have for every
  configured peer exactly the status its own exchange led to, reachable exactly when the
  health endpoint answered with a well-formed 200, and the result names no other address.\<close>

theorem peer_check_all:
  assumes dist: "distinct (pm_peers pm)" and ord: "schedule pm ord" and j: "j < length (pm_peers pm)"
  shows "let (results, pm') = CheckAllPeers env ord pm; addr = pm_peers pm ! j in
      map_of results addr = Some (check_peer (env j) addr) \<and> map_of (pm_peerStates pm') addr = Some (check_peer (env j) addr)
    \<and> (ps_Reachable (check_peer (env j) addr) \<longleftrightarrow>
         pv_newRequest (env j) (addr @ ''/internal/health'') = None \<and>
         (\<exists>body h. pv_do (env j) (addr @ ''/internal/health'') = Inr (200, body) \<and> pv_decodeHealth (env j) body = Inr h))
    \<and> (a \<notin> set (pm_peers pm) \<longrightarrow> map_of results a = None)"
proof -
  let ?f = "\<lambda>j. check_peer (env j) (pm_peers pm ! j)"
  have s: "set ord = {0..<length (pm_peers pm)}" "distinct ord" using schedule_set [OF ord] by auto
  have "a \<notin> set (pm_peers pm) \<longrightarrow> a \<notin> (!) (pm_peers pm) ` set ord" using s by auto
  then show ?thesis
    using store_fold [OF dist s(2), of j ?f "([], pm)"] store_fold_other [of a "pm_peers pm" ord ?f "([], pm)"] s(1) j
      check_peer_reachable [of "env j" "pm_peers pm ! j"]
    by (auto simp: CheckAllPeers_def Let_def case_prod_unfold)
qed

definition demo_peer_env :: peer_env where
  "demo_peer_env = \<lparr>pv_newRequest = (\<lambda>_. None), pv_do = (\<lambda>_. Inl ''refused''), pv_decodeHealth = (\<lambda>_. Inl []),
     pv_decodeStats = (\<lambda>_. Inl []), pv_start = 0, pv_done = 2 * millisecond, pv_now = 5\<rparr>"

theorem peer_check_all_witness:
  "map_of (fst (CheckAllPeers (\<lambda>_. demo_peer_env) [1, 0] (NewPeerManager ''n'' ''http://n'' [''http://a'', ''http://b''] 0))) ''http://b''
     = Some \<lparr>ps_Addr = ''http://b'', ps_Reachable = False, ps_LatencyMs = 2, ps_NodeID = [], ps_State = [], ps_Stats = None,
             ps_LastError = ''ping failed: refused'', ps_LastChecked = 5\<rparr>"
proof -
  let ?pm = "NewPeerManager ''n'' ''http://n'' [''http://a'', ''http://b''] 0"
  have p: "pm_peers ?pm = [''http://a'', ''http://b'']" by (simp add: NewPeerManager_def)
  have "schedule ?pm [1, 0]" by (simp add: schedule_def p upt_rec numeral_2_eq_2)
  moreover have "check_peer demo_peer_env ''http://b'' =
      \<lparr>ps_Addr = ''http://b'', ps_Reachable = False, ps_LatencyMs = 2, ps_NodeID = [], ps_State = [], ps_Stats = None,
       ps_LastError = ''ping failed: refused'', ps_LastChecked = 5\<rparr>"
    by (simp add: check_peer_def PingPeer_def demo_peer_env_def empty_status_def dur_Milliseconds_def time_sub_def go_quot_def)
  ultimately show ?thesis
    using peer_check_all [of ?pm "[1, 0]" 1 "\<lambda>_. demo_peer_env" "[]"] p by (simp add: Let_def case_prod_unfold)
qed

end
