(* ===== verification/Replicator.thy ===== *)
theory Replicator
  imports Go_Float
begin

text \<open>
  Write propagation from a primary to a replica (\<^verbatim>\<open>backend/internal/replication/replicator.go\<close>).
  The record \<open>repl_env\<close> is what a call meets outside the program: encoding the payload,
  building the request and the HTTP exchange. An exchange is described by the payload it
  carries, not by its bytes.
\<close>

section \<open>Definitions\<close>

record replicate_payload =
  rp_Key :: string
  rp_Value :: string
  rp_TTLSeconds :: int
  rp_Version :: u64
  rp_IsReplica :: bool

record repl_stats =
  rs_ReplicationsTotal :: u64
  rs_ReplicationSuccesses :: u64
  rs_ReplicationFailures :: u64

record replicator =
  r_timeout :: duration
  r_total :: u64
  r_successes :: u64
  r_failures :: u64

record repl_env =
  re_marshal :: "replicate_payload \<Rightarrow> string option"
  re_newRequest :: "string \<Rightarrow> string option"
  re_post :: "string \<Rightarrow> replicate_payload \<Rightarrow> string + int"
  re_delete :: "string \<Rightarrow> string + int"

datatype repl_error =
    ReplMarshal string
  | ReplNewRequest string
  | ReplWriteFailed string string
  | ReplBadStatus string int
  | ReplDeleteFailed string string

definition replicator_New :: "duration \<Rightarrow> replicator" where
  "replicator_New timeout =
     \<lparr>r_timeout = (if timeout \<le> 0 then 2 * second else timeout), r_total = 0, r_successes = 0, r_failures = 0\<rparr>"

definition repl_payload :: "string \<Rightarrow> string \<Rightarrow> duration \<Rightarrow> u64 \<Rightarrow> replicate_payload" where
  "repl_payload key value ttl version =
     (let ttlSec = (if 0 < ttl then int64_of_float (dur_Seconds ttl) else 0)
      in \<lparr>rp_Key = key, rp_Value = value, rp_TTLSeconds = ttlSec, rp_Version = version, rp_IsReplica = True\<rparr>)"

text \<open>The result is the error returned, \<open>None\<close> for \<^verbatim>\<open>nil\<close>.\<close>

definition ReplicateSet ::
  "repl_env \<Rightarrow> string \<Rightarrow> string \<Rightarrow> string \<Rightarrow> duration \<Rightarrow> u64 \<Rightarrow> replicator \<Rightarrow> repl_error option \<times> replicator" where
  "ReplicateSet env replicaAddr key value ttl version r0 =
     (let r = r0\<lparr>r_total := r_total r0 + 1\<rparr>;
          payload = repl_payload key value ttl version;
          failed = r\<lparr>r_failures := r_failures r + 1\<rparr>
      in case re_marshal env payload of
           Some err \<Rightarrow> (Some (ReplMarshal err), failed)
         | None \<Rightarrow>
             let url = replicaAddr @ ''/internal/replicate''
             in case re_newRequest env url of
                  Some err \<Rightarrow> (Some (ReplNewRequest err), failed)
                | None \<Rightarrow>
                    (case re_post env url payload of
                       Inl err \<Rightarrow> (Some (ReplWriteFailed replicaAddr err), failed)
                     | Inr status \<Rightarrow>
                         if status \<noteq> 200 \<and> status \<noteq> 201 then (Some (ReplBadStatus replicaAddr status), failed)
                         else (None, r\<lparr>r_successes := r_successes r + 1\<rparr>)))"

definition ReplicateDelete :: "repl_env \<Rightarrow> string \<Rightarrow> string \<Rightarrow> repl_error option" where
  "ReplicateDelete env replicaAddr key =
     (let url = replicaAddr @ ''/internal/replicate-delete?key='' @ key
      in case re_newRequest env url of
           Some err \<Rightarrow> Some (ReplNewRequest err)
         | None \<Rightarrow> (case re_delete env url of
                      Inl err \<Rightarrow> Some (ReplDeleteFailed replicaAddr err)
                    | Inr status \<Rightarrow> None))"

definition replicator_Stats :: "replicator \<Rightarrow> repl_stats" where
  "replicator_Stats r =
     \<lparr>rs_ReplicationsTotal = r_total r, rs_ReplicationSuccesses = r_successes r, rs_ReplicationFailures = r_failures r\<rparr>"

text \<open>A replication request, for sequences of them.\<close>

record repl_call =
  rc_env :: repl_env
  rc_addr :: string
  rc_key :: string
  rc_value :: string
  rc_ttl :: duration
  rc_version :: u64

definition do_repl :: "repl_call \<Rightarrow> replicator \<Rightarrow> replicator" where
  "do_repl c r = snd (ReplicateSet (rc_env c) (rc_addr c) (rc_key c) (rc_value c) (rc_ttl c) (rc_version c) r)"

text \<open>Whether the replica accepted the write.\<close>

definition repl_ok :: "repl_call \<Rightarrow> bool" where
  "repl_ok c =
     (let url = rc_addr c @ ''/internal/replicate''; p = repl_payload (rc_key c) (rc_value c) (rc_ttl c) (rc_version c)
      in re_marshal (rc_env c) p = None \<and> re_newRequest (rc_env c) url = None
       \<and> (re_post (rc_env c) url p = Inr 200 \<or> re_post (rc_env c) url p = Inr 201))"

section \<open>Lemmas\<close>

lemma repl_call_counters:
  "r_total (do_repl c r) = r_total r + 1"
  "r_successes (do_repl c r) = r_successes r + (if repl_ok c then 1 else 0)"
  "r_failures (do_repl c r) = r_failures r + (if repl_ok c then 0 else 1)"
  by (auto simp: do_repl_def repl_ok_def ReplicateSet_def Let_def split: option.splits sum.splits)

lemma repl_calls_counters:
  "r_total (fold do_repl cs r) = r_total r + of_nat (length cs)"
  "r_successes (fold do_repl cs r) = r_successes r + of_nat (length (filter repl_ok cs))"
  "r_failures (fold do_repl cs r) = r_failures r + of_nat (length (filter (\<lambda>c. \<not> repl_ok c) cs))"
  by (induction cs arbitrary: r) (simp_all add: repl_call_counters)

section \<open>Properties\<close>

text \<open>The replication telemetry is exact: after any sequence of \<open>ReplicateSet\<close> calls, whatever
  fails on the way, the successes count the calls the replica answered with 200 or 201, and the
  successes and the failures add up to the calls, modulo \<open>2^64\<close>.\<close>

theorem replicator_accounting:
  "let s = replicator_Stats (fold do_repl cs (replicator_New timeout)) in
     rs_ReplicationsTotal s = of_nat (length cs)
   \<and> rs_ReplicationSuccesses s = of_nat (length (filter repl_ok cs))
   \<and> rs_ReplicationSuccesses s + rs_ReplicationFailures s = rs_ReplicationsTotal s"
proof -
  have "(of_nat (length cs) :: u64) = of_nat (length (filter repl_ok cs)) + of_nat (length (filter (\<lambda>c. \<not> repl_ok c) cs))"
    unfolding of_nat_add [symmetric] sum_length_filter_compl ..
  then show ?thesis by (simp add: replicator_Stats_def repl_calls_counters replicator_New_def Let_def)
qed

text \<open>The payload keeps a whole-second time to live exactly (up to \<open>2^53\<close> seconds), and the key,
  value and version as they are; a positive time to live below one second is sent as 0,
  the encoding of an entry without expiry.\<close>

theorem replicator_payload_ttl:
  assumes "0 \<le> k" "k < 2 ^ 53" "0 < s" "s < second"
  shows "repl_payload key val (k * second) ver =
      \<lparr>rp_Key = key, rp_Value = val, rp_TTLSeconds = k, rp_Version = ver, rp_IsReplica = True\<rparr>
    \<and> rp_TTLSeconds (repl_payload key val s ver) = 0"
  using assms seconds_whole [of k] seconds_truncate [of s]
  by (cases "k = 0") (simp_all add: repl_payload_def Let_def)

theorem replicator_payload_ttl_witness:
  "rp_TTLSeconds (repl_payload ''k'' ''v'' (60 * second) 3) = 60 \<and> rp_TTLSeconds (repl_payload ''k'' ''v'' 999999999 3) = 0"
  using replicator_payload_ttl [of 60 999999999 "''k''" "''v''" 3] by simp

end
