(* ===== verification/Failover.thy ===== *)
theory Failover
  imports Hash_Ring Health_Monitor
begin

text \<open>
  Health-aware read routing (\<^verbatim>\<open>backend/internal/failover/router.go\<close>): the two ring owners of a
  key, the state the health monitor has for them, and at most two HTTP reads. The record
  \<open>read_env\<close> is what the reads meet outside the program; an exchange is numbered (0 for the
  primary, 1 for the replica), since the same address may answer differently twice. The
  monitor runs concurrently, so \<open>RouteGet\<close> takes its state at the two lookups.
\<close>

section \<open>Definitions\<close>

record read_result =
  rr_Key :: string
  rr_Value :: string
  rr_TTLRemaining :: int
  rr_Version :: u64
  rr_ServedBy :: string
  rr_ServedAddr :: string
  rr_IsFailover :: bool
  rr_PrimaryNode :: string
  rr_PrimaryState :: string
  rr_LatencyMs :: int

record failover_stats =
  fs_TotalRouted :: u64
  fs_DirectHits :: u64
  fs_FailoverHits :: u64
  fs_FailuresCount :: u64

text \<open>The counters of the router; the ring and the monitor it points to are arguments of
  its methods.\<close>

record router =
  fr_timeout :: duration
  fr_totalRouted :: u64
  fr_directHits :: u64
  fr_failoverHits :: u64
  fr_failures :: u64

record node_get_payload =
  ng_Status :: string
  ng_Key :: string
  ng_Value :: string
  ng_TTLRemaining :: int
  ng_Version :: u64
  ng_IsReplica :: bool
  ng_NodeID :: string

record read_env =
  fe_newRequest :: "string \<Rightarrow> string option"
  fe_do :: "nat \<Rightarrow> string \<Rightarrow> string + int \<times> string"
  fe_decode :: "string \<Rightarrow> string + node_get_payload"
  fe_start :: gtime
  fe_end :: gtime

datatype read_error = ReadErr string | ReadStatus int | ReadNotHit string

datatype route_error = ErrNoHealthyNodes | ErrReadFailed string string node_state

definition NewRouter :: "duration \<Rightarrow> router" where
  "NewRouter timeout =
     \<lparr>fr_timeout = (if timeout \<le> 0 then 1500 * millisecond else timeout), fr_totalRouted = 0, fr_directHits = 0,
      fr_failoverHits = 0, fr_failures = 0\<rparr>"

definition readFromNode :: "read_env \<Rightarrow> nat \<Rightarrow> string \<Rightarrow> string \<Rightarrow> read_error + node_get_payload" where
  "readFromNode env n nodeAddr key =
     (let url = nodeAddr @ ''/get?key='' @ key
      in case fe_newRequest env url of
           Some err \<Rightarrow> Inl (ReadErr err)
         | None \<Rightarrow>
             (case fe_do env n url of
                Inl err \<Rightarrow> Inl (ReadErr err)
              | Inr (status, body) \<Rightarrow>
                  if status \<noteq> 200 then Inl (ReadStatus status)
                  else (case fe_decode env body of
                          Inl err \<Rightarrow> Inl (ReadErr err)
                        | Inr payload \<Rightarrow>
                            if ng_Status payload \<noteq> ''hit'' then Inl (ReadNotHit (ng_Status payload)) else Inr payload)))"

definition read_result_of ::
  "read_env \<Rightarrow> node_target \<Rightarrow> node_target \<Rightarrow> bool \<Rightarrow> node_state \<Rightarrow> node_get_payload \<Rightarrow> read_result" where
  "read_result_of env primary server failedOver primaryState res =
     \<lparr>rr_Key = ng_Key res, rr_Value = ng_Value res, rr_TTLRemaining = ng_TTLRemaining res, rr_Version = ng_Version res,
      rr_ServedBy = nt_NodeID server, rr_ServedAddr = nt_Addr server, rr_IsFailover = failedOver,
      rr_PrimaryNode = nt_NodeID primary, rr_PrimaryState = primaryState,
      rr_LatencyMs = dur_Milliseconds (time_sub (fe_end env) (fe_start env))\<rparr>"

definition RouteGet ::
  "read_env \<Rightarrow> hash_ring \<Rightarrow> 'l monitor \<Rightarrow> 'l monitor \<Rightarrow> string \<Rightarrow> router \<Rightarrow> (route_error + read_result) \<times> router" where
  "RouteGet env ring mon mon' key r0 =
     (let r = r0\<lparr>fr_totalRouted := fr_totalRouted r0 + 1\<rparr>
      in case ring_GetNodes ring key 2 of
           Inl _ \<Rightarrow> (Inl ErrNoHealthyNodes, r\<lparr>fr_failures := fr_failures r + 1\<rparr>)
         | Inr [] \<Rightarrow> (Inl ErrNoHealthyNodes, r\<lparr>fr_failures := fr_failures r + 1\<rparr>)
         | Inr (primary # replicas) \<Rightarrow>
             let (st, knownPrimary) = GetNodeState (nt_NodeID primary) mon;
                 primaryState = (if \<not> knownPrimary then StateAlive else st);
                 first = (if primaryState = StateAlive then readFromNode env 0 (nt_Addr primary) key else Inl (ReadErr []))
             in case first of
                  Inr res \<Rightarrow>
                    (Inr (read_result_of env primary primary False primaryState res), r\<lparr>fr_directHits := fr_directHits r + 1\<rparr>)
                | Inl _ \<Rightarrow>
                    let failed = (Inl (ErrReadFailed key (nt_NodeID primary) primaryState), r\<lparr>fr_failures := fr_failures r + 1\<rparr>)
                    in case replicas of
                         [] \<Rightarrow> failed
                       | replica # _ \<Rightarrow>
                           let (replicaState, knownReplica) = GetNodeState (nt_NodeID replica) mon'
                           in if \<not> knownReplica \<or> replicaState \<noteq> StateFailed
                              then (case readFromNode env 1 (nt_Addr replica) key of
                                      Inr res \<Rightarrow>
                                        (Inr (read_result_of env primary replica True primaryState res),
                                         r\<lparr>fr_failoverHits := fr_failoverHits r + 1\<rparr>)
                                    | Inl _ \<Rightarrow> failed)
                              else failed)"

definition router_Stats :: "router \<Rightarrow> failover_stats" where
  "router_Stats r =
     \<lparr>fs_TotalRouted = fr_totalRouted r, fs_DirectHits = fr_directHits r, fs_FailoverHits = fr_failoverHits r,
      fs_FailuresCount = fr_failures r\<rparr>"

subsection \<open>Specification\<close>

text \<open>Whether a read may go to a node, and what it gives: the primary unless it is known not to
  be alive, the replica unless it is known to have failed.\<close>

definition primary_reply :: "read_env \<Rightarrow> hash_ring \<Rightarrow> 'l monitor \<Rightarrow> string \<Rightarrow> string \<Rightarrow> node_get_payload option" where
  "primary_reply env ring mon key n =
     (if GetNodeState n mon \<in> {(StateAlive, True)} \<or> \<not> snd (GetNodeState n mon)
      then (case readFromNode env 0 (nt_Addr (ring_target ring n)) key of Inr p \<Rightarrow> Some p | Inl _ \<Rightarrow> None) else None)"

definition replica_reply :: "read_env \<Rightarrow> hash_ring \<Rightarrow> 'l monitor \<Rightarrow> string \<Rightarrow> string \<Rightarrow> node_get_payload option" where
  "replica_reply env ring mon key n =
     (if GetNodeState n mon = (StateFailed, True) then None
      else (case readFromNode env 1 (nt_Addr (ring_target ring n)) key of Inr p \<Rightarrow> Some p | Inl _ \<Rightarrow> None))"

definition route_state :: "'l monitor \<Rightarrow> string \<Rightarrow> node_state" where
  "route_state mon n = (if snd (GetNodeState n mon) then fst (GetNodeState n mon) else StateAlive)"

section \<open>Lemmas\<close>

lemma ring_target_id [simp]: "nt_NodeID (ring_target h n) = n"
  by (simp add: ring_target_def)

lemma GetNodeState_unknown: "\<not> snd (GetNodeState n m) \<Longrightarrow> GetNodeState n m = ([], False)"
  by (simp add: GetNodeState_def split: option.splits)

text \<open>The router against its specification.\<close>

lemma RouteGet_two:
  assumes "sorted (hr_ring h)" "prefs h key = p # q # rest"
  shows "fst (RouteGet env h mon mon' key r) =
    (case primary_reply env h mon key p of
       Some res \<Rightarrow> Inr (read_result_of env (ring_target h p) (ring_target h p) False (route_state mon p) res)
     | None \<Rightarrow> (case replica_reply env h mon' key q of
         Some res \<Rightarrow> Inr (read_result_of env (ring_target h p) (ring_target h q) True (route_state mon p) res)
       | None \<Rightarrow> Inl (ErrReadFailed key p (route_state mon p))))"
proof -
  have "ring_GetNodes h key 2 = Inr [ring_target h p, ring_target h q]"
    using assms by (auto simp: GetNodes_prefs prefs_def clockwise_def)
  moreover obtain st k where g: "GetNodeState p mon = (st, k)" by fastforce
  moreover obtain st' k' where g': "GetNodeState q mon' = (st', k')" by fastforce
  ultimately show ?thesis
    by (cases "readFromNode env 0 (nt_Addr (ring_target h p)) key"; cases "readFromNode env 1 (nt_Addr (ring_target h q)) key")
      (simp_all add: RouteGet_def Let_def primary_reply_def replica_reply_def route_state_def)
qed

lemma RouteGet_one:
  assumes "sorted (hr_ring h)" "prefs h key = [p]"
  shows "fst (RouteGet env h mon mon' key r) =
    (case primary_reply env h mon key p of
       Some res \<Rightarrow> Inr (read_result_of env (ring_target h p) (ring_target h p) False (route_state mon p) res)
     | None \<Rightarrow> Inl (ErrReadFailed key p (route_state mon p)))"
proof -
  have "ring_GetNodes h key 2 = Inr [ring_target h p]"
    using assms by (auto simp: GetNodes_prefs prefs_def clockwise_def)
  moreover obtain st k where g: "GetNodeState p mon = (st, k)" by fastforce
  ultimately show ?thesis
    by (cases "readFromNode env 0 (nt_Addr (ring_target h p)) key")
      (simp_all add: RouteGet_def Let_def primary_reply_def route_state_def)
qed

lemma RouteGet_counters:
  "fr_totalRouted (snd (RouteGet env h mon mon' key r)) = fr_totalRouted r + 1
   \<and> fr_directHits (snd (RouteGet env h mon mon' key r)) + fr_failoverHits (snd (RouteGet env h mon mon' key r))
      + fr_failures (snd (RouteGet env h mon mon' key r)) = fr_directHits r + fr_failoverHits r + fr_failures r + 1"
  by (simp add: RouteGet_def Let_def case_prod_unfold split: sum.splits list.splits if_splits)


lemma readFromNode_hit: "readFromNode env n addr key = Inr res \<Longrightarrow> ng_Status res = ''hit''"
  by (auto simp: readFromNode_def Let_def split: option.splits sum.splits if_splits)

lemma primary_reply_read:
  "primary_reply env h mon key n = Some res \<Longrightarrow> readFromNode env 0 (nt_Addr (ring_target h n)) key = Inr res"
  by (auto simp: primary_reply_def split: sum.splits if_splits)

lemma replica_reply_read:
  "replica_reply env h mon key n = Some res \<Longrightarrow> readFromNode env 1 (nt_Addr (ring_target h n)) key = Inr res"
  by (auto simp: replica_reply_def split: sum.splits if_splits)

lemma reply_is_hit:
  assumes "primary_reply env h mon key n = Some res \<or> replica_reply env h mon' key n = Some res"
  shows "\<exists>i reply. readFromNode env i (nt_Addr (ring_target h n)) key = Inr reply \<and> ng_Status reply = ''hit''
    \<and> ng_Value res = ng_Value reply \<and> ng_Version res = ng_Version reply"
  using assms primary_reply_read replica_reply_read readFromNode_hit by blast

lemma two_prefs:
  assumes "ring_exact h" "2 \<le> length (ring_ids h)"
  obtains p q rest where "prefs h key = p # q # rest" "p \<noteq> q"
proof -
  have "card (set (ring_ids h)) = length (ring_ids h)"
    using ring_exact_wf [OF assms(1)] by (simp add: ring_wf_def gm_keys_def card_set_gm_wf)
  then have "2 \<le> length (prefs h key)" using ringp.pref_length [OF assms(1), of key] assms(2) by simp
  then obtain p q rest where p: "prefs h key = p # q # rest"
    by (cases "prefs h key"; cases "tl (prefs h key)") auto
  then have "p \<noteq> q" using ringp.pref_distinct [OF assms(1), of key] by auto
  with p show ?thesis by (rule that)
qed

text \<open>A call of the router, for sequences of them.\<close>

record 'l route_call =
  rq_env :: read_env
  rq_ring :: hash_ring
  rq_mon :: "'l monitor"
  rq_mon' :: "'l monitor"
  rq_key :: string

definition do_route :: "'l route_call \<Rightarrow> router \<Rightarrow> router" where
  "do_route c r = snd (RouteGet (rq_env c) (rq_ring c) (rq_mon c) (rq_mon' c) (rq_key c) r)"

lemma do_routes_counters:
  "fr_totalRouted (fold do_route cs r) = fr_totalRouted r + of_nat (length cs)
   \<and> fr_directHits (fold do_route cs r) + fr_failoverHits (fold do_route cs r) + fr_failures (fold do_route cs r) =
       fr_directHits r + fr_failoverHits r + fr_failures r + of_nat (length cs)"
proof (induction cs arbitrary: r)
  case (Cons c cs)
  then show ?case
    using RouteGet_counters [of "rq_env c" "rq_ring c" "rq_mon c" "rq_mon' c" "rq_key c" r]
    by (simp add: do_route_def algebra_simps)
qed simp

section \<open>Properties\<close>

text \<open>C13. One failure is tolerated: on a ring of at least two nodes, when the replica of a key (the
  second node clockwise) is not known to have failed and answers with a hit, \<open>RouteGet\<close>
  returns a value whatever the primary does: the primary's own reply if it is considered
  alive and answers with a hit, the replica's otherwise, marked as a failover.\<close>

theorem route_tolerates_primary_failure:
  assumes ring: "ring_exact h" "2 \<le> length (ring_ids h)"
    and rep: "replica_reply env h mon' key (prefs h key ! 1) = Some res"
  shows "\<exists>rr. fst (RouteGet env h mon mon' key r) = Inr rr \<and> rr_PrimaryNode rr = hd (prefs h key) \<and>
    (case primary_reply env h mon key (hd (prefs h key)) of
       Some pres \<Rightarrow> rr_ServedBy rr = hd (prefs h key) \<and> rr_Value rr = ng_Value pres \<and> rr_Version rr = ng_Version pres \<and> \<not> rr_IsFailover rr
     | None \<Rightarrow> rr_ServedBy rr = prefs h key ! 1 \<and> rr_Value rr = ng_Value res \<and> rr_Version rr = ng_Version res \<and> rr_IsFailover rr)"
proof -
  obtain p q rest where pq: "prefs h key = p # q # rest" by (rule two_prefs [OF ring])
  show ?thesis
    using RouteGet_two [OF ring_exact_sorted [OF ring(1)] pq, of env mon mon' r] rep
    by (auto simp: pq read_result_of_def split: option.splits)
qed

definition demo_hit :: "string \<Rightarrow> node_get_payload" where
  "demo_hit v = \<lparr>ng_Status = ''hit'', ng_Key = ''k'', ng_Value = v, ng_TTLRemaining = 9, ng_Version = 4, ng_IsReplica = True, ng_NodeID = ''BB''\<rparr>"

text \<open>The primary A refuses the connection, B answers.\<close>

definition demo_read_env :: read_env where
  "demo_read_env = \<lparr>fe_newRequest = (\<lambda>_. None),
     fe_do = (\<lambda>_ url. if url = ''http://b/get?key=k'' then Inr (200, ''x'') else Inl ''refused''),
     fe_decode = (\<lambda>body. Inr (demo_hit body)), fe_start = 0, fe_end = 3 * millisecond\<rparr>"

definition demo_idle_monitor :: "string monitor" where
  "demo_idle_monitor = NewMonitor (\<lambda>_. 0) \<lparr>hcf_SelfNodeID = ''n1'', hcf_SelfAddr = [], hcf_Peers = [], hcf_HeartbeatInterval = 0,
     hcf_SuspectTimeout = 0, hcf_FailTimeout = 0\<rparr>"

lemma demo_idle_states: "GetNodeState ''A'' demo_idle_monitor = ([], False)" "GetNodeState ''BB'' demo_idle_monitor = ([], False)"
  by (simp_all add: demo_idle_monitor_def NewMonitor_def GetNodeState_def Let_def)

lemma demo_ring_addrs: "nt_Addr (ring_target demo_ring ''A'') = ''http://a''" "nt_Addr (ring_target demo_ring ''BB'') = ''http://b''"
  by (simp_all add: ring_target_def demo_ring_eq gm_get_def)

lemma demo_ring_size: "2 \<le> length (ring_ids demo_ring)"
  by (simp add: demo_ring_eq gm_keys_def)

lemma demo_replies:
  "replica_reply demo_read_env demo_ring demo_idle_monitor ''k'' ''BB'' = Some (demo_hit ''x'')"
  "primary_reply demo_read_env demo_ring demo_idle_monitor ''k'' ''A'' = None"
  by (simp_all add: replica_reply_def primary_reply_def demo_idle_states demo_ring_addrs readFromNode_def demo_read_env_def demo_hit_def)

theorem route_tolerates_primary_failure_witness:
  "\<exists>rr. fst (RouteGet demo_read_env demo_ring demo_idle_monitor demo_idle_monitor ''k'' (NewRouter 0)) = Inr rr
     \<and> rr_ServedBy rr = ''BB'' \<and> rr_Value rr = ''x'' \<and> rr_IsFailover rr"
  using route_tolerates_primary_failure [OF demo_ring_exact demo_ring_size, of demo_read_env demo_idle_monitor "''k''" "demo_hit ''x''" demo_idle_monitor "NewRouter 0"]
  by (auto simp: demo_ring_prefs demo_replies demo_hit_def)

text \<open>What \<open>RouteGet\<close> returns is what an owner answered: the serving node is one of the first
  two distinct nodes clockwise from the key, at its registered address, its reply was a
  well-formed hit with the value and version returned, and the read is marked as a failover exactly
  when the serving node is not the primary.\<close>

theorem route_result_sound:
  assumes ring: "ring_exact h" and res: "fst (RouteGet env h mon mon' key r) = Inr rr"
  shows "rr_PrimaryNode rr = hd (prefs h key) \<and> rr_ServedBy rr \<in> set (take 2 (prefs h key))
    \<and> rr_ServedAddr rr = nt_Addr (ring_target h (rr_ServedBy rr))
    \<and> (rr_IsFailover rr \<longleftrightarrow> rr_ServedBy rr \<noteq> rr_PrimaryNode rr)
    \<and> (\<exists>n reply. readFromNode env n (rr_ServedAddr rr) key = Inr reply \<and> ng_Status reply = ''hit''
         \<and> rr_Value rr = ng_Value reply \<and> rr_Version rr = ng_Version reply)"
proof (cases "prefs h key")
  case Nil
  then have "hr_ring h = []" using prefs_nonempty by blast
  with res show ?thesis by (simp add: RouteGet_def ring_GetNodes_def Let_def)
next
  case (Cons p ps)
  note s = ring_exact_sorted [OF ring]
  show ?thesis
  proof (cases ps)
    case Nil
    with Cons res RouteGet_one [OF s, of key p env mon mon' r] show ?thesis
      by (auto simp: read_result_of_def split: option.splits dest: reply_is_hit [OF disjI1])
  next
    case (Cons q rest)
    with \<open>prefs h key = p # ps\<close> have pq: "prefs h key = p # q # rest" by simp
    then have "p \<noteq> q" using ringp.pref_distinct [OF ring, of key] by auto
    with pq res RouteGet_two [OF s pq, of env mon mon' r] show ?thesis
      by (auto simp: read_result_of_def split: option.splits dest: reply_is_hit [OF disjI1] reply_is_hit [OF disjI2])
  qed
qed

theorem route_result_sound_witness:
  "rr_ServedBy (projr (fst (RouteGet demo_read_env demo_ring demo_idle_monitor demo_idle_monitor ''k'' (NewRouter 0)))) \<in> {''A'', ''BB''}"
proof -
  have "fst (RouteGet demo_read_env demo_ring demo_idle_monitor demo_idle_monitor ''k'' (NewRouter 0)) =
      Inr (projr (fst (RouteGet demo_read_env demo_ring demo_idle_monitor demo_idle_monitor ''k'' (NewRouter 0))))"
    by (simp add: RouteGet_two [OF ring_exact_sorted [OF demo_ring_exact] demo_ring_prefs] demo_replies)
  from route_result_sound [OF demo_ring_exact this] show ?thesis by (simp add: demo_ring_prefs)
qed

text \<open>The routing telemetry adds up: after any sequence of \<open>RouteGet\<close> calls, over whatever rings,
  member states and replies, the direct hits, the failover hits and the failures add up to the
  reads routed, modulo \<open>2^64\<close>.\<close>

theorem route_accounting:
  "let s = router_Stats (fold do_route cs (NewRouter timeout)) in
     fs_TotalRouted s = of_nat (length cs)
   \<and> fs_DirectHits s + fs_FailoverHits s + fs_FailuresCount s = fs_TotalRouted s"
  using do_routes_counters [of cs "NewRouter timeout"]
  by (simp add: router_Stats_def Let_def) (simp add: NewRouter_def)

end
