(* ===== verification/Access_Window.thy ===== *)
theory Access_Window
  imports SHC_Prelude
begin

text \<open>
  The contract of a sliding-window access counter, as the request handlers use it: \<open>count t k\<close>
  is what the counter reports for key \<open>k\<close> at time \<open>t\<close>; recording an access adds one to its key
  while the access is in the window, and a sweep forgets nothing that is. From the laws: after
  any sequence of accesses and sweeps the counter reports the number of accesses in the window.
\<close>

datatype window_event = WAccess gtime string | WSweep gtime "string list"

fun wev_time :: "window_event \<Rightarrow> gtime" where
  "wev_time (WAccess t k) = t"
| "wev_time (WSweep t ord) = t"

fun wev_hits :: "gtime \<Rightarrow> string \<Rightarrow> window_event \<Rightarrow> bool" where
  "wev_hits cutoff k (WAccess t k') = (k' = k \<and> cutoff < t)"
| "wev_hits cutoff k (WSweep t ord) = False"

fun window_step ::
  "(gtime \<Rightarrow> string \<Rightarrow> 's \<Rightarrow> 's) \<Rightarrow> (gtime \<Rightarrow> string list \<Rightarrow> 's \<Rightarrow> 's) \<Rightarrow> window_event \<Rightarrow> 's \<Rightarrow> 's" where
  "window_step rec sweep (WAccess t k) s = rec t k s"
| "window_step rec sweep (WSweep t ord) s = sweep t ord s"

locale access_window =
  fixes width :: "'s \<Rightarrow> duration"
    and count :: "gtime \<Rightarrow> string \<Rightarrow> 's \<Rightarrow> u64"
    and rec :: "gtime \<Rightarrow> string \<Rightarrow> 's \<Rightarrow> 's"
    and sweep :: "gtime \<Rightarrow> string list \<Rightarrow> 's \<Rightarrow> 's"
  assumes width_rec: "width (rec now k s) = width s"
    and width_sweep: "width (sweep now ord s) = width s"
    and count_rec: "now \<le> t \<Longrightarrow>
      count t k (rec now k' s) = count t k s + (if k' = k \<and> t - width s < now then 1 else 0)"
    and count_sweep: "now \<le> t \<Longrightarrow> count t k (sweep now ord s) = count t k s"
begin

lemma width_step: "width (window_step rec sweep e s) = width s"
  by (cases e) (simp_all add: width_rec width_sweep)

lemma width_run: "width (fold (window_step rec sweep) es s) = width s"
  by (induction es arbitrary: s) (simp_all add: width_step)

lemma count_step:
  "wev_time e \<le> t \<Longrightarrow>
     count t k (window_step rec sweep e s) = count t k s + (if wev_hits (t - width s) k e then 1 else 0)"
  by (cases e) (simp_all add: count_rec count_sweep)

lemma count_run:
  "\<forall>e\<in>set es. wev_time e \<le> t \<Longrightarrow>
     count t k (fold (window_step rec sweep) es s) =
       count t k s + of_nat (length (filter (wev_hits (t - width s) k) es))"
  by (induction es arbitrary: s) (simp_all add: count_step width_step)

end

end
