(* ===== verification/Hotkey.thy ===== *)
theory Hotkey
  imports Go_Float Access_Window
begin

text \<open>
  The hot-key detector (\<^verbatim>\<open>backend/internal/hotkey/detector.go\<close>): per key the time-stamped
  accesses of a sliding window, and the time since when a key is hot. One definition per
  method; \<open>GetHotKeys\<close> ranges over its map in the unspecified order \<open>ord\<close>. The detector is
  an \<open>access_window\<close>.
\<close>

section \<open>Definitions\<close>

record hotkey_info =
  hk_Key :: string
  hk_RequestCount :: u64
  hk_RequestRate :: rat
  hk_DetectedAt :: gtime
  hk_IsHot :: bool

record key_bucket =
  kb_count :: u64
  kb_timestamp :: gtime

record hotkey_config =
  hc_WindowDuration :: duration
  hc_ThresholdCount :: u64

record detector =
  d_config :: hotkey_config
  d_keyAccess :: "(string, key_bucket list) gomap"
  d_hotKeys :: "(string, gtime) gomap"

definition NewDetector :: "hotkey_config \<Rightarrow> detector" where
  "NewDetector cfg =
     (let cfg1 = (if hc_WindowDuration cfg \<le> 0 then cfg\<lparr>hc_WindowDuration := 5 * second\<rparr> else cfg);
          cfg2 = (if hc_ThresholdCount cfg1 \<le> 0 then cfg1\<lparr>hc_ThresholdCount := 20\<rparr> else cfg1)
      in \<lparr>d_config = cfg2, d_keyAccess = [], d_hotKeys = []\<rparr>)"

text \<open>The loop the three methods share: the buckets after the cutoff and the sum of their
  counts.\<close>

definition scan_buckets :: "gtime \<Rightarrow> key_bucket list \<Rightarrow> key_bucket list \<times> u64" where
  "scan_buckets cutoff buckets =
     fold (\<lambda>b (valid, total). if cutoff < kb_timestamp b then (valid @ [b], total + kb_count b) else (valid, total))
       buckets ([], 0)"

definition RecordAccess :: "gtime \<Rightarrow> string \<Rightarrow> detector \<Rightarrow> (bool \<times> u64) \<times> detector" where
  "RecordAccess now key d =
     (let cutoff = now - hc_WindowDuration (d_config d);
          buckets = gm_get [] (d_keyAccess d) key;
          (validBuckets, totalCount) = scan_buckets cutoff buckets;
          validBuckets' = validBuckets @ [\<lparr>kb_count = 1, kb_timestamp = now\<rparr>];
          totalCount' = totalCount + 1;
          access' = gm_put key validBuckets' (d_keyAccess d);
          isHot = (hc_ThresholdCount (d_config d) \<le> totalCount');
          hot' = (if isHot
                  then (case map_of (d_hotKeys d) key of None \<Rightarrow> gm_put key now (d_hotKeys d) | Some _ \<Rightarrow> d_hotKeys d)
                  else gm_del key (d_hotKeys d))
      in ((isHot, totalCount'), d\<lparr>d_keyAccess := access', d_hotKeys := hot'\<rparr>))"

definition IsHot :: "gtime \<Rightarrow> string \<Rightarrow> detector \<Rightarrow> bool \<times> u64" where
  "IsHot now key d =
     (let cutoff = now - hc_WindowDuration (d_config d);
          totalCount = snd (scan_buckets cutoff (gm_get [] (d_keyAccess d) key))
      in (hc_ThresholdCount (d_config d) \<le> totalCount, totalCount))"

definition hot_visit :: "gtime \<Rightarrow> string \<Rightarrow> hotkey_info list \<times> detector \<Rightarrow> hotkey_info list \<times> detector" where
  "hot_visit now key s =
     (let (hotList, d) = s;
          cutoff = now - hc_WindowDuration (d_config d);
          (validBuckets, totalCount) = scan_buckets cutoff (gm_get [] (d_keyAccess d) key);
          d1 = d\<lparr>d_keyAccess := gm_put key validBuckets (d_keyAccess d)\<rparr>
      in if hc_ThresholdCount (d_config d) \<le> totalCount
         then (let rate = f64 (f64 (of_int (uint totalCount)) / dur_Seconds (hc_WindowDuration (d_config d)));
                   detTime = gm_get 0 (d_hotKeys d1) key;
                   (detTime', hot') = (if detTime = 0 then (now, gm_put key now (d_hotKeys d1)) else (detTime, d_hotKeys d1))
               in (hotList @ [\<lparr>hk_Key = key, hk_RequestCount = totalCount, hk_RequestRate = rate,
                               hk_DetectedAt = detTime', hk_IsHot = True\<rparr>], d1\<lparr>d_hotKeys := hot'\<rparr>))
         else (hotList, d1\<lparr>d_hotKeys := gm_del key (d_hotKeys d1)\<rparr>))"

definition GetHotKeys :: "gtime \<Rightarrow> string list \<Rightarrow> detector \<Rightarrow> hotkey_info list \<times> detector" where
  "GetHotKeys now ord d = fold (hot_visit now) ord ([], d)"

text \<open>The operations as state transformers, and what \<open>IsHot\<close> counts.\<close>

definition rec_access :: "gtime \<Rightarrow> string \<Rightarrow> detector \<Rightarrow> detector" where
  "rec_access now key d = snd (RecordAccess now key d)"

definition hot_sweep :: "gtime \<Rightarrow> string list \<Rightarrow> detector \<Rightarrow> detector" where
  "hot_sweep now ord d = snd (GetHotKeys now ord d)"

definition window_count :: "gtime \<Rightarrow> string \<Rightarrow> detector \<Rightarrow> u64" where
  "window_count now key d = snd (IsHot now key d)"

section \<open>Lemmas\<close>

lemma scan_buckets_eq:
  "scan_buckets cutoff bs =
     (filter (\<lambda>b. cutoff < kb_timestamp b) bs, sum_list (map kb_count (filter (\<lambda>b. cutoff < kb_timestamp b) bs)))"
proof -
  have "fold (\<lambda>b (valid, total). if cutoff < kb_timestamp b then (valid @ [b], total + kb_count b) else (valid, total)) bs (v, n) =
      (v @ filter (\<lambda>b. cutoff < kb_timestamp b) bs, n + sum_list (map kb_count (filter (\<lambda>b. cutoff < kb_timestamp b) bs)))"
    for v n by (induction bs arbitrary: v n) (simp_all add: algebra_simps)
  then show ?thesis by (simp add: scan_buckets_def)
qed

lemma window_count_eq:
  "window_count t k d = sum_list (map kb_count
     (filter (\<lambda>b. t - hc_WindowDuration (d_config d) < kb_timestamp b) (gm_get [] (d_keyAccess d) k)))"
  by (simp add: window_count_def IsHot_def Let_def scan_buckets_eq)

lemma IsHot_eq: "IsHot t k d = (hc_ThresholdCount (d_config d) \<le> window_count t k d, window_count t k d)"
  by (simp add: window_count_def IsHot_def Let_def)

lemma filter_pruned:
  "w \<le> t \<Longrightarrow> filter (\<lambda>b. t < kb_timestamp b) (filter (\<lambda>b. w < kb_timestamp b) bs) = filter (\<lambda>b. t < kb_timestamp b) bs"
  by (induction bs) auto

lemma rec_access_config [simp]: "d_config (rec_access now k d) = d_config d"
  by (simp add: rec_access_def RecordAccess_def Let_def case_prod_unfold)

lemma rec_access_keys [simp]:
  "set (gm_keys (d_keyAccess (rec_access now k d))) = insert k (set (gm_keys (d_keyAccess d)))"
  by (simp add: rec_access_def RecordAccess_def Let_def case_prod_unfold)

lemma rec_access_buckets:
  "gm_get [] (d_keyAccess (rec_access now k' d)) k =
     (if k = k' then filter (\<lambda>b. now - hc_WindowDuration (d_config d) < kb_timestamp b) (gm_get [] (d_keyAccess d) k)
        @ [\<lparr>kb_count = 1, kb_timestamp = now\<rparr>] else gm_get [] (d_keyAccess d) k)"
  by (simp add: rec_access_def RecordAccess_def Let_def scan_buckets_eq gomap_simps)

lemma count_rec_access:
  assumes "now \<le> t"
  shows "window_count t k (rec_access now k' d) =
    window_count t k d + (if k' = k \<and> t - hc_WindowDuration (d_config d) < now then 1 else 0)"
  using assms by (simp add: window_count_eq rec_access_buckets filter_pruned del: filter_filter)

lemma hot_visit_config [simp]: "d_config (snd (hot_visit now key s)) = d_config (snd s)"
  by (simp add: hot_visit_def Let_def case_prod_unfold)

lemma hot_visit_buckets:
  "gm_get [] (d_keyAccess (snd (hot_visit now key s))) k =
     (if k = key then filter (\<lambda>b. now - hc_WindowDuration (d_config (snd s)) < kb_timestamp b) (gm_get [] (d_keyAccess (snd s)) k)
      else gm_get [] (d_keyAccess (snd s)) k)"
  by (simp add: hot_visit_def Let_def scan_buckets_eq gomap_simps case_prod_unfold)

lemma count_hot_visit:
  assumes "now \<le> t"
  shows "window_count t k (snd (hot_visit now key s)) = window_count t k (snd s)"
  using assms by (simp add: window_count_eq hot_visit_buckets filter_pruned del: filter_filter)

lemma count_hot_fold:
  "now \<le> t \<Longrightarrow> window_count t k (snd (fold (hot_visit now) ks s)) = window_count t k (snd s)"
  "d_config (snd (fold (hot_visit now) ks s)) = d_config (snd s)"
  by (induction ks arbitrary: s) (simp_all add: count_hot_visit)

interpretation hk: access_window "\<lambda>d. hc_WindowDuration (d_config d)" window_count rec_access hot_sweep
  by unfold_locales (simp_all add: count_rec_access hot_sweep_def GetHotKeys_def count_hot_fold)

lemma count_New [simp]: "window_count t k (NewDetector cfg) = 0"
  by (simp add: window_count_eq NewDetector_def Let_def)

subsection \<open>The list of hot keys\<close>

text \<open>What one visit adds to the list.\<close>

definition hot_entry :: "gtime \<Rightarrow> detector \<Rightarrow> string \<Rightarrow> hotkey_info" where
  "hot_entry now d key =
     \<lparr>hk_Key = key, hk_RequestCount = window_count now key d,
      hk_RequestRate = f64 (f64 (of_int (uint (window_count now key d))) / dur_Seconds (hc_WindowDuration (d_config d))),
      hk_DetectedAt = (if gm_get 0 (d_hotKeys d) key = 0 then now else gm_get 0 (d_hotKeys d) key), hk_IsHot = True\<rparr>"

lemma hot_visit_list:
  "fst (hot_visit now key s) = fst s @ (if fst (IsHot now key (snd s)) then [hot_entry now (snd s) key] else [])"
  by (simp add: hot_visit_def Let_def case_prod_unfold IsHot_eq window_count_eq scan_buckets_eq hot_entry_def)

lemma hot_visit_tags: "k \<noteq> key \<Longrightarrow> gm_get 0 (d_hotKeys (snd (hot_visit now key s))) k = gm_get 0 (d_hotKeys (snd s)) k"
  by (simp add: hot_visit_def Let_def case_prod_unfold gomap_simps)

lemma hot_entry_cong:
  "window_count now k d = window_count now k d' \<Longrightarrow> d_config d = d_config d' \<Longrightarrow>
   gm_get 0 (d_hotKeys d) k = gm_get 0 (d_hotKeys d') k \<Longrightarrow> hot_entry now d k = hot_entry now d' k"
  by (simp add: hot_entry_def)

lemma hot_fold_list:
  "distinct ks \<Longrightarrow> fst (fold (hot_visit now) ks s) =
     fst s @ map (hot_entry now (snd s)) (filter (\<lambda>k. fst (IsHot now k (snd s))) ks)"
proof (induction ks arbitrary: s)
  case (Cons key ks)
  let ?s = "hot_visit now key s"
  have same: "hot_entry now (snd ?s) k = hot_entry now (snd s) k" if "k \<in> set ks" for k
  proof -
    from that Cons.prems have "k \<noteq> key" by auto
    then show ?thesis by (intro hot_entry_cong) (simp_all add: count_hot_visit hot_visit_tags)
  qed
  have "filter (\<lambda>k. fst (IsHot now k (snd ?s))) ks = filter (\<lambda>k. fst (IsHot now k (snd s))) ks"
    by (simp add: IsHot_eq count_hot_visit)
  with Cons same show ?case by (simp add: hot_visit_list)
qed simp

lemma GetHotKeys_list:
  "distinct ord \<Longrightarrow> fst (GetHotKeys now ord d) = map (hot_entry now d) (filter (\<lambda>k. fst (IsHot now k d)) ord)"
  by (simp add: GetHotKeys_def hot_fold_list)

lemma hot_sweep_idle:
  "k \<notin> set ks \<Longrightarrow> gm_get 0 (d_hotKeys (snd (fold (hot_visit now) ks s))) k = gm_get 0 (d_hotKeys (snd s)) k"
  by (induction ks arbitrary: s) (simp_all add: hot_visit_tags)

section \<open>Properties\<close>

text \<open>C22. The sliding window is exact: after any sequence of \<open>RecordAccess\<close> and \<open>GetHotKeys\<close> calls
  on a new detector, \<open>IsHot\<close> at a time not before them reports, modulo \<open>2^64\<close>, the number of
  accesses of the key within the last window (the pruning the calls do on the way loses
  none of them), the next \<open>RecordAccess\<close> reports one more, and both say hot exactly when
  the count reaches the threshold.\<close>

theorem hotkey_window_exact:
  assumes "\<forall>e\<in>set es. wev_time e \<le> now"
  shows "let d = fold (window_step rec_access hot_sweep) es (NewDetector cfg);
             n = of_nat (length (filter (wev_hits (now - hc_WindowDuration (d_config (NewDetector cfg))) key) es)) :: u64;
             thr = hc_ThresholdCount (d_config (NewDetector cfg))
         in IsHot now key d = (thr \<le> n, n) \<and> fst (RecordAccess now key d) = (thr \<le> n + 1, n + 1)"
proof -
  let ?d = "fold (window_step rec_access hot_sweep) es (NewDetector cfg)"
  have step: "d_config (window_step rec_access hot_sweep e d) = d_config d" for e d
    by (cases e) (simp_all add: hot_sweep_def GetHotKeys_def count_hot_fold)
  have cfg: "d_config (fold (window_step rec_access hot_sweep) es d) = d_config d" for d
    by (induction es arbitrary: d) (simp_all add: step)
  have rec: "fst (RecordAccess now key ?d) =
      (hc_ThresholdCount (d_config ?d) \<le> window_count now key ?d + 1, window_count now key ?d + 1)"
    by (simp add: RecordAccess_def Let_def window_count_eq scan_buckets_eq)
  show ?thesis using hk.count_run [OF assms, of key "NewDetector cfg"] by (simp add: Let_def IsHot_eq cfg rec)
qed

definition demo_hot_cfg :: hotkey_config where
  "demo_hot_cfg = \<lparr>hc_WindowDuration = 10, hc_ThresholdCount = 2\<rparr>"

theorem hotkey_window_exact_witness:
  "IsHot 14 ''a'' (fold (window_step rec_access hot_sweep)
      [WAccess 1 ''a'', WAccess 5 ''a'', WAccess 6 ''b'', WSweep 12 [''a'', ''b''], WAccess 13 ''a'']
      (NewDetector demo_hot_cfg)) = (True, 2)"
  using hotkey_window_exact [of "[WAccess 1 ''a'', WAccess 5 ''a'', WAccess 6 ''b'', WSweep 12 [''a'', ''b''], WAccess 13 ''a'']"
      14 demo_hot_cfg "''a''"]
  by (simp add: Let_def) (simp add: NewDetector_def demo_hot_cfg_def)

text \<open>\<open>GetHotKeys\<close> lists, whatever the order in which the map is visited, exactly the keys
  that \<open>IsHot\<close> calls hot at that time, each once and with the same count, and the time the key
  was tagged hot, or now when it has no tag.\<close>

theorem hotkey_list_exact:
  assumes "range_order (d_keyAccess d) ord" "0 < hc_ThresholdCount (d_config d)"
  shows "distinct (map hk_Key (fst (GetHotKeys now ord d)))
    \<and> (key \<in> hk_Key ` set (fst (GetHotKeys now ord d)) \<longleftrightarrow> fst (IsHot now key d))
    \<and> (\<forall>e\<in>set (fst (GetHotKeys now ord d)).
         hk_RequestCount e = snd (IsHot now (hk_Key e) d)
       \<and> hk_DetectedAt e = (if gm_get 0 (d_hotKeys d) (hk_Key e) = 0 then now else gm_get 0 (d_hotKeys d) (hk_Key e)))"
proof -
  have dist: "distinct ord" and keys: "set ord = set (gm_keys (d_keyAccess d))"
    using assms(1) by (simp_all add: range_order_def)
  have hk_Key: "hk_Key \<circ> hot_entry now d = id" by (auto simp: hot_entry_def)
  have "key \<in> set ord" if "fst (IsHot now key d)"
  proof (rule ccontr)
    assume "key \<notin> set ord"
    then have "map_of (d_keyAccess d) key = None" using keys not_key_map_of by fastforce
    with that assms(2) show False by (simp add: IsHot_eq window_count_eq gm_get_def)
  qed
  then show ?thesis using dist
    by (auto simp: GetHotKeys_list hk_Key image_iff hot_entry_def IsHot_eq)
qed

theorem hotkey_list_exact_witness:
  "hk_Key ` set (fst (GetHotKeys 14 [''b'', ''a''] (rec_access 13 ''a'' (rec_access 12 ''b'' (rec_access 9 ''a'' (NewDetector demo_hot_cfg))))))
     = {''a''}"
proof -
  let ?d = "rec_access 13 ''a'' (rec_access 12 ''b'' (rec_access 9 ''a'' (NewDetector demo_hot_cfg)))"
  have r: "range_order (d_keyAccess ?d) [''b'', ''a'']" and t: "0 < hc_ThresholdCount (d_config ?d)"
    by (auto simp: range_order_def NewDetector_def demo_hot_cfg_def Let_def gm_keys_def [of "[]"])
  have "fst (IsHot 14 key ?d) \<longleftrightarrow> key = ''a''" for key
    by (simp add: IsHot_eq count_rec_access) (simp add: NewDetector_def demo_hot_cfg_def Let_def word_le_nat_alt)
  with hotkey_list_exact [OF r t, of 14] show ?thesis by blast
qed

end
