(* ===== verification/Node_Server.thy ===== *)
theory Node_Server
  imports Go_Strings Peer_Manager Replicator Failover Rebalance Hotkey
begin

text \<open>
  The HTTP server of a cache node (\<^verbatim>\<open>backend/internal/server/server.go\<close>): the composition of
  the cache, the ring, the replicator, the health monitor, the failover router, the rebalance
  manager and the hot-key detector, and one definition per request handler.

  \<^item> A request is its method, its query and form values and its body; a response is a status and a
    body of the datatype \<open>resp_body\<close>, whose constructors stand for the shapes of the replies (and
    for the constant fields of those that are plain maps).
  \<^item> The JSON decoders are the record \<open>codec\<close>, an argument; the one of \<open>/set\<close> returns what it filled in
    and whether it failed.
  \<^item> A goroutine a handler starts is an element of the list of \<open>outgoing\<close> messages it returns;
    \<open>run_outgoing\<close> is its body.
\<close>

section \<open>Definitions\<close>

subsection \<open>Data\<close>

record server_config =
  sc_NodeID :: string
  sc_Host :: string
  sc_Port :: int
  sc_Peers :: "string list"
  sc_VNodes :: int
  sc_HeartbeatInterval :: duration
  sc_SuspectTimeout :: duration
  sc_FailTimeout :: duration
  sc_HotkeyWindow :: duration
  sc_HotkeyThreshold :: u64

record 'l server =
  sv_config :: server_config
  sv_cache :: cache
  sv_peerManager :: peer_manager
  sv_hashRing :: hash_ring
  sv_replicator :: replicator
  sv_healthMonitor :: "'l monitor"
  sv_failoverRouter :: router
  sv_rebalanceManager :: rebalance_manager
  sv_hotkeyDetector :: detector

record set_request =
  sr_Key :: string
  sr_Value :: string
  sr_TTLSeconds :: int
  sr_Version :: u64
  sr_IsReplica :: bool

record set_response =
  sp_Status :: string
  sp_Key :: string
  sp_NodeID :: string
  sp_Version :: u64
  sp_IsReplica :: bool
  sp_ReplicaNode :: string

record get_response =
  gp_Status :: string
  gp_Key :: string
  gp_Value :: string
  gp_TTLRemaining :: int
  gp_Version :: u64
  gp_IsReplica :: bool
  gp_IsHot :: bool
  gp_RequestCount :: u64
  gp_NodeID :: string
  gp_Message :: string

record delete_response =
  dp_Status :: string
  dp_Key :: string
  dp_NodeID :: string
  dp_Message :: string

record locate_response =
  lp_Key :: string
  lp_Hash :: u32
  lp_PrimaryNode :: string
  lp_PrimaryAddr :: string
  lp_ReplicaNode :: string
  lp_ReplicaAddr :: string
  lp_IsLocal :: bool

record owned_keys_response =
  op_NodeID :: string
  op_TotalKeys :: nat
  op_PrimaryKeys :: "string list"
  op_ReplicaKeys :: "string list"

record health_response =
  hp_Status :: string
  hp_NodeID :: string
  hp_State :: string
  hp_UptimeSeconds :: int

record stats_response =
  tp_NodeID :: string
  tp_State :: string
  tp_TotalKeys :: nat
  tp_PrimaryKeys :: nat
  tp_ReplicaKeys :: nat
  tp_HitCount :: u64
  tp_MissCount :: u64
  tp_SetCount :: u64
  tp_DeleteCount :: u64
  tp_ExpiredCount :: u64
  tp_ReplicationStats :: repl_stats
  tp_FailoverStats :: failover_stats
  tp_UptimeSeconds :: int

datatype resp_body =
    BText string
  | BError string
  | BSet set_response
  | BGet get_response
  | BDelete delete_response
  | BReplicaDeleted string
  | BRead read_result
  | BReadError string string
  | BDump string nat "dump_item list"
  | BBulk string nat
  | BReport rebalance_report
  | BReports string nat "rebalance_report list"
  | BCluster cluster_view
  | BHealth health_response
  | BStats stats_response
  | BInternalHealth internal_health
  | BInternalStats internal_stats
  | BPeers string "(string, peer_status) gomap"
  | BRing ring_topology
  | BLocate locate_response
  | BOwned owned_keys_response
  | BHotKeys string nat "hotkey_info list"
  | BPanic

type_synonym response = "int \<times> resp_body"

record request =
  q_method :: string
  q_query :: "string \<Rightarrow> string"
  q_form :: "string \<Rightarrow> string"
  q_body :: string

record codec =
  cd_set :: "string \<Rightarrow> set_request \<times> bool"
  cd_replicate :: "string \<Rightarrow> string + set_request"
  cd_bulk :: "string \<Rightarrow> string + bulk_sync_payload"
  cd_node :: "string \<Rightarrow> (string \<times> string) option"
  cd_key :: "string \<Rightarrow> string option"

datatype outgoing =
    OutSet string string string duration u64
  | OutDelete string string

definition run_outgoing :: "repl_env \<Rightarrow> outgoing \<Rightarrow> 'l server \<Rightarrow> 'l server" where
  "run_outgoing env out s =
     (case out of
        OutSet addr k v ttl ver \<Rightarrow> s\<lparr>sv_replicator := snd (ReplicateSet env addr k v ttl ver (sv_replicator s))\<rparr>
      | OutDelete addr k \<Rightarrow> s)"

subsection \<open>Construction\<close>

definition self_addr :: "server_config \<Rightarrow> string" where
  "self_addr cfg =
     (if sc_Host cfg = ''0.0.0.0'' then ''http://localhost:'' @ itoa (sc_Port cfg)
      else ''http://'' @ sc_Host cfg @ '':'' @ itoa (sc_Port cfg))"

text \<open>The address and the id a peer setting stands for.\<close>

definition parse_peer :: "string \<Rightarrow> string \<times> string" where
  "parse_peer p =
     (if CHR ''='' \<in> set p
      then (let (a, b) = split_at_char (CHR ''='') p in (TrimSpace a, TrimSpace b))
      else (p, p))"

text \<open>\<open>ord\<close> is the order in which the map of peers is visited when they are put on the ring.\<close>

definition server_New :: "(string \<Rightarrow> gtime) \<Rightarrow> string list \<Rightarrow> server_config \<Rightarrow> cache \<Rightarrow> 'l server" where
  "server_New clock ord cfg c =
     (let selfAddr = self_addr cfg;
          parsed = map parse_peer (sc_Peers cfg);
          peerAddrs = map snd parsed;
          peerIDToAddr = fold (\<lambda>(pID, pAddr) m. gm_put pID pAddr m) parsed [];
          vnodes = (if sc_VNodes cfg \<le> 0 then 50 else sc_VNodes cfg);
          ring0 = ring_AddNode (sc_NodeID cfg) selfAddr (ring_New vnodes None);
          ring = fold (\<lambda>pID h. ring_AddNode pID (gm_get [] peerIDToAddr pID) h) ord ring0;
          healthCfg = \<lparr>hcf_SelfNodeID = sc_NodeID cfg, hcf_SelfAddr = selfAddr, hcf_Peers = peerIDToAddr,
                       hcf_HeartbeatInterval = sc_HeartbeatInterval cfg, hcf_SuspectTimeout = sc_SuspectTimeout cfg,
                       hcf_FailTimeout = sc_FailTimeout cfg\<rparr>
      in \<lparr>sv_config = cfg, sv_cache = c,
          sv_peerManager = NewPeerManager (sc_NodeID cfg) selfAddr peerAddrs (2 * second),
          sv_hashRing = ring, sv_replicator = replicator_New (2 * second),
          sv_healthMonitor = NewMonitor clock healthCfg, sv_failoverRouter = NewRouter (1500 * millisecond),
          sv_rebalanceManager = NewManager (sc_NodeID cfg) selfAddr (3 * second),
          sv_hotkeyDetector = NewDetector \<lparr>hc_WindowDuration = sc_HotkeyWindow cfg, hc_ThresholdCount = sc_HotkeyThreshold cfg\<rparr>\<rparr>)"

subsection \<open>Writes\<close>

definition not_allowed :: "string \<Rightarrow> response" where
  "not_allowed txt = (405, BText (''{\"error\":\"'' @ txt @ ''\"}'' @ [CHR 0x0A]))"

text \<open>The request of \<^verbatim>\<open>POST /set\<close>: strict JSON, then the tolerant extraction, then query and form.\<close>

definition set_request_of :: "codec \<Rightarrow> request \<Rightarrow> set_request" where
  "set_request_of cd q =
     (let zero = \<lparr>sr_Key = [], sr_Value = [], sr_TTLSeconds = 0, sr_Version = 0, sr_IsReplica = False\<rparr>;
          raw = q_body q;
          r1 = (if 0 < length raw
                then (let (r, failed) = cd_set cd raw
                      in if failed
                         then (let r' = r\<lparr>sr_Key := extractField raw ''key'', sr_Value := extractField raw ''value''\<rparr>;
                                   ttlStr = extractField raw ''ttl_seconds''
                               in if ttlStr \<noteq> []
                                  then (case Sscanf_d ttlStr of Some n \<Rightarrow> r'\<lparr>sr_TTLSeconds := n\<rparr> | None \<Rightarrow> r') else r')
                         else r)
                else zero);
          r2 = (if TrimSpace (sr_Key r1) = []
                then r1\<lparr>sr_Key := (if q_query q ''key'' = [] then q_form q ''key'' else q_query q ''key'')\<rparr> else r1);
          r3 = (if TrimSpace (sr_Value r2) = []
                then r2\<lparr>sr_Value := (if q_query q ''value'' = [] then q_form q ''value'' else q_query q ''value'')\<rparr> else r2)
      in if sr_TTLSeconds r3 = 0
         then (if q_query q ''ttl_seconds'' \<noteq> []
               then (case Sscanf_d (q_query q ''ttl_seconds'') of Some n \<Rightarrow> r3\<lparr>sr_TTLSeconds := n\<rparr> | None \<Rightarrow> r3)
               else if q_query q ''ttl'' \<noteq> []
               then (case Sscanf_d (q_query q ''ttl'') of Some n \<Rightarrow> r3\<lparr>sr_TTLSeconds := n\<rparr> | None \<Rightarrow> r3)
               else r3)
         else r3)"

definition handleSet :: "codec \<Rightarrow> gtime \<Rightarrow> request \<Rightarrow> 'l server \<Rightarrow> response \<times> outgoing list \<times> 'l server" where
  "handleSet cd now q s =
     (if q_method q \<noteq> ''POST'' then (not_allowed ''Method not allowed, use POST'', [], s)
      else let req = set_request_of cd q
           in if TrimSpace (sr_Key req) = []
              then ((400, BError ''Key cannot be empty (provide JSON body or ?key=...&value=...)''), [], s)
              else let ttl = ingest_ttl (sr_TTLSeconds req);
                       (item, c) = cache_SetWithMetadata now (sr_Key req) (sr_Value req) ttl (sr_Version req) (sr_IsReplica req) (sv_cache s);
                       (replicaNodeID, outs) =
                         (if \<not> sr_IsReplica req
                          then (case ring_GetNodes (sv_hashRing s) (sr_Key req) 2 of
                                  Inr (t # replicaTarget # _) \<Rightarrow>
                                    (nt_NodeID replicaTarget,
                                     if nt_NodeID replicaTarget \<noteq> sc_NodeID (sv_config s) \<and> nt_Addr replicaTarget \<noteq> []
                                     then [OutSet (nt_Addr replicaTarget) (it_Key item) (it_Value item) ttl (it_Version item)] else [])
                                | _ \<Rightarrow> ([], []))
                          else ([], []))
                   in ((200, BSet \<lparr>sp_Status = ''stored'', sp_Key = it_Key item, sp_NodeID = sc_NodeID (sv_config s),
                                   sp_Version = it_Version item, sp_IsReplica = it_IsReplica item, sp_ReplicaNode = replicaNodeID\<rparr>),
                       outs, s\<lparr>sv_cache := c\<rparr>))"

definition handleInternalReplicate :: "codec \<Rightarrow> gtime \<Rightarrow> request \<Rightarrow> 'l server \<Rightarrow> response \<times> 'l server" where
  "handleInternalReplicate cd now q s =
     (if q_method q \<noteq> ''POST'' then (not_allowed ''Method not allowed, use POST'', s)
      else case cd_replicate cd (q_body q) of
             Inl err \<Rightarrow> ((400, BError (''Invalid JSON body: '' @ err)), s)
           | Inr req \<Rightarrow>
               let ttl = ingest_ttl (sr_TTLSeconds req);
                   (item, c) = cache_SetWithMetadata now (sr_Key req) (sr_Value req) ttl (sr_Version req) True (sv_cache s)
               in ((200, BSet \<lparr>sp_Status = ''replicated'', sp_Key = it_Key item, sp_NodeID = sc_NodeID (sv_config s),
                               sp_Version = it_Version item, sp_IsReplica = True, sp_ReplicaNode = []\<rparr>),
                   s\<lparr>sv_cache := c\<rparr>))"

definition handleInternalReplicateDelete :: "request \<Rightarrow> 'l server \<Rightarrow> response \<times> 'l server" where
  "handleInternalReplicateDelete q s =
     (if q_method q \<noteq> ''DELETE'' \<and> q_method q \<noteq> ''POST'' then (not_allowed ''Method not allowed'', s)
      else let key = q_query q ''key''
           in if key = [] then ((400, BError ''Missing key''), s)
              else ((200, BReplicaDeleted key), s\<lparr>sv_cache := snd (cache_Delete key (sv_cache s))\<rparr>))"

definition handleDelete :: "codec \<Rightarrow> request \<Rightarrow> 'l server \<Rightarrow> response \<times> outgoing list \<times> 'l server" where
  "handleDelete cd q s =
     (if q_method q \<noteq> ''DELETE'' \<and> q_method q \<noteq> ''POST'' then (not_allowed ''Method not allowed, use DELETE'', [], s)
      else let key0 = q_query q ''key'';
               key = (if key0 = [] then (case cd_key cd (q_body q) of Some k \<Rightarrow> k | None \<Rightarrow> key0) else key0)
           in if TrimSpace key = [] then ((400, BError ''Missing required parameter: key''), [], s)
              else let (deleted, c) = cache_Delete key (sv_cache s);
                       outs = (case ring_GetNodes (sv_hashRing s) key 2 of
                                 Inr (t # replicaTarget # _) \<Rightarrow>
                                   if nt_NodeID replicaTarget \<noteq> sc_NodeID (sv_config s) \<and> nt_Addr replicaTarget \<noteq> []
                                   then [OutDelete (nt_Addr replicaTarget) key] else []
                               | _ \<Rightarrow> [])
                   in (if \<not> deleted
                       then (404, BDelete \<lparr>dp_Status = ''not_found'', dp_Key = key, dp_NodeID = sc_NodeID (sv_config s),
                                           dp_Message = ''Key does not exist''\<rparr>)
                       else (200, BDelete \<lparr>dp_Status = ''deleted'', dp_Key = key, dp_NodeID = sc_NodeID (sv_config s), dp_Message = []\<rparr>),
                       outs, s\<lparr>sv_cache := c\<rparr>))"

subsection \<open>Reads\<close>

text \<open>The readings of the clock of one read: the two of \<open>Get\<close>, the one of \<open>RecordAccess\<close>, and those of
  \<open>TTLRemaining\<close> for the promotion and for the response.\<close>

record get_clock =
  gc_get :: gtime
  gc_evict :: gtime
  gc_access :: gtime
  gc_promote :: gtime
  gc_reply :: gtime

definition promotion_ttl :: "int \<Rightarrow> duration" where
  "promotion_ttl ttlRemaining = (if 0 < ttlRemaining then wrap64 (ttlRemaining * second) else 0)"

definition handleGet :: "get_clock \<Rightarrow> request \<Rightarrow> 'l server \<Rightarrow> response \<times> outgoing list \<times> 'l server" where
  "handleGet t q s =
     (if q_method q \<noteq> ''GET'' then (not_allowed ''Method not allowed, use GET'', [], s)
      else let key = q_query q ''key''
           in if TrimSpace key = [] then ((400, BError ''Missing required query parameter: key''), [], s)
              else let (found, c) = cache_Get (gc_get t) (gc_evict t) key (sv_cache s); s1 = s\<lparr>sv_cache := c\<rparr>
                   in case found of
                        None \<Rightarrow>
                          ((404, BGet \<lparr>gp_Status = ''miss'', gp_Key = key, gp_Value = [], gp_TTLRemaining = 0, gp_Version = 0,
                                       gp_IsReplica = False, gp_IsHot = False, gp_RequestCount = 0,
                                       gp_NodeID = sc_NodeID (sv_config s), gp_Message = ''Key not found or expired''\<rparr>), [], s1)
                      | Some item \<Rightarrow>
                          let ((isHot, count), d) = RecordAccess (gc_access t) key (sv_hotkeyDetector s1);
                              outs = (if isHot
                                      then (case ring_GetNodes (sv_hashRing s1) key 3 of
                                              Inr (t1 # t2 # extraReplica # _) \<Rightarrow>
                                                if nt_NodeID extraReplica \<noteq> sc_NodeID (sv_config s) \<and> nt_Addr extraReplica \<noteq> []
                                                then [OutSet (nt_Addr extraReplica) (it_Key item) (it_Value item)
                                                        (promotion_ttl (item_TTLRemaining (gc_promote t) item)) (it_Version item)]
                                                else []
                                            | _ \<Rightarrow> [])
                                      else [])
                          in ((200, BGet \<lparr>gp_Status = ''hit'', gp_Key = it_Key item, gp_Value = it_Value item,
                                          gp_TTLRemaining = item_TTLRemaining (gc_reply t) item, gp_Version = it_Version item,
                                          gp_IsReplica = it_IsReplica item, gp_IsHot = isHot, gp_RequestCount = count,
                                          gp_NodeID = sc_NodeID (sv_config s), gp_Message = []\<rparr>),
                              outs, s1\<lparr>sv_hotkeyDetector := d\<rparr>))"

definition route_error_text :: "route_error \<Rightarrow> string" where
  "route_error_text e =
     (case e of
        ErrNoHealthyNodes \<Rightarrow> ''failover error: no healthy primary or replica nodes available''
      | ErrReadFailed key primary st \<Rightarrow>
          ''read failed for key '' @ [CHR 0x27] @ key @ [CHR 0x27] @ '': primary '' @ primary @ '' ('' @ st @ '') and replica unavailable'')"

definition handleRouteGet :: "read_env \<Rightarrow> request \<Rightarrow> 'l monitor \<Rightarrow> 'l server \<Rightarrow> response \<times> 'l server" where
  "handleRouteGet env q mon' s =
     (if q_method q \<noteq> ''GET'' then (not_allowed ''Method not allowed, use GET'', s)
      else let key = q_query q ''key''
           in if TrimSpace key = [] then ((400, BError ''Missing key query parameter''), s)
              else let (res, r) = RouteGet env (sv_hashRing s) (sv_healthMonitor s) mon' key (sv_failoverRouter s);
                       s1 = s\<lparr>sv_failoverRouter := r\<rparr>
                   in case res of
                        Inl err \<Rightarrow> ((404, BReadError key (route_error_text err)), s1)
                      | Inr result \<Rightarrow> ((200, BRead result), s1))"


definition handleHotKeys :: "gtime \<Rightarrow> string list \<Rightarrow> request \<Rightarrow> 'l server \<Rightarrow> response \<times> 'l server" where
  "handleHotKeys now ord q s =
     (if q_method q \<noteq> ''GET'' then (not_allowed ''Method not allowed'', s)
      else let (hotList, d) = GetHotKeys now ord (sv_hotkeyDetector s)
           in ((200, BHotKeys (sc_NodeID (sv_config s)) (length hotList) hotList), s\<lparr>sv_hotkeyDetector := d\<rparr>))"

subsection \<open>Recovery and rebalancing\<close>

definition handleInternalDump :: "gtime \<Rightarrow> string list \<Rightarrow> (string \<Rightarrow> key_clock) \<Rightarrow> request \<Rightarrow> 'l server \<Rightarrow> response \<times> 'l server" where
  "handleInternalDump now ord clock q s =
     (if q_method q \<noteq> ''GET'' then (not_allowed ''Method not allowed'', s)
      else let (items, c) = DumpLocalKeys now ord clock (sv_cache s)
           in ((200, BDump (sc_NodeID (sv_config s)) (length items) items), s\<lparr>sv_cache := c\<rparr>))"

definition handleInternalSyncBulk :: "codec \<Rightarrow> (nat \<Rightarrow> gtime) \<Rightarrow> request \<Rightarrow> 'l server \<Rightarrow> response \<times> 'l server" where
  "handleInternalSyncBulk cd clock q s =
     (if q_method q \<noteq> ''POST'' then (not_allowed ''Method not allowed, use POST'', s)
      else case cd_bulk cd (q_body q) of
             Inl err \<Rightarrow> ((400, BError (''Invalid bulk payload: '' @ err)), s)
           | Inr payload \<Rightarrow>
               let (ingested, c) = IngestBulkKeys clock (bp_Items payload) (sv_cache s)
               in ((200, BBulk (sc_NodeID (sv_config s)) ingested), s\<lparr>sv_cache := c\<rparr>))"

definition sync_error_text :: "sync_error \<Rightarrow> string" where
  "sync_error_text e = (case e of SyncErr err \<Rightarrow> err | SyncStatus n \<Rightarrow> ''peer returned non-200 status: '' @ itoa n)"

definition handleInternalRebalance ::
  "codec \<Rightarrow> sync_env \<Rightarrow> rebalance_clock \<Rightarrow> string list \<Rightarrow> request \<Rightarrow> 'l server \<Rightarrow> response \<times> 'l server" where
  "handleInternalRebalance cd env clock ord q s =
     (if q_method q \<noteq> ''POST'' then (not_allowed ''Method not allowed, use POST'', s)
      else let bad = ((400, BError ''Provide node_id and addr in JSON''), s)
           in case cd_node cd (q_body q) of
                None \<Rightarrow> bad
              | Some (nodeID, addr) \<Rightarrow>
                  if nodeID = [] \<or> addr = [] then bad
                  else let (res, mgr, ring, c) =
                             RebalanceForNewNode env clock ord nodeID addr (sv_rebalanceManager s) (sv_hashRing s) (sv_cache s);
                           s1 = s\<lparr>sv_rebalanceManager := mgr, sv_hashRing := ring, sv_cache := c\<rparr>
                       in case res of
                            Inl err \<Rightarrow> ((500, BError (sync_error_text err)), s1)
                          | Inr report \<Rightarrow> ((200, BReport report), s1))"

definition handleDebugRebalanceStats :: "request \<Rightarrow> 'l server \<Rightarrow> response" where
  "handleDebugRebalanceStats q s =
     (if q_method q \<noteq> ''GET'' then not_allowed ''Method not allowed, use GET''
      else let reports = GetReports (sv_rebalanceManager s)
           in (200, BReports (sc_NodeID (sv_config s)) (length reports) reports))"

subsection \<open>Status\<close>

definition handleCluster :: "gtime \<Rightarrow> request \<Rightarrow> 'l server \<Rightarrow> response" where
  "handleCluster now q s =
     (if q_method q \<noteq> ''GET'' then not_allowed ''Method not allowed, use GET''
      else (200, BCluster (GetClusterView now (sv_healthMonitor s))))"

definition handleHealth :: "gtime \<Rightarrow> request \<Rightarrow> 'l server \<Rightarrow> response" where
  "handleHealth now q s =
     (if q_method q \<noteq> ''GET'' then not_allowed ''Method not allowed''
      else (200, BHealth \<lparr>hp_Status = ''UP'', hp_NodeID = sc_NodeID (sv_config s), hp_State = ''ALIVE'',
                          hp_UptimeSeconds = cs_UptimeSeconds (cache_Stats now (sv_cache s))\<rparr>))"

definition handleStats :: "gtime \<Rightarrow> request \<Rightarrow> 'l server \<Rightarrow> response" where
  "handleStats now q s =
     (if q_method q \<noteq> ''GET'' then not_allowed ''Method not allowed''
      else let stats = cache_Stats now (sv_cache s)
           in (200, BStats
                 \<lparr>tp_NodeID = sc_NodeID (sv_config s), tp_State = ''ALIVE'', tp_TotalKeys = cs_TotalKeys stats,
                  tp_PrimaryKeys = cs_PrimaryKeys stats, tp_ReplicaKeys = cs_ReplicaKeys stats, tp_HitCount = cs_HitCount stats,
                  tp_MissCount = cs_MissCount stats, tp_SetCount = cs_SetCount stats, tp_DeleteCount = cs_DeleteCount stats,
                  tp_ExpiredCount = cs_ExpiredCount stats, tp_ReplicationStats = replicator_Stats (sv_replicator s),
                  tp_FailoverStats = router_Stats (sv_failoverRouter s), tp_UptimeSeconds = cs_UptimeSeconds stats\<rparr>))"

definition handleInternalHealth :: "gtime \<Rightarrow> request \<Rightarrow> 'l server \<Rightarrow> response" where
  "handleInternalHealth now q s =
     (if q_method q \<noteq> ''GET'' then not_allowed ''Method not allowed''
      else let stats = cache_Stats now (sv_cache s)
           in (200, BInternalHealth
                 \<lparr>ih_Status = ''UP'', ih_NodeID = sc_NodeID (sv_config s), ih_State = ''ALIVE'', ih_Addr = self_addr (sv_config s),
                  ih_PrimaryKeys = int (cs_PrimaryKeys stats), ih_ReplicaKeys = int (cs_ReplicaKeys stats),
                  ih_HitCount = cs_HitCount stats, ih_UptimeSeconds = cs_UptimeSeconds stats\<rparr>))"

definition handleInternalStats :: "gtime \<Rightarrow> request \<Rightarrow> 'l server \<Rightarrow> response" where
  "handleInternalStats now q s =
     (if q_method q \<noteq> ''GET'' then not_allowed ''Method not allowed''
      else let stats = cache_Stats now (sv_cache s)
           in (200, BInternalStats
                 \<lparr>is_NodeID = sc_NodeID (sv_config s), is_State = ''ALIVE'', is_TotalKeys = int (cs_TotalKeys stats),
                  is_HitCount = cs_HitCount stats, is_MissCount = cs_MissCount stats, is_SetCount = cs_SetCount stats,
                  is_DeleteCount = cs_DeleteCount stats, is_ExpiredCount = cs_ExpiredCount stats,
                  is_UptimeSeconds = cs_UptimeSeconds stats\<rparr>))"

text \<open>\<open>ord\<close> is the order of the goroutines of the check, \<open>ord2\<close> the order in which the result is visited.\<close>

definition handleInternalPeers ::
  "(nat \<Rightarrow> peer_env) \<Rightarrow> nat list \<Rightarrow> string list \<Rightarrow> request \<Rightarrow> 'l server \<Rightarrow> response \<times> 'l server" where
  "handleInternalPeers env ord ord2 q s =
     (if q_method q \<noteq> ''GET'' then (not_allowed ''Method not allowed'', s)
      else if q_query q ''refresh'' = ''true''
      then (let (results, pm) = CheckAllPeers env ord (sv_peerManager s);
                ring = fold (\<lambda>addr h. case map_of results addr of
                                        Some st \<Rightarrow> if ps_Reachable st \<and> ps_NodeID st \<noteq> [] then ring_AddNode (ps_NodeID st) addr h else h
                                      | None \<Rightarrow> h) ord2 (sv_hashRing s)
            in ((200, BPeers (sc_NodeID (sv_config s)) results), s\<lparr>sv_peerManager := pm, sv_hashRing := ring\<rparr>))
      else ((200, BPeers (sc_NodeID (sv_config s)) (GetPeersStatus (sv_peerManager s))), s))"

subsection \<open>Inspection\<close>

definition handleDebugRing :: "string list \<Rightarrow> request \<Rightarrow> 'l server \<Rightarrow> response" where
  "handleDebugRing ord q s =
     (if q_method q \<noteq> ''GET'' then not_allowed ''Method not allowed'' else (200, BRing (ring_GetTopology (sv_hashRing s) ord)))"

definition handleDebugLocate :: "request \<Rightarrow> 'l server \<Rightarrow> response" where
  "handleDebugLocate q s =
     (if q_method q \<noteq> ''GET'' then not_allowed ''Method not allowed''
      else let key = q_query q ''key''
           in if TrimSpace key = [] then (400, BError ''Missing query parameter: key'')
              else case ring_GetNodes (sv_hashRing s) key 2 of
                     Inl ErrNoNodesInRing \<Rightarrow> (500, BError ''hash ring is empty: no nodes available'')
                   | Inl PanicMakeCap \<Rightarrow> (500, BPanic)
                   | Inr [] \<Rightarrow> (500, BPanic)
                   | Inr (t # ts) \<Rightarrow>
                       (200, BLocate \<lparr>lp_Key = key, lp_Hash = ring_HashKey (sv_hashRing s) key, lp_PrimaryNode = nt_NodeID t,
                              lp_PrimaryAddr = nt_Addr t,
                              lp_ReplicaNode = (case ts of [] \<Rightarrow> [] | t' # _ \<Rightarrow> nt_NodeID t'),
                              lp_ReplicaAddr = (case ts of [] \<Rightarrow> [] | t' # _ \<Rightarrow> nt_Addr t'),
                              lp_IsLocal = (nt_NodeID t = sc_NodeID (sv_config s))\<rparr>))"

definition own_key :: "(string \<Rightarrow> key_clock) \<Rightarrow> string \<Rightarrow> string list \<times> string list \<times> cache \<Rightarrow> string list \<times> string list \<times> cache" where
  "own_key clock k st =
     (let (ps, rs, c) = st; (found, c') = cache_Get (kc_get (clock k)) (kc_evict (clock k)) k c
      in case found of
           Some item \<Rightarrow> if it_IsReplica item then (ps, rs @ [k], c') else (ps @ [k], rs, c')
         | None \<Rightarrow> (ps, rs, c'))"

definition handleDebugOwnedKeys ::
  "gtime \<Rightarrow> string list \<Rightarrow> (string \<Rightarrow> key_clock) \<Rightarrow> request \<Rightarrow> 'l server \<Rightarrow> response \<times> 'l server" where
  "handleDebugOwnedKeys now ord clock q s =
     (if q_method q \<noteq> ''GET'' then (not_allowed ''Method not allowed'', s)
      else let allKeys = cache_Keys now ord (sv_cache s);
               (ps, rs, c) = fold (own_key clock) allKeys ([], [], sv_cache s)
           in ((200, BOwned \<lparr>op_NodeID = sc_NodeID (sv_config s), op_TotalKeys = length allKeys, op_PrimaryKeys = ps, op_ReplicaKeys = rs\<rparr>),
               s\<lparr>sv_cache := c\<rparr>))"

subsection \<open>Dispatch\<close>

text \<open>What a request meets: the decoders, the clocks, the visiting orders of maps and the exchanges.\<close>

record 'l serve_env =
  se_codec :: codec
  se_now :: gtime
  se_getClock :: get_clock
  se_keyClock :: "string \<Rightarrow> key_clock"
  se_ingestClock :: "nat \<Rightarrow> gtime"
  se_rebalanceClock :: rebalance_clock
  se_order :: "string list"
  se_peerOrder :: "nat list"
  se_read :: read_env
  se_sync :: sync_env
  se_peer :: "nat \<Rightarrow> peer_env"
  se_monitor2 :: "'l monitor"

definition quiet :: "'s \<Rightarrow> response \<Rightarrow> response \<times> outgoing list \<times> 's" where
  "quiet s r = (r, [], s)"

definition silent :: "response \<times> 's \<Rightarrow> response \<times> outgoing list \<times> 's" where
  "silent p = (fst p, [], snd p)"

definition routes :: "'l serve_env \<Rightarrow> string \<Rightarrow> request \<Rightarrow> 'l server \<Rightarrow> (response \<times> outgoing list \<times> 'l server) option" where
  "routes e path q s =
     (if path = ''/health'' then Some (quiet s (handleHealth (se_now e) q s))
      else if path = ''/stats'' then Some (quiet s (handleStats (se_now e) q s))
      else if path = ''/set'' then Some (handleSet (se_codec e) (se_now e) q s)
      else if path = ''/get'' then Some (handleGet (se_getClock e) q s)
      else if path = ''/delete'' then Some (handleDelete (se_codec e) q s)
      else if path = ''/cluster'' then Some (quiet s (handleCluster (se_now e) q s))
      else if path = ''/route/get'' then Some (silent (handleRouteGet (se_read e) q (se_monitor2 e) s))
      else if path = ''/internal/dump'' then Some (silent (handleInternalDump (se_now e) (se_order e) (se_keyClock e) q s))
      else if path = ''/internal/sync/bulk'' then Some (silent (handleInternalSyncBulk (se_codec e) (se_ingestClock e) q s))
      else if path = ''/internal/rebalance''
      then Some (silent (handleInternalRebalance (se_codec e) (se_sync e) (se_rebalanceClock e) (se_order e) q s))
      else if path = ''/debug/rebalance-stats'' then Some (quiet s (handleDebugRebalanceStats q s))
      else if path = ''/hotkeys'' then Some (silent (handleHotKeys (se_now e) (se_order e) q s))
      else if path = ''/internal/health'' then Some (quiet s (handleInternalHealth (se_now e) q s))
      else if path = ''/internal/stats'' then Some (quiet s (handleInternalStats (se_now e) q s))
      else if path = ''/internal/peers'' then Some (silent (handleInternalPeers (se_peer e) (se_peerOrder e) (se_order e) q s))
      else if path = ''/internal/replicate'' then Some (silent (handleInternalReplicate (se_codec e) (se_now e) q s))
      else if path = ''/internal/replicate-delete'' then Some (silent (handleInternalReplicateDelete q s))
      else if path = ''/debug/ring'' then Some (quiet s (handleDebugRing (se_order e) q s))
      else if path = ''/debug/locate'' then Some (quiet s (handleDebugLocate q s))
      else if path = ''/debug/owned-keys'' then Some (silent (handleDebugOwnedKeys (se_now e) (se_order e) (se_keyClock e) q s))
      else None)"

text \<open>The CORS wrapper answers \<^verbatim>\<open>OPTIONS\<close> itself; an unknown path is a 404 of the mux.\<close>

definition enableCORS :: "'l serve_env \<Rightarrow> string \<Rightarrow> request \<Rightarrow> 'l server \<Rightarrow> response \<times> outgoing list \<times> 'l server" where
  "enableCORS e path q s =
     (if q_method q = ''OPTIONS'' then ((200, BText []), [], s)
      else case routes e path q s of Some r \<Rightarrow> r | None \<Rightarrow> ((404, BText (''404 page not found'' @ [CHR 0x0A])), [], s))"

definition server_Close :: "'l server \<Rightarrow> 'l server" where
  "server_Close s = s\<lparr>sv_healthMonitor := monitor_Stop (sv_healthMonitor s)\<rparr>"

end
