(* ===== verification/Node_Properties.thy ===== *)
theory Node_Properties
  imports Node_Server
begin

text \<open>
  What a cache node promises over HTTP: every request keeps the node's state well-formed, a write is
  stored and sent to the second owner of its key, a read answers from the live entries, and the message
  to the replica leaves there what the primary stored.
\<close>

section \<open>The invariant\<close>

declare map_of_eq_Some_iff [simp del]

definition server_inv :: "'l server \<Rightarrow> bool" where
  "server_inv s \<longleftrightarrow> cache_wf (sv_cache s) \<and> ring_wf (sv_hashRing s) \<and> mon_wf (sv_healthMonitor s)"

lemma wf_set: "cache_wf c \<Longrightarrow> cache_wf (snd (cache_SetWithMetadata now k v ttl ver rep c))"
  using wf_step [of c "OpSet now k v ttl ver rep"] by simp

lemma wf_get: "cache_wf c \<Longrightarrow> cache_wf (snd (cache_Get t1 t2 k c))"
  using wf_step [of c "OpGet t1 t2 k"] by simp

lemma wf_delete: "cache_wf c \<Longrightarrow> cache_wf (snd (cache_Delete k c))"
  using wf_step [of c "OpDelete k"] by simp

lemmas wf_ops = wf_set wf_get wf_delete

lemma wf_dump: "cache_wf (snd s) \<Longrightarrow> cache_wf (snd (fold (dump_key clock) ks s))"
  by (induction ks arbitrary: s) (simp_all add: dump_key_eq wf_get)

lemma wf_ingest: "cache_wf c \<Longrightarrow> cache_wf (snd (ingest_items clock is n c))"
  by (simp add: ingest_items_eq cs.bulk_valid)

lemma migrate_key_cache:
  "snd (migrate_key clock h new k s) \<in> {snd s, snd (cache_Get (kc_get (clock k)) (kc_evict (clock k)) k (snd s))}"
  by (auto simp: migrate_key_def case_prod_unfold Let_def split: sum.splits list.splits option.splits)

lemma wf_migrate: "cache_wf (snd s) \<Longrightarrow> cache_wf (snd (fold (migrate_key clock h new) ks s))"
proof (induction ks arbitrary: s)
  case (Cons k ks)
  have "cache_wf (snd (migrate_key clock h new k s))"
    using migrate_key_cache [of clock h new k s] Cons.prems wf_get by auto
  with Cons.IH show ?case by simp
qed simp

lemma wf_own: "cache_wf (snd (snd st)) \<Longrightarrow> cache_wf (snd (snd (fold (own_key clock) ks st)))"
proof (induction ks arbitrary: st)
  case (Cons k ks)
  have "snd (snd (own_key clock k st)) = snd (cache_Get (kc_get (clock k)) (kc_evict (clock k)) k (snd (snd st)))"
    by (simp add: own_key_def case_prod_unfold Let_def split: option.splits)
  with Cons show ?case by (simp add: wf_get)
qed simp

text \<open>What each handler does to the three parts of the state the invariant speaks of.\<close>

lemma handleSet_inv:
  "server_inv s \<Longrightarrow> server_inv (snd (snd (handleSet cd now q s)))"
  "sv_hashRing (snd (snd (handleSet cd now q s))) = sv_hashRing s"
  "sv_healthMonitor (snd (snd (handleSet cd now q s))) = sv_healthMonitor s"
  by (simp_all add: handleSet_def Let_def case_prod_unfold server_inv_def wf_ops)

lemma handleGet_inv:
  "server_inv s \<Longrightarrow> server_inv (snd (snd (handleGet t q s)))"
  "sv_hashRing (snd (snd (handleGet t q s))) = sv_hashRing s"
  "sv_healthMonitor (snd (snd (handleGet t q s))) = sv_healthMonitor s"
  by (simp_all add: handleGet_def Let_def case_prod_unfold server_inv_def wf_ops split: option.split)

lemma handleDelete_inv:
  "server_inv s \<Longrightarrow> server_inv (snd (snd (handleDelete cd q s)))"
  "sv_hashRing (snd (snd (handleDelete cd q s))) = sv_hashRing s"
  "sv_healthMonitor (snd (snd (handleDelete cd q s))) = sv_healthMonitor s"
  by (simp_all add: handleDelete_def Let_def case_prod_unfold server_inv_def wf_ops)

lemma handleRouteGet_inv:
  "server_inv s \<Longrightarrow> server_inv (snd (handleRouteGet env q mon' s))"
  "sv_hashRing (snd (handleRouteGet env q mon' s)) = sv_hashRing s"
  "sv_healthMonitor (snd (handleRouteGet env q mon' s)) = sv_healthMonitor s"
  by (simp_all add: handleRouteGet_def Let_def case_prod_unfold server_inv_def split: sum.split)

lemma handleInternalReplicate_inv:
  "server_inv s \<Longrightarrow> server_inv (snd (handleInternalReplicate cd now q s))"
  "sv_hashRing (snd (handleInternalReplicate cd now q s)) = sv_hashRing s"
  "sv_healthMonitor (snd (handleInternalReplicate cd now q s)) = sv_healthMonitor s"
  by (simp_all add: handleInternalReplicate_def Let_def case_prod_unfold server_inv_def wf_ops split: sum.split)

lemma handleInternalReplicateDelete_inv:
  "server_inv s \<Longrightarrow> server_inv (snd (handleInternalReplicateDelete q s))"
  "sv_hashRing (snd (handleInternalReplicateDelete q s)) = sv_hashRing s"
  "sv_healthMonitor (snd (handleInternalReplicateDelete q s)) = sv_healthMonitor s"
  by (simp_all add: handleInternalReplicateDelete_def Let_def server_inv_def wf_ops)

lemma handleHotKeys_inv:
  "server_inv s \<Longrightarrow> server_inv (snd (handleHotKeys now ord q s))"
  "sv_hashRing (snd (handleHotKeys now ord q s)) = sv_hashRing s"
  "sv_healthMonitor (snd (handleHotKeys now ord q s)) = sv_healthMonitor s"
  by (simp_all add: handleHotKeys_def Let_def case_prod_unfold server_inv_def)

lemma handleInternalDump_inv:
  "server_inv s \<Longrightarrow> server_inv (snd (handleInternalDump now ord clock q s))"
  "sv_hashRing (snd (handleInternalDump now ord clock q s)) = sv_hashRing s"
  "sv_healthMonitor (snd (handleInternalDump now ord clock q s)) = sv_healthMonitor s"
  by (simp_all add: handleInternalDump_def DumpLocalKeys_def Let_def case_prod_unfold server_inv_def wf_dump)

lemma handleInternalSyncBulk_inv:
  "server_inv s \<Longrightarrow> server_inv (snd (handleInternalSyncBulk cd clock q s))"
  "sv_hashRing (snd (handleInternalSyncBulk cd clock q s)) = sv_hashRing s"
  "sv_healthMonitor (snd (handleInternalSyncBulk cd clock q s)) = sv_healthMonitor s"
  by (simp_all add: handleInternalSyncBulk_def IngestBulkKeys_def Let_def case_prod_unfold server_inv_def wf_ingest split: sum.split)

lemma handleDebugOwnedKeys_inv:
  "server_inv s \<Longrightarrow> server_inv (snd (handleDebugOwnedKeys now ord clock q s))"
  "sv_hashRing (snd (handleDebugOwnedKeys now ord clock q s)) = sv_hashRing s"
  "sv_healthMonitor (snd (handleDebugOwnedKeys now ord clock q s)) = sv_healthMonitor s"
  by (simp_all add: handleDebugOwnedKeys_def Let_def case_prod_unfold server_inv_def wf_own)

lemma Rebalance_state:
  "fst (snd (snd (RebalanceForNewNode env clock ord n a mgr h c))) = ring_AddNode n a h"
  "cache_wf c \<Longrightarrow> cache_wf (snd (snd (snd (RebalanceForNewNode env clock ord n a mgr h c))))"
  by (simp_all add: RebalanceForNewNode_def collect_migration_def Let_def case_prod_unfold wf_migrate split: option.split)

lemma handleInternalRebalance_inv:
  "server_inv s \<Longrightarrow> server_inv (snd (handleInternalRebalance cd env clock ord q s))"
  "sv_healthMonitor (snd (handleInternalRebalance cd env clock ord q s)) = sv_healthMonitor s"
  by (simp_all add: handleInternalRebalance_def Let_def case_prod_unfold server_inv_def Rebalance_state ring_wf_AddNode
      split: sum.split option.split)

lemma ring_wf_discover:
  "ring_wf h \<Longrightarrow> ring_wf (fold (\<lambda>addr h. case map_of results addr of
      Some st \<Rightarrow> if ps_Reachable st \<and> ps_NodeID st \<noteq> [] then ring_AddNode (ps_NodeID st) addr h else h | None \<Rightarrow> h) ord h)"
  by (induction ord arbitrary: h) (simp_all add: ring_wf_AddNode split: option.split)

lemma handleInternalPeers_inv:
  "server_inv s \<Longrightarrow> server_inv (snd (handleInternalPeers env ord ord2 q s))"
  "sv_healthMonitor (snd (handleInternalPeers env ord ord2 q s)) = sv_healthMonitor s"
  by (simp_all add: handleInternalPeers_def Let_def case_prod_unfold server_inv_def ring_wf_discover)

lemmas handler_inv = handleSet_inv handleGet_inv handleDelete_inv handleRouteGet_inv handleInternalReplicate_inv
  handleInternalReplicateDelete_inv handleHotKeys_inv handleInternalDump_inv handleInternalSyncBulk_inv handleDebugOwnedKeys_inv
  handleInternalRebalance_inv handleInternalPeers_inv

text \<open>No request can corrupt a node: whatever the method, path, headers and body of a request and
  whatever the network answers meanwhile, a well-formed node (a cache that files every
  entry once and under its key, a well-formed ring, a membership that contains the node itself)
  stays well-formed; only \<^verbatim>\<open>/internal/rebalance\<close> and \<^verbatim>\<open>/internal/peers\<close> can change the ring, and none the membership.\<close>

theorem server_request_keeps_invariant:
  assumes "server_inv s"
  shows "server_inv (snd (snd (enableCORS e path q s)))
    \<and> sv_healthMonitor (snd (snd (enableCORS e path q s))) = sv_healthMonitor s
    \<and> (path \<notin> {''/internal/rebalance'', ''/internal/peers''} \<longrightarrow>
        sv_hashRing (snd (snd (enableCORS e path q s))) = sv_hashRing s)"
proof -
  have "routes e path q s = Some r \<Longrightarrow> server_inv (snd (snd r)) \<and> sv_healthMonitor (snd (snd r)) = sv_healthMonitor s
      \<and> (path \<notin> {''/internal/rebalance'', ''/internal/peers''} \<longrightarrow> sv_hashRing (snd (snd r)) = sv_hashRing s)" for r
    using assms unfolding routes_def quiet_def silent_def
    by (auto simp: handler_inv split: if_split_asm)
  then show ?thesis using assms by (simp add: enableCORS_def split: option.split)
qed


text \<open>A node on the concrete ring, with an idle monitor.\<close>

definition demo_config :: "string \<Rightarrow> server_config" where
  "demo_config nid = \<lparr>sc_NodeID = nid, sc_Host = ''0.0.0.0'', sc_Port = 8001, sc_Peers = [], sc_VNodes = 1, sc_HeartbeatInterval = 0,
     sc_SuspectTimeout = 0, sc_FailTimeout = 0, sc_HotkeyWindow = 0, sc_HotkeyThreshold = 0\<rparr>"

definition demo_server :: "string \<Rightarrow> cache \<Rightarrow> string server" where
  "demo_server nid c = (server_New (\<lambda>_. 0) [] (demo_config nid) c)\<lparr>sv_hashRing := demo_ring, sv_healthMonitor := demo_idle_monitor\<rparr>"

lemma demo_server_simps [simp]:
  "sv_cache (demo_server nid c) = c" "sv_hashRing (demo_server nid c) = demo_ring"
  "sv_healthMonitor (demo_server nid c) = demo_idle_monitor" "sc_NodeID (sv_config (demo_server nid c)) = nid"
  by (simp_all add: demo_server_def server_New_def demo_config_def Let_def)

lemma demo_server_inv: "cache_wf c \<Longrightarrow> server_inv (demo_server nid c)"
  unfolding server_inv_def demo_server_simps demo_idle_monitor_def
  using demo_ring_wf NewMonitor_alive by blast

definition demo_request :: "string \<Rightarrow> string \<Rightarrow> request" where
  "demo_request meth k = \<lparr>q_method = meth, q_query = (\<lambda>n. if n = ''key'' then k else if n = ''value'' then ''v'' else if n = ''ttl'' then ''60'' else []),
     q_form = (\<lambda>_. []), q_body = []\<rparr>"

theorem server_request_keeps_invariant_witness:
  "\<forall>e. server_inv (snd (snd (enableCORS e ''/set'' (demo_request ''POST'' ''k'') (demo_server ''A'' (cache_New 0)))))
     \<and> sv_hashRing (snd (snd (enableCORS e ''/set'' (demo_request ''POST'' ''k'') (demo_server ''A'' (cache_New 0))))) = demo_ring"
  using server_request_keeps_invariant [OF demo_server_inv [OF wf_New], of _ "''/set''" "demo_request ''POST'' ''k''" "''A''" 0] by simp

section \<open>Writes\<close>

text \<open>The request the replica decodes from a replication payload.\<close>

definition request_of_payload :: "replicate_payload \<Rightarrow> set_request" where
  "request_of_payload p = \<lparr>sr_Key = rp_Key p, sr_Value = rp_Value p, sr_TTLSeconds = rp_TTLSeconds p, sr_Version = rp_Version p,
     sr_IsReplica = rp_IsReplica p\<rparr>"

lemma ingest_ttl_whole: "0 \<le> n \<Longrightarrow> n \<le> 9223372036 \<Longrightarrow> ingest_ttl n = n * second"
  by (simp add: ingest_ttl_def wrap64_id)

text \<open>A write, computed.\<close>

abbreviation set_result :: "gtime \<Rightarrow> set_request \<Rightarrow> 'l server \<Rightarrow> item \<times> cache" where
  "set_result now req s \<equiv> cache_SetWithMetadata now (sr_Key req) (sr_Value req) (ingest_ttl (sr_TTLSeconds req)) (sr_Version req)
     (sr_IsReplica req) (sv_cache s)"

lemma handleSet_eq:
  assumes ring: "ring_exact (sv_hashRing s)" and post: "q_method q = ''POST''"
    and req: "req = set_request_of cd q" and key: "TrimSpace (sr_Key req) \<noteq> []"
  shows "handleSet cd now q s =
    ((200, BSet \<lparr>sp_Status = ''stored'', sp_Key = sr_Key req, sp_NodeID = sc_NodeID (sv_config s), sp_Version = it_Version (fst (set_result now req s)),
        sp_IsReplica = sr_IsReplica req,
        sp_ReplicaNode = (if \<not> sr_IsReplica req \<and> 1 < length (prefs (sv_hashRing s) (sr_Key req)) then prefs (sv_hashRing s) (sr_Key req) ! 1 else [])\<rparr>),
     (let ps = prefs (sv_hashRing s) (sr_Key req); addr = nt_Addr (ring_target (sv_hashRing s) (ps ! 1))
      in if \<not> sr_IsReplica req \<and> 1 < length ps \<and> ps ! 1 \<noteq> sc_NodeID (sv_config s) \<and> addr \<noteq> []
         then [OutSet addr (sr_Key req) (sr_Value req) (ingest_ttl (sr_TTLSeconds req)) (it_Version (fst (set_result now req s)))] else []),
     s\<lparr>sv_cache := snd (set_result now req s)\<rparr>)"
proof -
  let ?h = "sv_hashRing s" and ?ps = "prefs (sv_hashRing s) (sr_Key req)"
  have nodes: "ring_GetNodes ?h (sr_Key req) 2 =
      (if hr_ring ?h = [] then Inl ErrNoNodesInRing else Inr (map (ring_target ?h) (take 2 ?ps)))"
    using GetNodes_prefs [OF ring_exact_sorted [OF ring], of "sr_Key req" 2] by simp
  have empty: "hr_ring ?h = [] \<Longrightarrow> ?ps = []" by (simp add: prefs_def clockwise_def)
  have fields: "it_Key (fst (set_result now req s)) = sr_Key req" "it_Value (fst (set_result now req s)) = sr_Value req"
    "it_IsReplica (fst (set_result now req s)) = sr_IsReplica req" by (simp_all add: set_item)
  consider "?ps = []" | p where "?ps = [p]" | p p' rest where "?ps = p # p' # rest"
    by (cases ?ps; cases "tl ?ps") auto
  then show ?thesis
    by cases (use post key fields nodes empty prefs_nonempty [of ?h "sr_Key req"] in
      \<open>auto simp: handleSet_def Let_def case_prod_unfold req [symmetric]\<close>)
qed

text \<open>C19. A write to a node is stored and sent to the second owner of its key: on a ring without
  collisions, \<^verbatim>\<open>POST /set\<close> with a non-blank key answers 200 with the version stored, the key
  afterwards reads as the value given until its time to live has passed (for ever without one), the
  other keys read as before, and exactly one message leaves, to the registered address of the second
  node clockwise from the key with the value, lifetime and version stored; none leaves when the write is itself a
  replica's, when there is no second node, or when it is this node.\<close>

theorem server_set_stores_and_replicates:
  assumes ring: "ring_exact (sv_hashRing s)" and post: "q_method q = ''POST''"
    and req: "req = set_request_of cd q" and key: "TrimSpace (sr_Key req) \<noteq> []"
    and now: "0 < now" and ttl: "sr_TTLSeconds req \<le> 9223372036"
    and run: "handleSet cd now q s = (resp, outs, s')"
  shows "\<exists>i. resp = (200, BSet \<lparr>sp_Status = ''stored'', sp_Key = sr_Key req, sp_NodeID = sc_NodeID (sv_config s), sp_Version = it_Version i,
            sp_IsReplica = sr_IsReplica req,
            sp_ReplicaNode = (if \<not> sr_IsReplica req \<and> 1 < length (prefs (sv_hashRing s) (sr_Key req)) then prefs (sv_hashRing s) (sr_Key req) ! 1 else [])\<rparr>)
      \<and> it_Value i = sr_Value req \<and> it_IsReplica i = sr_IsReplica req
      \<and> (\<forall>t. cache_view t (sv_cache s') (sr_Key req) = (if 0 < sr_TTLSeconds req \<and> now + sr_TTLSeconds req * second < t then None else Some i))
      \<and> (\<forall>t k. k \<noteq> sr_Key req \<longrightarrow> cache_view t (sv_cache s') k = cache_view t (sv_cache s) k)
      \<and> outs = (let ps = prefs (sv_hashRing s) (sr_Key req); addr = nt_Addr (ring_target (sv_hashRing s) (ps ! 1))
                in if \<not> sr_IsReplica req \<and> 1 < length ps \<and> ps ! 1 \<noteq> sc_NodeID (sv_config s) \<and> addr \<noteq> []
                   then [OutSet addr (sr_Key req) (sr_Value req) (ingest_ttl (sr_TTLSeconds req)) (it_Version i)] else [])"
proof -
  let ?i = "fst (set_result now req s)"
  note eq = handleSet_eq [OF ring post req key, of now]
  have ttl': "ingest_ttl (sr_TTLSeconds req) = (if 0 < sr_TTLSeconds req then sr_TTLSeconds req * second else 0)"
    using ttl by (simp add: ingest_ttl_def wrap64_id)
  have s': "sv_cache s' = snd (set_result now req s)" using run eq by auto
  have "\<forall>t. cache_view t (sv_cache s') (sr_Key req) = (if 0 < sr_TTLSeconds req \<and> now + sr_TTLSeconds req * second < t then None else Some ?i)"
    using now by (auto simp: s' view_set Let_def set_item ttl' item_IsExpired_def)
  moreover have "\<forall>t k. k \<noteq> sr_Key req \<longrightarrow> cache_view t (sv_cache s') k = cache_view t (sv_cache s) k"
    by (simp add: s' view_set)
  moreover have "it_Value ?i = sr_Value req \<and> it_IsReplica ?i = sr_IsReplica req" by (simp add: set_item)
  ultimately show ?thesis using run eq by (intro exI [of _ ?i]) simp
qed

definition demo_codec :: "set_request \<Rightarrow> codec" where
  "demo_codec r = \<lparr>cd_set = (\<lambda>_. (r, False)), cd_replicate = (\<lambda>_. Inr r), cd_bulk = (\<lambda>_. Inl []), cd_node = (\<lambda>_. None), cd_key = (\<lambda>_. None)\<rparr>"

definition demo_req :: set_request where
  "demo_req = \<lparr>sr_Key = ''k'', sr_Value = ''v'', sr_TTLSeconds = 60, sr_Version = 0, sr_IsReplica = False\<rparr>"

lemma trim_k: "TrimSpace ''k'' = ''k''" "TrimSpace [] = []"
  by code_simp+

lemma sscanf_60: "Sscanf_d ''60'' = Some 60"
  by code_simp

lemma demo_set_request: "set_request_of cd (demo_request ''POST'' ''k'') = demo_req"
  by (simp add: set_request_of_def demo_request_def demo_req_def trim_k sscanf_60 Let_def)

theorem server_set_stores_and_replicates_witness:
  "\<exists>resp s'. handleSet (demo_codec demo_req) 5 (demo_request ''POST'' ''k'') (demo_server ''A'' (cache_New 0)) =
     (resp, [OutSet ''http://b'' ''k'' ''v'' (60 * second) 1], s') \<and> fst resp = 200"
proof -
  let ?s = "demo_server ''A'' (cache_New 0)" and ?q = "demo_request ''POST'' ''k''"
  obtain resp outs s' where run: "handleSet (demo_codec demo_req) 5 ?q ?s = (resp, outs, s')" by (metis prod_cases3)
  have pre: "ring_exact (sv_hashRing ?s)" "q_method ?q = ''POST''" "demo_req = set_request_of (demo_codec demo_req) ?q"
    "TrimSpace (sr_Key demo_req) \<noteq> []" "0 < (5 :: int)" "sr_TTLSeconds demo_req \<le> 9223372036"
    by (simp_all add: demo_ring_exact demo_request_def demo_set_request [unfolded demo_request_def] demo_req_def trim_k)
  have ver: "it_Version i = 1" if "resp = (200, BSet \<lparr>sp_Status = ''stored'', sp_Key = ''k'', sp_NodeID = ''A'', sp_Version = it_Version i,
      sp_IsReplica = False, sp_ReplicaNode = ''BB''\<rparr>)" for i
    using run that pre by (simp add: handleSet_def demo_set_request demo_req_def Let_def case_prod_unfold set_item cache_New_def trim_k split: if_splits)
  from server_set_stores_and_replicates [OF pre run] ver run show ?thesis
    by (auto simp: demo_req_def demo_ring_prefs demo_ring_addrs ingest_ttl_def wrap64_id Let_def)
qed

lemma replicate_cache:
  assumes "q_method q = ''POST''" "0 \<le> n" "n \<le> 9223372036"
    and wire: "cd_replicate cd (q_body q) = Inr (request_of_payload (repl_payload key val (n * second) ver))"
    and run: "handleInternalReplicate cd now q s = (resp, s')"
  shows "sv_cache s' = snd (cache_SetWithMetadata now key val (n * second) ver True (sv_cache s)) \<and> fst resp = 200"
proof -
  have pay: "repl_payload key val (n * second) ver = \<lparr>rp_Key = key, rp_Value = val, rp_TTLSeconds = n, rp_Version = ver, rp_IsReplica = True\<rparr>"
    using assms(2,3) seconds_whole [of n] by (cases "n = 0") (simp_all add: repl_payload_def Let_def)
  show ?thesis
    using run assms(1-3) by (auto simp: handleInternalReplicate_def wire pay request_of_payload_def Let_def case_prod_unfold ingest_ttl_whole)
qed

text \<open>What the primary stored is what the replica stores: the payload of a replication message for a
  whole-second lifetime, decoded by the receiving node, leaves there the same key, value and version,
  flagged as a replica, to expire the same number of seconds after it arrives (never without a lifetime), whatever
  that node held before; its other keys read as before.\<close>

theorem server_replicate_roundtrip:
  assumes post: "q_method q = ''POST''" and ver: "ver \<noteq> 0" and now: "0 < now" and n: "0 \<le> n" "n \<le> 9223372036"
    and wire: "cd_replicate cd (q_body q) = Inr (request_of_payload (repl_payload key val (n * second) ver))"
    and run: "handleInternalReplicate cd now q s = (resp, s')"
  shows "fst resp = 200
    \<and> (\<forall>t. cache_view t (sv_cache s') key =
        (if 0 < n \<and> now + n * second < t then None
         else Some \<lparr>it_Key = key, it_Value = val, it_CreatedAt = now, it_ExpiresAt = (if 0 < n then now + n * second else 0),
                    it_Version = ver, it_IsReplica = True\<rparr>))
    \<and> (\<forall>t k. k \<noteq> key \<longrightarrow> cache_view t (sv_cache s') k = cache_view t (sv_cache s) k)"
  using replicate_cache [OF post n wire run] ver now n by (auto simp: view_set Let_def set_item item_IsExpired_def)

theorem server_replicate_roundtrip_witness:
  "cache_view 9 (sv_cache (snd (handleInternalReplicate (demo_codec (request_of_payload (repl_payload ''k'' ''v'' (60 * second) 7))) 8
     (demo_request ''POST'' ''k'') (demo_server ''BB'' (cache_New 0))))) ''k'' =
     Some \<lparr>it_Key = ''k'', it_Value = ''v'', it_CreatedAt = 8, it_ExpiresAt = 8 + 60 * second, it_Version = 7, it_IsReplica = True\<rparr>"
proof -
  let ?p = "request_of_payload (repl_payload ''k'' ''v'' (60 * second) 7)" and ?q = "demo_request ''POST'' ''k''"
  obtain resp s' where run: "handleInternalReplicate (demo_codec ?p) 8 ?q (demo_server ''BB'' (cache_New 0)) = (resp, s')" by fastforce
  have q: "q_method ?q = ''POST''" "cd_replicate (demo_codec ?p) (q_body ?q) = Inr ?p" by (simp_all add: demo_request_def demo_codec_def)
  show ?thesis using server_replicate_roundtrip [OF q(1) _ _ _ _ q(2) run] run by simp
qed

section \<open>Reads\<close>

text \<open>What a reader of a node makes of its response when the exchange delivers it unchanged.\<close>

definition wire_reply :: "response \<Rightarrow> read_error + node_get_payload" where
  "wire_reply r =
     (if fst r \<noteq> 200 then Inl (ReadStatus (fst r))
      else case snd r of
             BGet g \<Rightarrow>
               if gp_Status g \<noteq> ''hit'' then Inl (ReadNotHit (gp_Status g))
               else Inr \<lparr>ng_Status = gp_Status g, ng_Key = gp_Key g, ng_Value = gp_Value g, ng_TTLRemaining = gp_TTLRemaining g,
                         ng_Version = gp_Version g, ng_IsReplica = gp_IsReplica g, ng_NodeID = gp_NodeID g\<rparr>
           | _ \<Rightarrow> Inl (ReadErr []))"

text \<open>A hit, computed.\<close>

lemma handleGet_hit:
  assumes "q_method q = ''GET''" "TrimSpace (q_query q ''key'') \<noteq> []"
    "cache_view (gc_get t) (sv_cache s) (q_query q ''key'') = Some i"
  shows "\<exists>hot n. fst (handleGet t q s) = (200, BGet \<lparr>gp_Status = ''hit'', gp_Key = it_Key i, gp_Value = it_Value i,
      gp_TTLRemaining = item_TTLRemaining (gc_reply t) i, gp_Version = it_Version i, gp_IsReplica = it_IsReplica i, gp_IsHot = hot,
      gp_RequestCount = n, gp_NodeID = sc_NodeID (sv_config s), gp_Message = []\<rparr>)"
  using assms get_result [of "gc_get t" "gc_evict t" "q_query q ''key''" "sv_cache s"]
  by (simp add: handleGet_def Let_def case_prod_unfold)

text \<open>A read answers from the live entries and changes nothing a later read could see: \<^verbatim>\<open>GET /get\<close>
  with a non-blank key answers 200 with the value and version of the live entry, or 404 when there is
  none; every key reads afterwards as it would have; and the access is counted by the hot-key detector
  exactly on a hit.\<close>

theorem server_get_answers_live:
  assumes get: "q_method q = ''GET''" and key: "TrimSpace (q_query q ''key'') \<noteq> []"
    and run: "handleGet t q s = (resp, outs, s')"
  shows "(case cache_view (gc_get t) (sv_cache s) (q_query q ''key'') of
        Some i \<Rightarrow> (\<exists>g. resp = (200, BGet g) \<and> gp_Status g = ''hit'' \<and> gp_Key g = it_Key i \<and> gp_Value g = it_Value i \<and> gp_Version g = it_Version i
            \<and> gp_TTLRemaining g = item_TTLRemaining (gc_reply t) i \<and> gp_IsReplica g = it_IsReplica i \<and> gp_NodeID g = sc_NodeID (sv_config s))
          \<and> sv_hotkeyDetector s' = rec_access (gc_access t) (q_query q ''key'') (sv_hotkeyDetector s)
      | None \<Rightarrow> fst resp = 404 \<and> outs = [] \<and> sv_hotkeyDetector s' = sv_hotkeyDetector s)
    \<and> (\<forall>t' k. gc_get t \<le> t' \<longrightarrow> cache_view t' (sv_cache s') k = cache_view t' (sv_cache s) k)"
proof -
  let ?k = "q_query q ''key''"
  have c: "sv_cache s' = snd (cache_Get (gc_get t) (gc_evict t) ?k (sv_cache s))"
    using run get key by (auto simp: handleGet_def Let_def case_prod_unfold split: option.splits)
  have f: "fst (cache_Get (gc_get t) (gc_evict t) ?k (sv_cache s)) = cache_view (gc_get t) (sv_cache s) ?k" by (rule get_result)
  show ?thesis
    using run get key by (auto simp: c view_get handleGet_def Let_def case_prod_unfold f rec_access_def split: option.splits)
qed


theorem server_get_answers_live_witness:
  "\<exists>g outs s'. handleGet \<lparr>gc_get = 3, gc_evict = 3, gc_access = 3, gc_promote = 3, gc_reply = 3\<rparr> (demo_request ''GET'' ''k'')
     (demo_server ''A'' (snd (cache_Set 1 ''k'' ''v'' 0 (cache_New 0)))) = ((200, BGet g), outs, s') \<and> gp_Value g = ''v''"
proof -
  let ?t = "\<lparr>gc_get = 3, gc_evict = 3, gc_access = 3, gc_promote = 3, gc_reply = 3\<rparr>" and ?q = "demo_request ''GET'' ''k''"
  let ?s = "demo_server ''A'' (snd (cache_Set 1 ''k'' ''v'' 0 (cache_New 0)))"
  obtain resp outs s' where run: "handleGet ?t ?q ?s = (resp, outs, s')" by (metis prod_cases3)
  have q: "q_method ?q = ''GET''" "q_query ?q ''key'' = ''k''" "TrimSpace (q_query ?q ''key'') \<noteq> []"
    by (simp_all add: demo_request_def trim_k)
  have v: "cache_view 3 (sv_cache ?s) ''k'' = Some (fst (cache_Set 1 ''k'' ''v'' 0 (cache_New 0)))"
    by (simp add: cache_Set_def view_set Let_def set_item item_IsExpired_def)
  from server_get_answers_live [OF q(1,3) run] q(2) v run show ?thesis
    by (auto simp: cache_Set_def set_item)
qed

end
