(* ===== verification/Go_Double.thy ===== *)
theory Go_Double
  imports Go_Float Go_Strings
begin

text \<open>
  Go's \<^verbatim>\<open>float64\<close> with its special values, for the arithmetic of the trip records: a finite value is
  the rational it denotes, \<open>fl\<close> rounds an exact result to it (53 bits, ties to even, gradual underflow
  below \<open>2 powi - 1022\<close>, overflow to an infinity), and comparison with \<open>NaN\<close> is false. The sign of a zero is
  not kept: the code divides only by values it has found positive. A conversion to \<^verbatim>\<open>int\<close> that is out of
  range is implementation-dependent in Go; it is the smallest \<^verbatim>\<open>int\<close>, as on amd64.

  The second part is \<^verbatim>\<open>fmt.Sscanf\<close> with \<^verbatim>\<open>%f\<close> and \<^verbatim>\<open>strconv.ParseFloat\<close>.
\<close>

section \<open>Definitions\<close>

subsection \<open>Values and rounding\<close>

datatype float64 = Fin rat | PosInf | NegInf | NaN

definition inf_of :: "rat \<Rightarrow> float64" where
  "inf_of s = (if 0 < s then PosInf else NegInf)"

definition subnormal_scale :: rat where
  "subnormal_scale = 2 powi 1074"

definition rnd :: "rat \<Rightarrow> rat" where
  "rnd x = (if x \<noteq> 0 \<and> ilog2 \<bar>x\<bar> < - 1022 then of_int (round_even (x * subnormal_scale)) / subnormal_scale else f64 x)"

definition fl :: "rat \<Rightarrow> float64" where
  "fl x = (let r = rnd x in if r \<noteq> 0 \<and> 1024 \<le> ilog2 \<bar>r\<bar> then inf_of r else Fin r)"

subsection \<open>Arithmetic\<close>

fun fneg :: "float64 \<Rightarrow> float64" where
  "fneg (Fin x) = Fin (- x)"
| "fneg PosInf = NegInf"
| "fneg NegInf = PosInf"
| "fneg NaN = NaN"

fun fsgn :: "float64 \<Rightarrow> rat" where
  "fsgn (Fin x) = sgn x"
| "fsgn PosInf = 1"
| "fsgn NegInf = - 1"
| "fsgn NaN = 0"

definition fadd :: "float64 \<Rightarrow> float64 \<Rightarrow> float64" where
  "fadd a b =
     (case a of
        NaN \<Rightarrow> NaN
      | PosInf \<Rightarrow> if b = NaN \<or> b = NegInf then NaN else PosInf
      | NegInf \<Rightarrow> if b = NaN \<or> b = PosInf then NaN else NegInf
      | Fin x \<Rightarrow> (case b of Fin y \<Rightarrow> fl (x + y) | _ \<Rightarrow> b))"

definition fsub :: "float64 \<Rightarrow> float64 \<Rightarrow> float64" where
  "fsub a b = fadd a (fneg b)"

definition fmul :: "float64 \<Rightarrow> float64 \<Rightarrow> float64" where
  "fmul a b =
     (case (a, b) of
        (Fin x, Fin y) \<Rightarrow> fl (x * y)
      | _ \<Rightarrow> if a = NaN \<or> b = NaN \<or> fsgn a * fsgn b = 0 then NaN else inf_of (fsgn a * fsgn b))"

definition fdiv :: "float64 \<Rightarrow> float64 \<Rightarrow> float64" where
  "fdiv a b =
     (case a of
        NaN \<Rightarrow> NaN
      | Fin x \<Rightarrow> (case b of
            Fin y \<Rightarrow> if y = 0 then (if x = 0 then NaN else inf_of x) else fl (x / y)
          | NaN \<Rightarrow> NaN
          | _ \<Rightarrow> Fin 0)
      | _ \<Rightarrow> (case b of Fin y \<Rightarrow> inf_of (if y < 0 then - fsgn a else fsgn a) | _ \<Rightarrow> NaN))"

definition fless :: "float64 \<Rightarrow> float64 \<Rightarrow> bool" where
  "fless a b =
     (case a of
        NaN \<Rightarrow> False
      | PosInf \<Rightarrow> False
      | NegInf \<Rightarrow> b \<noteq> NaN \<and> b \<noteq> NegInf
      | Fin x \<Rightarrow> (case b of Fin y \<Rightarrow> x < y | PosInf \<Rightarrow> True | _ \<Rightarrow> False))"

text \<open>\<^verbatim>\<open>a <= b\<close>.\<close>

definition fleq :: "float64 \<Rightarrow> float64 \<Rightarrow> bool" where
  "fleq a b \<longleftrightarrow> fless a b \<or> a = b \<and> a \<noteq> NaN"

subsection \<open>Conversions\<close>

definition int_of_float64 :: "float64 \<Rightarrow> int" where
  "int_of_float64 a =
     (case a of
        Fin x \<Rightarrow> if - (2 ^ 63) \<le> int64_of_float x \<and> int64_of_float x < 2 ^ 63 then int64_of_float x else - (2 ^ 63)
      | _ \<Rightarrow> - (2 ^ 63))"

definition float64_of_int :: "int \<Rightarrow> float64" where
  "float64_of_int i = fl (of_int i)"

subsection \<open>Reading a float\<close>

definition lower :: "char \<Rightarrow> char" where
  "lower c = (if 65 \<le> code c \<and> code c \<le> 90 then char_of (code c + 32) else c)"

definition is_hex :: "char \<Rightarrow> bool" where
  "is_hex c \<longleftrightarrow> is_digit c \<or> 97 \<le> code (lower c) \<and> code (lower c) \<le> 102"

definition digit_val :: "char \<Rightarrow> int" where
  "digit_val c = (if is_digit c then int (code c) - 48 else int (code (lower c)) - 87)"

text \<open>\<^verbatim>\<open>strconv.underscoreOK\<close>: an underscore stands between two digits, or between a base prefix and
  a digit. The last character seen is a digit, an underscore or another one.\<close>

datatype seen = SawStart | SawDigit | SawUnderscore | SawOther

fun underscore_scan :: "bool \<Rightarrow> seen \<Rightarrow> string \<Rightarrow> bool" where
  "underscore_scan hex saw [] \<longleftrightarrow> saw \<noteq> SawUnderscore"
| "underscore_scan hex saw (c # cs) \<longleftrightarrow>
     (if is_digit c \<or> hex \<and> is_hex c then underscore_scan hex SawDigit cs
      else if c = CHR ''_'' then saw = SawDigit \<and> underscore_scan hex SawUnderscore cs
      else saw \<noteq> SawUnderscore \<and> underscore_scan hex SawOther cs)"

definition strip_sign :: "string \<Rightarrow> bool \<times> string" where
  "strip_sign s =
     (case s of c # cs \<Rightarrow> if c = CHR ''-'' then (True, cs) else if c = CHR ''+'' then (False, cs) else (False, s)
              | [] \<Rightarrow> (False, []))"

definition underscoreOK :: "string \<Rightarrow> bool" where
  "underscoreOK s =
     (let s1 = snd (strip_sign s)
      in case s1 of
           a # b # r \<Rightarrow> if a = CHR ''0'' \<and> lower b \<in> {CHR ''b'', CHR ''o'', CHR ''x''}
                        then underscore_scan (lower b = CHR ''x'') SawDigit r else underscore_scan False SawStart s1
         | _ \<Rightarrow> underscore_scan False SawStart s1)"

definition exp_value :: "string \<Rightarrow> int" where
  "exp_value es = foldl (\<lambda>e c. if c = CHR ''_'' then e else if e < 10000 then e * 10 + digit_val c else e) 0 es"

text \<open>The exponent that ends a number: \<open>None\<close> when what is left is not one.\<close>

definition read_exponent :: "bool \<Rightarrow> string \<Rightarrow> int option" where
  "read_exponent hex s =
     (case s of
        [] \<Rightarrow> if hex then None else Some 0
      | c # r \<Rightarrow>
          if lower c \<noteq> (if hex then CHR ''p'' else CHR ''e'') then None
          else let (neg, ds) = strip_sign r
               in if ds = [] \<or> \<not> is_digit (hd ds) \<or> (\<exists>d\<in>set ds. \<not> is_digit d \<and> d \<noteq> CHR ''_'') then None
                  else Some (if neg then - exp_value ds else exp_value ds))"

text \<open>\<^verbatim>\<open>strconv.ParseFloat\<close> on a whole string; \<open>None\<close> is an error, of syntax or of range.\<close>

definition read_number :: "string \<Rightarrow> rat option" where
  "read_number s =
     (let (neg, r) = strip_sign s;
          hex = (2 < length r \<and> r ! 0 = CHR ''0'' \<and> lower (r ! 1) = CHR ''x'');
          r1 = (if hex then drop 2 r else r);
          mant = (\<lambda>c. is_digit c \<or> c = CHR ''_'' \<or> hex \<and> is_hex c);
          ip = takeWhile mant r1; r2 = dropWhile mant r1;
          (fp, r3) = (case r2 of c # cs \<Rightarrow> if c = CHR ''.'' then (takeWhile mant cs, dropWhile mant cs) else ([], r2) | [] \<Rightarrow> ([], []));
          ds = filter (\<lambda>c. c \<noteq> CHR ''_'') (ip @ fp);
          nf = int (length (filter (\<lambda>c. c \<noteq> CHR ''_'') fp));
          m = foldl (\<lambda>n c. n * (if hex then 16 else 10) + digit_val c) 0 ds
      in if ds = [] then None
         else case read_exponent hex r3 of
                None \<Rightarrow> None
              | Some e \<Rightarrow>
                  if CHR ''_'' \<in> set s \<and> \<not> underscoreOK s then None
                  else let v = (if hex then of_int m * 2 powi (e - 4 * nf) else of_int m * 10 powi (e - nf))
                       in Some (if neg then - v else v))"

definition ParseFloat :: "string \<Rightarrow> float64 option" where
  "ParseFloat s =
     (if map lower s = ''nan'' then Some NaN
      else if map lower (snd (strip_sign s)) \<in> {''inf'', ''infinity''} then Some (if fst (strip_sign s) then NegInf else PosInf)
      else case read_number s of
             None \<Rightarrow> None
           | Some v \<Rightarrow> (case fl v of Fin r \<Rightarrow> Some (Fin r) | _ \<Rightarrow> None))"

text \<open>The scanner of \<^verbatim>\<open>fmt\<close>: what has been accepted, and the rest of the input.\<close>

definition accept :: "char set \<Rightarrow> string \<times> string \<Rightarrow> bool \<times> string \<times> string" where
  "accept cs st =
     (case snd st of
        c # r \<Rightarrow> if c \<in> cs then (True, fst st @ [c], r) else (False, st)
      | [] \<Rightarrow> (False, st))"

definition accept3 :: "char set \<Rightarrow> char set \<Rightarrow> char set \<Rightarrow> string \<times> string \<Rightarrow> bool \<times> string \<times> string" where
  "accept3 a b c st =
     (let (ok1, st1) = accept a st
      in if \<not> ok1 then (False, st1)
         else let (ok2, st2) = accept b st1
              in if \<not> ok2 then (False, st2) else accept c st2)"

definition accept_while :: "(char \<Rightarrow> bool) \<Rightarrow> string \<times> string \<Rightarrow> string \<times> string" where
  "accept_while p st = (fst st @ takeWhile p (snd st), dropWhile p (snd st))"

definition sign_chars :: "char set" where
  "sign_chars = {CHR ''+'', CHR ''-''}"

definition floatToken :: "string \<Rightarrow> string" where
  "floatToken s =
     (let nN = {CHR ''n'', CHR ''N''};
          (isnan, st1) = accept3 nN {CHR ''a'', CHR ''A''} nN ([], s)
      in if isnan then fst st1
         else let (_, st2) = accept sign_chars st1;
                  (isinf, st3) = accept3 {CHR ''i'', CHR ''I''} nN {CHR ''f'', CHR ''F''} st2
              in if isinf then fst st3
                 else let (zero, st4) = accept {CHR ''0''} st3;
                          (hex, st5) = (if zero then accept {CHR ''x'', CHR ''X''} st4 else (False, st4));
                          dig = (\<lambda>c. is_digit c \<or> c = CHR ''_'' \<or> hex \<and> is_hex c);
                          exps = (if hex then {CHR ''p'', CHR ''P''} else {CHR ''e'', CHR ''E'', CHR ''p'', CHR ''P''});
                          st6 = accept_while dig st5;
                          (dot, st7) = accept {CHR ''.''} st6;
                          st8 = (if dot then accept_while dig st7 else st7);
                          (ex, st9) = accept exps st8
                      in if ex then fst (accept_while (\<lambda>c. is_digit c \<or> c = CHR ''_'') (snd (accept sign_chars st9)))
                         else fst st9)"

text \<open>\<^verbatim>\<open>strconv.ParseInt(s, 10, 64)\<close> and \<^verbatim>\<open>strconv.Atoi\<close>.\<close>

definition ParseInt :: "string \<Rightarrow> int option" where
  "ParseInt s =
     (let (neg, ds) = strip_sign s; v = (if neg then - digits_value ds else digits_value ds)
      in if ds = [] \<or> \<not> list_all is_digit ds then None
         else if - (2 ^ 63) \<le> v \<and> v < 2 ^ 63 then Some v else None)"

definition ldexp :: "float64 \<Rightarrow> int \<Rightarrow> float64" where
  "ldexp a m = (case a of Fin x \<Rightarrow> fl (x * 2 powi m) | _ \<Rightarrow> a)"

text \<open>\<open>convertFloat\<close> reads a decimal number with a binary exponent itself.\<close>

definition convertFloat :: "string \<Rightarrow> float64 option" where
  "convertFloat tok =
     (if CHR ''p'' \<in> set tok \<and> CHR ''x'' \<notin> set tok \<and> CHR ''X'' \<notin> set tok
      then (let (a, b) = split_at_char (CHR ''p'') tok
            in case ParseFloat a of
                 None \<Rightarrow> None
               | Some f \<Rightarrow> (case ParseInt b of None \<Rightarrow> None | Some m \<Rightarrow> Some (ldexp f m)))
      else ParseFloat tok)"

definition Sscanf_f :: "string \<Rightarrow> float64 option" where
  "Sscanf_f s =
     (case skip_space s of
        None \<Rightarrow> None
      | Some r \<Rightarrow> if r = [] then None else convertFloat (floatToken r))"

section \<open>Finite results\<close>

lemma f64_0 [simp]: "f64 0 = 0"
  by (simp add: f64_def)

lemma f64_minus: "f64 (- x) = - f64 x"
  by (auto simp: f64_def)

lemma f64_abs: "\<bar>f64 x\<bar> = f64 \<bar>x\<bar>"
proof (cases "0 \<le> x")
  case True
  then show ?thesis by (simp add: f64_nonneg)
next
  case False
  then have "f64 x = - f64 (- x)" by (simp add: f64_minus)
  with False show ?thesis using f64_nonneg [of "- x"] by simp
qed

lemma f64_gt_0: "0 < x \<Longrightarrow> 0 < f64 x"
  using less_le_trans [OF powi2_pos f64_pos_bounds(1) [of x]] by (simp add: f64_def)

lemma f64_powi2 [simp]: "f64 (2 powi k) = 2 powi k"
  using f64_exact [of 1 k] by simp

lemma f64_le_powi2: "\<bar>x\<bar> \<le> 2 powi k \<Longrightarrow> \<bar>f64 x\<bar> \<le> 2 powi k"
  using f64_mono [of "\<bar>x\<bar>" "2 powi k"] by (simp add: f64_abs)

lemma abs_divide_mono: "0 < d \<Longrightarrow> \<bar>a\<bar> \<le> b \<Longrightarrow> \<bar>a / d\<bar> \<le> b / (d :: rat)"
  by (metis abs_div_pos divide_right_mono less_imp_le)

lemma round_even_abs_le: "\<bar>x\<bar> \<le> of_int k \<Longrightarrow> \<bar>round_even x\<bar> \<le> k"
  using round_even_le_int [of x k] round_even_ge_int [of "- k" x] by (simp add: abs_le_iff)

lemma rnd_le_powi2:
  assumes "\<bar>x\<bar> \<le> 2 powi k" "- 1022 \<le> k"
  shows "\<bar>rnd x\<bar> \<le> 2 powi k"
proof (cases "x \<noteq> 0 \<and> ilog2 \<bar>x\<bar> < - 1022")
  case True
  then have "\<bar>x\<bar> < 2 powi (ilog2 \<bar>x\<bar> + 1)" using ilog2_bounds [of "\<bar>x\<bar>"] by simp
  also have "\<dots> \<le> 2 powi (- 1022)" using True by (intro powi2_mono) simp
  finally have x: "\<bar>x\<bar> < 2 powi (- 1022)" .
  have pos: "0 < subnormal_scale" unfolding subnormal_scale_def by (rule powi2_pos)
  have p: "2 powi (- 1022) * subnormal_scale = of_int (2 ^ 52)"
    unfolding subnormal_scale_def powi2_add [symmetric] by simp
  have "\<bar>x * subnormal_scale\<bar> \<le> of_int (2 ^ 52)"
    unfolding p [symmetric] abs_mult using x pos by (simp add: less_imp_le)
  then have "\<bar>round_even (x * subnormal_scale)\<bar> \<le> 2 ^ 52" by (rule round_even_abs_le)
  then have "\<bar>of_int (round_even (x * subnormal_scale)) :: rat\<bar> \<le> of_int (2 ^ 52)"
    by (simp only: of_int_abs [symmetric] of_int_le_iff)
  then have "\<bar>of_int (round_even (x * subnormal_scale)) / subnormal_scale\<bar> \<le> of_int (2 ^ 52) / subnormal_scale"
    by (rule abs_divide_mono [OF pos])
  also have "\<dots> = 2 powi (- 1022)" unfolding p [symmetric] using pos by simp
  also have "\<dots> \<le> 2 powi k" by (rule powi2_mono [OF assms(2)])
  finally show ?thesis using True by (simp only: rnd_def) simp
next
  case False
  then show ?thesis unfolding rnd_def if_not_P [OF False] by (intro f64_le_powi2 assms)
qed

lemma fl_small:
  assumes "\<bar>x\<bar> \<le> 2 powi k" "- 1022 \<le> k" "k < 1024"
  shows "fl x = Fin (rnd x)"
proof -
  have r: "\<bar>rnd x\<bar> \<le> 2 powi k" by (rule rnd_le_powi2 [OF assms(1,2)])
  have "ilog2 \<bar>rnd x\<bar> < 1024" if "rnd x \<noteq> 0"
  proof (rule ccontr)
    assume "\<not> ilog2 \<bar>rnd x\<bar> < 1024"
    then have "(2 powi 1024 :: rat) \<le> 2 powi (ilog2 \<bar>rnd x\<bar>)" by (intro powi2_mono) simp
    also have "\<dots> \<le> \<bar>rnd x\<bar>" using that ilog2_bounds [of "\<bar>rnd x\<bar>"] by simp
    also have "\<dots> \<le> 2 powi k" by (rule r)
    finally show False using powi2_less [OF assms(3)] by simp
  qed
  then show ?thesis by (auto simp: fl_def Let_def)
qed

lemma fl_0 [simp]: "fl 0 = Fin 0"
  by (simp add: fl_def rnd_def Let_def)

lemma fl_normal:
  assumes "2 powi (- 1022) \<le> \<bar>x\<bar>" "\<bar>x\<bar> \<le> 2 powi k" "k < 1024"
  shows "fl x = Fin (f64 x)"
proof -
  have "(2 powi (- 1022) :: rat) \<le> 2 powi k" using assms by linarith
  then have "- 1022 \<le> k" using powi2_less [of k "- 1022"] by linarith
  moreover have "rnd x = f64 x"
  proof (cases "x = 0")
    case False
    then have "\<bar>x\<bar> < 2 powi (ilog2 \<bar>x\<bar> + 1)" using ilog2_bounds [of "\<bar>x\<bar>"] by simp
    then have "(2 powi (- 1022) :: rat) < 2 powi (ilog2 \<bar>x\<bar> + 1)" using assms(1) by linarith
    then have "- 1022 < ilog2 \<bar>x\<bar> + 1" using powi2_mono [of "ilog2 \<bar>x\<bar> + 1" "- 1022"] by linarith
    then show ?thesis by (simp add: rnd_def)
  qed (simp add: rnd_def)
  ultimately show ?thesis using fl_small [OF assms(2)] assms(3) by simp
qed

lemma f64_nonpos: "x \<le> 0 \<Longrightarrow> f64 x \<le> 0"
  using f64_nonneg [of "- x"] by (simp add: f64_minus)

text \<open>A difference that is bounded above does not overflow upwards.\<close>

lemma fl_upper:
  assumes "x \<le> 2 powi k" "- 1022 \<le> k" "k < 1024"
  shows "fl x \<noteq> PosInf" "fl x \<noteq> NaN"
proof -
  show "fl x \<noteq> PosInf"
  proof (cases "\<bar>x\<bar> \<le> 2 powi k")
    case True
    then show ?thesis using fl_small [OF True assms(2,3)] by simp
  next
    case False
    then have neg: "x < 0" "\<not> \<bar>x\<bar> \<le> 2 powi k" using assms(1) by auto
    have "\<not> ilog2 \<bar>x\<bar> < - 1022"
    proof
      assume "ilog2 \<bar>x\<bar> < - 1022"
      then have "2 powi (ilog2 \<bar>x\<bar> + 1) \<le> (2 powi k :: rat)" using assms(2) by (intro powi2_mono) simp
      then show False using neg ilog2_bounds [of "\<bar>x\<bar>"] by simp
    qed
    then have "rnd x = f64 x" by (simp add: rnd_def)
    then show ?thesis using f64_nonpos [of x] neg(1) by (auto simp: fl_def Let_def inf_of_def)
  qed
  show "fl x \<noteq> NaN" by (auto simp: fl_def Let_def inf_of_def)
qed

subsection \<open>Rounding error\<close>

lemma abs_scale: "0 < u \<Longrightarrow> \<bar>a - x / u\<bar> * u = \<bar>a * u - (x :: rat)\<bar>"
proof -
  assume u: "0 < u"
  then have "a * u - x = (a - x / u) * u" by (simp add: left_diff_distrib)
  with u show ?thesis by (simp add: abs_mult)
qed

lemma f64_err_pos:
  assumes "0 < x"
  shows "\<bar>f64 x - x\<bar> \<le> x * 2 powi (- 53)"
proof -
  let ?u = "2 powi (ilog2 x - 52) :: rat"
  have u: "0 < ?u" by simp
  have "\<bar>of_int (round_even (x / ?u)) - x / ?u\<bar> \<le> 1 / 2"
    using round_even_cases [of "x / ?u"] floor_correct [of "x / ?u"] by (auto simp: abs_le_iff)
  then have "\<bar>of_int (round_even (x / ?u)) - x / ?u\<bar> * ?u \<le> 1 / 2 * ?u" by (rule mult_right_mono) simp
  also have "\<bar>of_int (round_even (x / ?u)) - x / ?u\<bar> * ?u = \<bar>of_int (round_even (x / ?u)) * ?u - x\<bar>"
    by (rule abs_scale [OF u])
  also have "of_int (round_even (x / ?u)) * ?u = f64 x" using assms by (simp add: f64_def f64_pos_def Let_def)
  also have "1 / 2 * ?u = 2 powi (ilog2 x) * 2 powi (- 53)"
    by (simp add: powi2_diff power_int_minus)
  also have "\<dots> \<le> x * 2 powi (- 53)" using ilog2_bounds [OF assms] by (intro mult_right_mono) simp_all
  finally show ?thesis .
qed

lemma f64_err:
  assumes "0 \<le> x" "x \<le> 2 powi n"
  shows "\<bar>f64 x - x\<bar> \<le> 2 powi (n - 53)"
proof (cases "x = 0")
  case False
  then have "\<bar>f64 x - x\<bar> \<le> x * 2 powi (- 53)" using assms by (intro f64_err_pos) simp
  also have "\<dots> \<le> 2 powi n * 2 powi (- 53)" by (rule mult_right_mono) (use assms in simp_all)
  also have "\<dots> = 2 powi (n - 53)" unfolding powi2_add [symmetric] by simp
  finally show ?thesis .
qed simp

lemma rnd_nonneg: "0 \<le> x \<Longrightarrow> 0 \<le> rnd x"
  using round_even_ge_int [of 0 "x * subnormal_scale"] by (simp add: rnd_def subnormal_scale_def f64_nonneg)

lemma rnd_err:
  assumes "0 \<le> x" "x \<le> 2 powi n" "- 900 \<le> n"
  shows "\<bar>rnd x - x\<bar> \<le> 2 powi (n - 53)"
proof (cases "x \<noteq> 0 \<and> ilog2 \<bar>x\<bar> < - 1022")
  case True
  then have "x < 2 powi (ilog2 x + 1)" using assms(1) ilog2_bounds [of x] by simp
  also have "\<dots> \<le> 2 powi (- 1021)" using True assms(1) by (intro powi2_mono) simp
  finally have x: "x \<le> 2 powi (- 1021)" by simp
  have "\<bar>rnd x\<bar> \<le> 2 powi (- 1021)" using x assms(1) by (intro rnd_le_powi2) simp_all
  moreover have "0 \<le> rnd x" by (rule rnd_nonneg [OF assms(1)])
  ultimately have "\<bar>rnd x - x\<bar> \<le> 2 powi (- 1021)" using x assms(1) by linarith
  also have "\<dots> \<le> 2 powi (n - 53)" using assms(3) by (intro powi2_mono) simp
  finally show ?thesis .
next
  case False
  then show ?thesis unfolding rnd_def if_not_P [OF False] by (intro f64_err assms)
qed

section \<open>Printed integers\<close>

lemma digit_char_code: "d < 10 \<Longrightarrow> code (digit_char d) = 48 + d"
  by (simp add: digit_char_def)

lemma digits_value_snoc: "digits_value (ds @ [c]) = digits_value ds * 10 + (int (code c) - 48)"
  by (simp add: digits_value_def)

lemma nat_digits_props: "list_all is_digit (nat_digits n) \<and> digits_value (nat_digits n) = int n"
proof (induction n rule: nat_digits.induct)
  case (1 n)
  show ?case
  proof (cases "n < 10")
    case True
    then show ?thesis by (simp add: nat_digits.simps [of n] is_digit_def digit_char_code digits_value_def)
  next
    case False
    have "int (n div 10) * 10 + int (n mod 10) = int n"
      by (metis div_mult_mod_eq of_nat_add of_nat_mult of_nat_numeral)
    with False 1 show ?thesis
      by (simp add: nat_digits.simps [of n] is_digit_def digit_char_code digits_value_snoc)
  qed
qed

lemma strip_sign_digits: "list_all is_digit ds \<Longrightarrow> strip_sign ds = (False, ds)"
  by (cases ds) (auto simp: strip_sign_def is_digit_def)

lemma ParseInt_itoa: "0 \<le> n \<Longrightarrow> n < 2 ^ 63 \<Longrightarrow> ParseInt (itoa n) = Some n"
  using nat_digits_props [of "nat n"] strip_sign_digits [of "nat_digits (nat n)"]
  by (simp add: ParseInt_def itoa_def Let_def)

section \<open>Samples\<close>

lemma Sscanf_f_samples:
  "Sscanf_f ''nan'' = Some NaN"
  "Sscanf_f '' 12.5 miles'' = Some (Fin (25 / 2))"
  "Sscanf_f ''1_000'' = Some (Fin 1000)"
  by code_simp+

end
