(* ===== verification/Taxi_Trip.thy ===== *)
theory Taxi_Trip
  imports Go_Double
begin

text \<open>
  The trip records and the arithmetic that keeps their fields consistent
  (\<^verbatim>\<open>backend/internal/database/database.go\<close>): the record \<open>taxi_trip\<close>, \<open>ToFloat\<close> on the dynamic types of an
  \<^verbatim>\<open>interface{}\<close>, and \<open>CalculateTripCascade\<close>. A \<^verbatim>\<open>*float64\<close> is an option. Every arithmetic operation of the code
  is one rounded operation of \<open>Go_Double\<close>, a constant is its nearest \<^verbatim>\<open>float64\<close>.
\<close>

section \<open>Definitions\<close>

record taxi_trip =
  tt_TripID :: string
  tt_RowID :: int
  tt_VendorID :: "float64 option"
  tt_PickupDatetime :: string
  tt_DropoffDatetime :: string
  tt_PassengerCount :: "float64 option"
  tt_TripDistance :: float64
  tt_RatecodeID :: "float64 option"
  tt_PULocationID :: "float64 option"
  tt_DOLocationID :: "float64 option"
  tt_PaymentType :: "float64 option"
  tt_FareAmount :: float64
  tt_TipAmount :: float64
  tt_TotalAmount :: float64

text \<open>The dynamic type and the value of an \<^verbatim>\<open>interface{}\<close>; \<open>VOther\<close> is any type without a case.\<close>

datatype iface = VFloat64 float64 | VFloat32 float64 | VInt int | VInt64 int | VString string | VOther

definition ToFloat :: "iface \<Rightarrow> float64" where
  "ToFloat v =
     (case v of
        VFloat64 f \<Rightarrow> f
      | VFloat32 f \<Rightarrow> f
      | VInt i \<Rightarrow> float64_of_int i
      | VInt64 i \<Rightarrow> float64_of_int i
      | VString s \<Rightarrow> (case Sscanf_f s of Some f \<Rightarrow> f | None \<Rightarrow> Fin 0)
      | VOther \<Rightarrow> Fin 0)"

abbreviation lit :: "rat \<Rightarrow> float64" where
  "lit x \<equiv> Fin (f64 x)"

text \<open>\<^verbatim>\<open>float64(int(x*100+0.5)) / 100\<close>.\<close>

definition cents :: "float64 \<Rightarrow> float64" where
  "cents x = fdiv (float64_of_int (int_of_float64 (fadd (fmul x (Fin 100)) (Fin (1 / 2))))) (Fin 100)"

definition fmax :: "float64 \<Rightarrow> float64 \<Rightarrow> float64" where
  "fmax lo x = (if fless x lo then lo else x)"

definition rate_per_mile :: "taxi_trip \<Rightarrow> float64" where
  "rate_per_mile t =
     (if fless (Fin 0) (tt_TripDistance t) \<and> fless (Fin 0) (tt_FareAmount t)
      then (let r = fdiv (tt_FareAmount t) (tt_TripDistance t)
            in if fless r (Fin 1) then Fin 1 else if fless (Fin 20) r then Fin 20 else r)
      else Fin (7 / 2))"

definition fixed_surcharges :: "taxi_trip \<Rightarrow> float64" where
  "fixed_surcharges t = fmax (lit (4 / 5)) (fsub (tt_TotalAmount t) (fadd (tt_FareAmount t) (tt_TipAmount t)))"

definition tip_ratio :: "taxi_trip \<Rightarrow> float64" where
  "tip_ratio t =
     (if fless (Fin 0) (tt_FareAmount t) \<and> fless (Fin 0) (tt_TipAmount t)
      then (let r = fdiv (tt_TipAmount t) (tt_FareAmount t)
            in if fleq r (Fin 0) \<or> fless (Fin (1 / 2)) r then lit (9 / 50) else r)
      else lit (9 / 50))"

definition sum_total :: "float64 \<Rightarrow> taxi_trip \<Rightarrow> taxi_trip" where
  "sum_total surcharges t = t\<lparr>tt_TotalAmount := cents (fadd (fadd (tt_FareAmount t) (tt_TipAmount t)) surcharges)\<rparr>"

text \<open>The fare and the distance estimated from the two zones.\<close>

definition estimate_route :: "float64 \<Rightarrow> float64 \<Rightarrow> float64 \<Rightarrow> float64 \<Rightarrow> taxi_trip \<Rightarrow> taxi_trip" where
  "estimate_route rate surcharges pu dl t =
     (let d = fsub pu dl;
          diff = (if fless d (Fin 0) then fneg d else d);
          est = cents (fadd (fmul diff (lit (3 / 50))) (lit (6 / 5)));
          t1 = t\<lparr>tt_TripDistance := est, tt_FareAmount := cents (fmul est rate)\<rparr>
      in sum_total surcharges t1)"

definition cascade_distance :: "float64 \<Rightarrow> float64 \<Rightarrow> float64 \<Rightarrow> taxi_trip \<Rightarrow> taxi_trip" where
  "cascade_distance rate surcharges v t =
     (let newDist = fmax (lit (1 / 10)) v;
          t1 = t\<lparr>tt_TripDistance := cents newDist, tt_FareAmount := fmax (Fin (5 / 2)) (cents (fmul newDist rate))\<rparr>;
          t2 = t1\<lparr>tt_TipAmount := cents (fmul (tt_FareAmount t1) (tip_ratio t1))\<rparr>
      in sum_total surcharges t2)"

definition cascade_fare :: "float64 \<Rightarrow> float64 \<Rightarrow> float64 \<Rightarrow> taxi_trip \<Rightarrow> taxi_trip" where
  "cascade_fare rate surcharges v t =
     (let newFare = fmax (Fin (5 / 2)) v;
          t1 = t\<lparr>tt_FareAmount := cents newFare, tt_TripDistance := fmax (lit (1 / 10)) (cents (fdiv newFare rate))\<rparr>
      in sum_total surcharges t1)"

definition cascade_tip :: "float64 \<Rightarrow> float64 \<Rightarrow> taxi_trip \<Rightarrow> taxi_trip" where
  "cascade_tip surcharges v t = sum_total surcharges (t\<lparr>tt_TipAmount := cents (fmax (Fin 0) v)\<rparr>)"

definition cascade_total :: "float64 \<Rightarrow> float64 \<Rightarrow> float64 \<Rightarrow> taxi_trip \<Rightarrow> taxi_trip" where
  "cascade_total rate surcharges v t =
     (let t1 = t\<lparr>tt_TotalAmount := cents (fmax (lit (33 / 10)) v)\<rparr>;
          avail = fsub (tt_TotalAmount t1) (fadd (tt_TipAmount t1) surcharges);
          (availableFare, t2) =
            (if fless avail (Fin (5 / 2))
             then (Fin (5 / 2),
                   t1\<lparr>tt_TipAmount := fmax (Fin 0) (fsub (fsub (tt_TotalAmount t1) (Fin (5 / 2))) surcharges)\<rparr>)
             else (avail, t1));
          t3 = t2\<lparr>tt_FareAmount := cents availableFare\<rparr>
      in t3\<lparr>tt_TripDistance := cents (fdiv (tt_FareAmount t3) rate)\<rparr>)"

definition clamp_passengers :: "float64 \<Rightarrow> float64" where
  "clamp_passengers v = (if fless v (Fin 1) then Fin 1 else if fless (Fin 6) v then Fin 6 else v)"

definition CalculateTripCascade :: "taxi_trip \<Rightarrow> string \<Rightarrow> iface \<Rightarrow> taxi_trip" where
  "CalculateTripCascade t field val =
     (let rate = rate_per_mile t; surcharges = fixed_surcharges t; v = ToFloat val
      in if field = ''trip_distance'' then cascade_distance rate surcharges v t
         else if field = ''fare_amount'' then cascade_fare rate surcharges v t
         else if field = ''tip_amount'' then cascade_tip surcharges v t
         else if field = ''total_amount'' then cascade_total rate surcharges v t
         else if field = ''passenger_count'' then t\<lparr>tt_PassengerCount := Some (clamp_passengers v)\<rparr>
         else if field = ''pu_location_id'' \<or> field = ''pulocationid''
         then (let t1 = t\<lparr>tt_PULocationID := Some v\<rparr>
               in case tt_DOLocationID t1 of None \<Rightarrow> t1 | Some d \<Rightarrow> estimate_route rate surcharges v d t1)
         else if field = ''do_location_id'' \<or> field = ''dolocationid''
         then (let t1 = t\<lparr>tt_DOLocationID := Some v\<rparr>
               in case tt_PULocationID t1 of None \<Rightarrow> t1 | Some p \<Rightarrow> estimate_route rate surcharges p v t1)
         else t)"

text \<open>A record to run the definitions on.\<close>

definition demo_trip :: taxi_trip where
  "demo_trip =
     \<lparr>tt_TripID = ''trip:7'', tt_RowID = 7, tt_VendorID = Some (Fin 1), tt_PickupDatetime = ''2019-01-01 00:46:40'',
      tt_DropoffDatetime = ''2019-01-01 00:53:20'', tt_PassengerCount = Some (Fin 1), tt_TripDistance = Fin 2,
      tt_RatecodeID = Some (Fin 1), tt_PULocationID = Some (Fin 151), tt_DOLocationID = Some (Fin 239),
      tt_PaymentType = Some (Fin 1), tt_FareAmount = Fin 8, tt_TipAmount = Fin 2, tt_TotalAmount = Fin 11\<rparr>"

section \<open>Finite records\<close>

fun is_fin :: "float64 \<Rightarrow> bool" where
  "is_fin (Fin x) = True"
| "is_fin _ = False"

lemma is_fin_iff: "is_fin a \<longleftrightarrow> (\<exists>x. a = Fin x)"
  by (cases a) simp_all

text \<open>\<^verbatim>\<open>encoding/json\<close> refuses an infinity and a NaN: a record can be encoded when it has none.\<close>

definition finite_trip :: "taxi_trip \<Rightarrow> bool" where
  "finite_trip t \<longleftrightarrow>
     is_fin (tt_TripDistance t) \<and> is_fin (tt_FareAmount t) \<and> is_fin (tt_TipAmount t) \<and> is_fin (tt_TotalAmount t)
     \<and> pred_option is_fin (tt_VendorID t) \<and> pred_option is_fin (tt_PassengerCount t) \<and> pred_option is_fin (tt_RatecodeID t)
     \<and> pred_option is_fin (tt_PULocationID t) \<and> pred_option is_fin (tt_DOLocationID t) \<and> pred_option is_fin (tt_PaymentType t)"

lemma int_of_float64_range: "- (2 ^ 63) \<le> int_of_float64 a \<and> int_of_float64 a < 2 ^ 63"
  by (cases a) (simp_all add: int_of_float64_def)

lemma abs_of_int_le: "- (2 ^ 63) \<le> i \<Longrightarrow> i < 2 ^ 63 \<Longrightarrow> \<bar>of_int i :: rat\<bar> \<le> 2 powi 63"
proof -
  assume "- (2 ^ 63) \<le> i" "i < 2 ^ 63"
  then have "\<bar>i\<bar> \<le> 2 ^ 63" by simp
  then have "(of_int \<bar>i\<bar> :: rat) \<le> of_int (2 ^ 63)" by (simp only: of_int_le_iff)
  then show ?thesis by simp
qed

lemma cents_bound:
  obtains r where "cents x = Fin r" "\<bar>r\<bar> \<le> 2 powi 63"
proof -
  define i where "i = int_of_float64 (fadd (fmul x (Fin 100)) (Fin (1 / 2)))"
  have i: "\<bar>of_int i :: rat\<bar> \<le> 2 powi 63"
    unfolding i_def using int_of_float64_range by (intro abs_of_int_le) blast+
  then have a: "float64_of_int i = Fin (rnd (of_int i))" unfolding float64_of_int_def by (rule fl_small) simp_all
  have "\<bar>rnd (of_int i)\<bar> \<le> 2 powi 63" by (rule rnd_le_powi2 [OF i]) simp
  then have b: "\<bar>rnd (of_int i) / 100\<bar> \<le> 2 powi 63" by simp
  have "cents x = Fin (rnd (rnd (of_int i) / 100))"
    unfolding cents_def i_def [symmetric] a fdiv_def using fl_small [OF b] by simp
  then show ?thesis using rnd_le_powi2 [OF b] by (intro that) simp_all
qed

lemma is_fin_cents [simp]: "is_fin (cents x)"
  using cents_bound [of x] by (metis is_fin.simps(1))

lemma is_fin_fmax: "is_fin a \<Longrightarrow> is_fin b \<Longrightarrow> is_fin (fmax a b)"
  by (simp add: fmax_def)

lemma fixed_surcharges_cases:
  assumes "is_fin (tt_FareAmount t)" "is_fin (tt_TipAmount t)" "is_fin (tt_TotalAmount t)"
  obtains s where "fixed_surcharges t = Fin s" "0 < s" | "fixed_surcharges t = PosInf"
proof -
  have lit: "0 < f64 (4 / 5)" by (rule f64_gt_0) simp
  let ?x = "fsub (tt_TotalAmount t) (fadd (tt_FareAmount t) (tt_TipAmount t))"
  have "?x \<noteq> NaN"
    using assms by (auto simp: is_fin_iff fsub_def fadd_def fl_def Let_def inf_of_def split: if_splits)
  then have "(\<exists>s. fixed_surcharges t = Fin s \<and> 0 < s) \<or> fixed_surcharges t = PosInf"
    using lit by (cases ?x) (auto simp: fixed_surcharges_def fmax_def fless_def)
  then show ?thesis using that by blast
qed

lemma tip_rest_finite:
  assumes s: "(\<exists>s. surcharges = Fin s \<and> 0 < s) \<or> surcharges = PosInf"
  shows "is_fin (fmax (Fin 0) (fsub (fsub (cents x) (Fin (5 / 2))) surcharges))"
proof -
  obtain r where r: "cents x = Fin r" "\<bar>r\<bar> \<le> 2 powi 63" by (rule cents_bound)
  have "\<bar>r + - (5 / 2)\<bar> \<le> 2 powi 64" using r(2) by (simp add: abs_le_iff)
  from fl_small [OF this] rnd_le_powi2 [OF this]
  have d: "fsub (cents x) (Fin (5 / 2)) = Fin (rnd (r + - (5 / 2)))" "\<bar>rnd (r + - (5 / 2))\<bar> \<le> 2 powi 64"
    by (simp_all add: r fsub_def fadd_def)
  from s show ?thesis
  proof
    assume "\<exists>s. surcharges = Fin s \<and> 0 < s"
    then obtain s where s: "surcharges = Fin s" "0 < s" by blast
    have "rnd (r + - (5 / 2)) + - s \<le> 2 powi 64" using d(2) s(2) by linarith
    from fl_upper [OF this] show ?thesis
      by (cases "fl (rnd (r + - (5 / 2)) + - s)")
         (simp_all add: d(1) s fsub_def [of "Fin _"] fadd_def fmax_def fless_def)
  next
    assume "surcharges = PosInf"
    then show ?thesis by (simp add: d(1)) (simp add: fsub_def fadd_def fmax_def fless_def)
  qed
qed


lemma finite_cascade_distance: "finite_trip t \<Longrightarrow> finite_trip (cascade_distance r s v t)"
  by (simp add: cascade_distance_def Let_def sum_total_def finite_trip_def is_fin_fmax)

lemma finite_cascade_fare: "finite_trip t \<Longrightarrow> finite_trip (cascade_fare r s v t)"
  by (simp add: cascade_fare_def Let_def sum_total_def finite_trip_def is_fin_fmax)

lemma finite_cascade_tip: "finite_trip t \<Longrightarrow> finite_trip (cascade_tip s v t)"
  by (simp add: cascade_tip_def sum_total_def finite_trip_def)

lemma finite_estimate_route: "finite_trip t \<Longrightarrow> finite_trip (estimate_route r s p d t)"
  by (simp add: estimate_route_def Let_def sum_total_def finite_trip_def)

lemma finite_cascade_total: "finite_trip t \<Longrightarrow> finite_trip (cascade_total r (fixed_surcharges t) v t)"
proof -
  assume t: "finite_trip t"
  then have s: "(\<exists>s. fixed_surcharges t = Fin s \<and> 0 < s) \<or> fixed_surcharges t = PosInf"
    using fixed_surcharges_cases [of t] by (auto simp: finite_trip_def)
  from t show ?thesis
    using tip_rest_finite [OF s] by (simp add: cascade_total_def Let_def finite_trip_def)
qed

lemma clamp_passengers_range: "v \<noteq> NaN \<Longrightarrow> \<exists>x. clamp_passengers v = Fin x \<and> 1 \<le> x \<and> x \<le> 6"
  by (cases v) (auto simp: clamp_passengers_def fless_def)

lemmas finite_cascades = finite_cascade_distance finite_cascade_fare finite_cascade_tip finite_cascade_total finite_estimate_route

lemma cascade_finite:
  assumes "finite_trip t"
    and "field = ''passenger_count'' \<Longrightarrow> ToFloat val \<noteq> NaN"
    and "field \<in> {''pu_location_id'', ''pulocationid'', ''do_location_id'', ''dolocationid''} \<Longrightarrow> is_fin (ToFloat val)"
  shows "finite_trip (CalculateTripCascade t field val)"
proof -
  have pass: "finite_trip (t\<lparr>tt_PassengerCount := Some (clamp_passengers v)\<rparr>)" if "v \<noteq> NaN" for v
    using clamp_passengers_range [OF that] assms(1) by (auto simp: finite_trip_def)
  have zone: "finite_trip (t\<lparr>tt_PULocationID := Some v\<rparr>)" "finite_trip (t\<lparr>tt_DOLocationID := Some v\<rparr>)" if "is_fin v" for v
    using that assms(1) by (simp_all add: finite_trip_def)
  show ?thesis
    unfolding CalculateTripCascade_def Let_def
    using assms pass zone by (simp add: finite_cascades split: option.split)
qed

text \<open>C12. Modifying any field of a record that can be encoded as JSON gives one that can again, as long as a
  passenger count is not a NaN and a zone is finite: every other result is a whole number of cents
  of an \<^verbatim>\<open>int\<close>, however large, infinite or undefined the value asked for is.\<close>

theorem trip_cascade_finite:
  assumes "finite_trip t"
    and "field = ''passenger_count'' \<Longrightarrow> ToFloat val \<noteq> NaN"
    and "field \<in> {''pu_location_id'', ''pulocationid'', ''do_location_id'', ''dolocationid''} \<Longrightarrow> is_fin (ToFloat val)"
  shows "finite_trip (CalculateTripCascade t field val)"
  using assms by (rule cascade_finite)

section \<open>Whole cents\<close>

lemma fl_f64: "0 \<le> x \<Longrightarrow> x = 0 \<or> 2 powi (- 1022) \<le> x \<Longrightarrow> x \<le> 2 powi 100 \<Longrightarrow> fl x = Fin (f64 x)"
  using fl_normal [of x 100] by auto

lemma fl_rnd: "0 \<le> x \<Longrightarrow> x \<le> 2 powi 100 \<Longrightarrow> fl x = Fin (rnd x)"
  using fl_small [of x 100] by simp

lemma fl_of_cents:
  assumes "0 \<le> k" "k < 2 ^ 53"
  shows "fl (of_int k / 100) = Fin (f64 (of_int k / 100))"
proof (rule fl_f64)
  have "(of_int k :: rat) \<le> of_int (2 ^ 53)" using assms(2) by (simp only: of_int_le_iff)
  then show "(of_int k / 100 :: rat) \<le> 2 powi 100" by simp
  show "of_int k / 100 = (0 :: rat) \<or> (2 powi (- 1022) :: rat) \<le> of_int k / 100"
  proof (cases "k = 0")
    case False
    then have "(of_int 1 :: rat) \<le> of_int k" using assms(1) by (simp only: of_int_le_iff)
    moreover have "(2 powi (- 1022) :: rat) \<le> 2 powi (- 7)" by (rule powi2_mono) simp
    moreover have "(2 powi (- 7) :: rat) \<le> 1 / 100" by (simp add: power_int_minus)
    ultimately show ?thesis by linarith
  qed simp
qed (use assms in simp)

lemma float64_of_small_int: "0 \<le> k \<Longrightarrow> k < 2 ^ 53 \<Longrightarrow> float64_of_int k = Fin (of_int k)"
proof -
  assume k: "0 \<le> k" "k < 2 ^ 53"
  then have "(of_int k :: rat) \<le> of_int (2 ^ 53)" by (simp only: of_int_le_iff)
  then have "(of_int k :: rat) \<le> 2 powi 100" by simp
  moreover have "k = 0 \<or> (2 powi (- 1022) :: rat) \<le> of_int k"
  proof (cases "k = 0")
    case False
    then have "(of_int 1 :: rat) \<le> of_int k" using k by (simp only: of_int_le_iff)
    with powi2_mono [of "- 1022" 0] show ?thesis by simp
  qed simp
  ultimately show ?thesis using k fl_f64 [of "of_int k"] by (auto simp: float64_of_int_def f64_of_int)
qed

text \<open>Rounding to cents of a non-negative amount is the nearest whole number of cents, up to the rounding
  of the two float operations before the truncation.\<close>

lemma cents_near:
  assumes "0 \<le> y" "y \<le> 2 powi 33"
  obtains k where "0 \<le> k" "k < 2 ^ 41" "cents (Fin y) = Fin (f64 (of_int k / 100))" "\<bar>of_int k - y * 100\<bar> \<le> 1 / 2 + 1 / 2000"
proof -
  define a where "a = rnd (y * 100)"
  define b where "b = rnd (a + 1 / 2)"
  have "y * 100 \<le> 2 powi 40" using assms(2) by simp
  from rnd_err [OF _ this] have a: "\<bar>a - y * 100\<bar> \<le> 1 / 8192" using assms(1) by (simp add: a_def power_int_minus)
  have "y * 100 \<le> 858993459200" using assms(2) by simp
  then have ab: "0 \<le> a + 1 / 2" "a + 1 / 2 \<le> 2 powi 41" using a assms(1) by (simp_all add: abs_le_iff, linarith+)
  from rnd_err [OF this] have b: "\<bar>b - (a + 1 / 2)\<bar> \<le> 1 / 4096" by (simp add: b_def power_int_minus)
  have "0 \<le> b" "b < 2 ^ 41" using a b assms \<open>y * 100 \<le> 858993459200\<close> by (simp_all add: abs_le_iff, linarith+)
  define k where "k = \<lfloor>b\<rfloor>"
  have k: "0 \<le> k" "k < 2 ^ 41" using \<open>0 \<le> b\<close> \<open>b < 2 ^ 41\<close> by (simp_all add: k_def floor_less_iff)
  have "fmul (Fin y) (Fin 100) = Fin a"
    unfolding a_def fmul_def using assms fl_rnd [of "y * 100"] by simp
  moreover have "fadd (Fin a) (Fin (1 / 2)) = Fin b"
    unfolding b_def fadd_def using ab fl_rnd [of "a + 1 / 2"] by simp
  moreover have "int_of_float64 (Fin b) = k" using \<open>0 \<le> b\<close> k by (simp add: int_of_float64_def int64_of_float_def k_def)
  ultimately have "cents (Fin y) = Fin (f64 (of_int k / 100))"
    using k by (simp add: cents_def float64_of_small_int fdiv_def fl_of_cents)
  moreover have "of_int k \<le> b" "b < of_int k + 1" unfolding k_def by linarith+
  then have "\<bar>of_int k - y * 100\<bar> \<le> 1 / 2 + 1 / 2000" using a b by linarith
  ultimately show ?thesis using that k by blast
qed

lemma cents_exact:
  assumes "0 \<le> k" "k \<le> 2 ^ 39"
  shows "cents (lit (of_int k / 100)) = lit (of_int k / 100)"
proof -
  let ?y = "f64 (of_int k / 100)"
  have "(of_int k :: rat) \<le> of_int (2 ^ 39)" using assms(2) by (simp only: of_int_le_iff)
  then have q: "(of_int k / 100 :: rat) \<le> 2 powi 33" "(0 :: rat) \<le> of_int k / 100" using assms(1) by simp_all
  have y: "0 \<le> ?y" "?y \<le> 2 powi 33" using f64_nonneg [OF q(2)] f64_le_powi2 [of "of_int k / 100" 33] q by simp_all
  obtain j where j: "cents (Fin ?y) = Fin (f64 (of_int j / 100))" "\<bar>of_int j - ?y * 100\<bar> \<le> 1 / 2 + 1 / 2000"
    using cents_near [OF y] by metis
  have "\<bar>?y - of_int k / 100\<bar> \<le> 1 / 1048576" using f64_err [OF q(2,1)] by (simp add: power_int_minus)
  with j(2) have "\<bar>of_int j - of_int k :: rat\<bar> < 1" by linarith
  then have "j = k" by (simp only: of_int_diff [symmetric] of_int_abs [symmetric] of_int_less_1_iff)
  with j(1) show ?thesis by simp
qed

lemma fmax_lit: "0 \<le> c \<Longrightarrow> c \<le> x \<Longrightarrow> fmax (lit c) (lit x) = lit x"
  using f64_mono [of c x] by (simp add: fmax_def fless_def)

lemma f64_five_halves: "f64 (5 / 2) = 5 / 2"
  using f64_exact [of 5 "- 1"] by (simp add: power_int_minus)

lemma lit_cents_ge: "c \<le> k \<Longrightarrow> (of_int c / 100 :: rat) \<le> of_int k / 100"
  by (simp add: divide_right_mono)

lemma sum_total_simps [simp]:
  "tt_FareAmount (sum_total s t) = tt_FareAmount t" "tt_TipAmount (sum_total s t) = tt_TipAmount t"
  "tt_TripDistance (sum_total s t) = tt_TripDistance t"
  by (simp_all add: sum_total_def)

text \<open>A fare of at least 2.50, a tip, a distance of at least 0.10 and a total of at least 3.30
  that is a whole number of cents (below about five billion dollars) is stored as it was asked for: the multiplication,
  the truncation and the division of the code give back the same \<^verbatim>\<open>float64\<close>.\<close>

theorem trip_edit_exact:
  assumes "0 \<le> k" "k \<le> 2 ^ 39" and "v = VFloat64 (lit (of_int k / 100))"
  shows "(250 \<le> k \<longrightarrow> tt_FareAmount (CalculateTripCascade t ''fare_amount'' v) = lit (of_int k / 100))
    \<and> tt_TipAmount (CalculateTripCascade t ''tip_amount'' v) = lit (of_int k / 100)
    \<and> (10 \<le> k \<longrightarrow> tt_TripDistance (CalculateTripCascade t ''trip_distance'' v) = lit (of_int k / 100))
    \<and> (330 \<le> k \<longrightarrow> tt_TotalAmount (CalculateTripCascade t ''total_amount'' v) = lit (of_int k / 100))"
proof (intro conjI impI)
  note simps = CalculateTripCascade_def Let_def assms(3) ToFloat_def cents_exact [OF assms(1,2)]
  show "tt_FareAmount (CalculateTripCascade t ''fare_amount'' v) = lit (of_int k / 100)" if "250 \<le> k"
    using fmax_lit [OF _ lit_cents_ge [OF that]] by (simp add: simps cascade_fare_def f64_five_halves)
  show "tt_TipAmount (CalculateTripCascade t ''tip_amount'' v) = lit (of_int k / 100)"
    using fmax_lit [OF _ lit_cents_ge [OF assms(1)]] by (simp add: simps cascade_tip_def)
  show "tt_TripDistance (CalculateTripCascade t ''trip_distance'' v) = lit (of_int k / 100)" if "10 \<le> k"
    using fmax_lit [OF _ lit_cents_ge [OF that]] by (simp add: simps cascade_distance_def)
  show "tt_TotalAmount (CalculateTripCascade t ''total_amount'' v) = lit (of_int k / 100)" if "330 \<le> k"
    using fmax_lit [OF _ lit_cents_ge [OF that]] by (simp add: simps cascade_total_def)
qed

theorem trip_edit_exact_witness:
  "tt_FareAmount (CalculateTripCascade demo_trip ''fare_amount'' (VFloat64 (lit (of_int 1234 / 100)))) = lit (of_int 1234 / 100)"
  using trip_edit_exact [of 1234 _ demo_trip] by simp

text \<open>\<open>nearest_cent r y\<close>: the number \<open>r\<close> is a whole number of cents, the one nearest to \<open>y\<close>. At most half a cent is lost, up to a two
  thousandth of a cent for the rounding of the multiplication and the addition before the truncation.\<close>

definition nearest_cent :: "float64 \<Rightarrow> rat \<Rightarrow> bool" where
  "nearest_cent r y \<longleftrightarrow> (\<exists>k. r = lit (of_int k / 100) \<and> \<bar>of_int k - y * 100\<bar> \<le> 1 / 2 + 1 / 2000)"

lemma cents_nearest: "0 \<le> y \<Longrightarrow> y \<le> 2 powi 33 \<Longrightarrow> nearest_cent (cents (Fin y)) y"
  unfolding nearest_cent_def by (rule cents_near) auto

lemma nearest_fmax:
  assumes "0 \<le> c" "c \<le> 2 powi 33" "y \<le> 2 ^ 33"
  shows "nearest_cent (cents (fmax (Fin c) (Fin y))) (max c y)"
proof -
  have "fmax (Fin c) (Fin y) = Fin (max c y)" by (auto simp: fmax_def fless_def max_def)
  moreover have "nearest_cent (cents (Fin (max c y))) (max c y)" using assms by (intro cents_nearest) simp_all
  ultimately show ?thesis by simp
qed

text \<open>C30. A fare, tip, distance or total that is modified to a finite amount \<open>y\<close> is stored to the nearest cent, after raising it to the least
  value of its field (2.50, 0, 0.10, 3.30; of those, 0.10 and 3.30 are the \<^verbatim>\<open>float64\<close> numbers next to them), for amounts up to eight billion.
  An amount that is already a whole number of cents, and not below the least value, is stored as it was asked for, to the bit.\<close>

theorem trip_edit_nearest_cent:
  assumes v: "v = VFloat64 (Fin y)" and y: "y \<le> 2 ^ 33"
  shows "nearest_cent (tt_FareAmount (CalculateTripCascade t ''fare_amount'' v)) (max (5 / 2) y)
    \<and> nearest_cent (tt_TipAmount (CalculateTripCascade t ''tip_amount'' v)) (max 0 y)
    \<and> nearest_cent (tt_TripDistance (CalculateTripCascade t ''trip_distance'' v)) (max (f64 (1 / 10)) y)
    \<and> nearest_cent (tt_TotalAmount (CalculateTripCascade t ''total_amount'' v)) (max (f64 (33 / 10)) y)
    \<and> (\<forall>k. 0 \<le> k \<and> k \<le> 2 ^ 39 \<and> y = f64 (of_int k / 100) \<longrightarrow>
         (250 \<le> k \<longrightarrow> tt_FareAmount (CalculateTripCascade t ''fare_amount'' v) = Fin y)
       \<and> tt_TipAmount (CalculateTripCascade t ''tip_amount'' v) = Fin y
       \<and> (10 \<le> k \<longrightarrow> tt_TripDistance (CalculateTripCascade t ''trip_distance'' v) = Fin y)
       \<and> (330 \<le> k \<longrightarrow> tt_TotalAmount (CalculateTripCascade t ''total_amount'' v) = Fin y))"
proof (intro conjI)
  note simps = CalculateTripCascade_def Let_def v ToFloat_def
  have floor: "0 \<le> f64 c" "f64 c \<le> 2 powi 33" if "0 \<le> c" "c \<le> 2 powi 33" for c :: rat
    using f64_nonneg [OF that(1)] f64_le_powi2 [of c 33] that by simp_all
  show "nearest_cent (tt_FareAmount (CalculateTripCascade t ''fare_amount'' v)) (max (5 / 2) y)"
    using nearest_fmax [OF _ _ y, of "5 / 2"] by (simp add: simps cascade_fare_def)
  show "nearest_cent (tt_TipAmount (CalculateTripCascade t ''tip_amount'' v)) (max 0 y)"
    using nearest_fmax [OF _ _ y, of 0] by (simp add: simps cascade_tip_def)
  show "nearest_cent (tt_TripDistance (CalculateTripCascade t ''trip_distance'' v)) (max (f64 (1 / 10)) y)"
    using nearest_fmax [OF floor y, of "1 / 10"] by (simp add: simps cascade_distance_def)
  show "nearest_cent (tt_TotalAmount (CalculateTripCascade t ''total_amount'' v)) (max (f64 (33 / 10)) y)"
    using nearest_fmax [OF floor y, of "33 / 10"] by (simp add: simps cascade_total_def)
  show "\<forall>k. 0 \<le> k \<and> k \<le> 2 ^ 39 \<and> y = f64 (of_int k / 100) \<longrightarrow>
         (250 \<le> k \<longrightarrow> tt_FareAmount (CalculateTripCascade t ''fare_amount'' v) = Fin y)
       \<and> tt_TipAmount (CalculateTripCascade t ''tip_amount'' v) = Fin y
       \<and> (10 \<le> k \<longrightarrow> tt_TripDistance (CalculateTripCascade t ''trip_distance'' v) = Fin y)
       \<and> (330 \<le> k \<longrightarrow> tt_TotalAmount (CalculateTripCascade t ''total_amount'' v) = Fin y)"
    using trip_edit_exact [of _ v t] v by simp
qed

theorem trip_edit_nearest_cent_witness:
  "tt_FareAmount (CalculateTripCascade demo_trip ''fare_amount'' (VFloat64 (Fin (641 / 128)))) = lit (501 / 100)"
proof -
  obtain k where k: "tt_FareAmount (CalculateTripCascade demo_trip ''fare_amount'' (VFloat64 (Fin (641 / 128)))) = lit (of_int k / 100)"
    "\<bar>of_int k - max (5 / 2) (641 / 128) * 100 :: rat\<bar> \<le> 1 / 2 + 1 / 2000"
    using trip_edit_nearest_cent [OF refl, of "641 / 128" demo_trip] by (auto simp: nearest_cent_def)
  have "max (5 / 2) (641 / 128) = (641 / 128 :: rat)" by simp
  with k(2) have "\<bar>of_int k - 64100 / 128 :: rat\<bar> \<le> 1001 / 2000" by simp
  then have "\<bar>of_int k - 501 :: rat\<bar> < 1" by linarith
  then have "\<bar>of_int k - of_int 501 :: rat\<bar> < 1" by simp
  then have "k = 501" by (simp only: of_int_diff [symmetric] of_int_abs [symmetric] of_int_less_1_iff)
  with k(1) show ?thesis by simp
qed

lemma sum_total_near:
  assumes "tt_FareAmount t = Fin f" "tt_TipAmount t = Fin p" "0 \<le> f" "0 \<le> p" "0 \<le> s" "f + p + s \<le> 2 powi 32"
  obtains r where "tt_TotalAmount (sum_total (Fin s) t) = Fin r" "\<bar>r - (f + p + s)\<bar> \<le> 51 / 10000"
proof -
  define a where "a = rnd (f + p)"
  define y where "y = rnd (a + s)"
  have fp: "0 \<le> f + p" "f + p \<le> 2 powi 32" using assms by linarith+
  from rnd_err [OF this] have a: "\<bar>a - (f + p)\<bar> \<le> 1 / 2097152" by (simp add: a_def power_int_minus)
  have "0 \<le> a" unfolding a_def by (rule rnd_nonneg [OF fp(1)])
  have "f + p + s \<le> 4294967296" using assms(6) by simp
  with a \<open>0 \<le> a\<close> assms(5) have "0 \<le> a + s" "a + s \<le> 8589934592" by linarith+
  then have as: "0 \<le> a + s" "a + s \<le> 2 powi 33" by simp_all
  from rnd_err [OF this] have y: "\<bar>y - (a + s)\<bar> \<le> 1 / 1048576" by (simp add: y_def power_int_minus)
  have y0: "0 \<le> y" "y \<le> 2 powi 33" unfolding y_def using rnd_nonneg [OF as(1)] rnd_le_powi2 [of "a + s" 33] as by simp_all
  obtain k where k: "0 \<le> k" "k < 2 ^ 41" "cents (Fin y) = Fin (f64 (of_int k / 100))" "\<bar>of_int k - y * 100\<bar> \<le> 1 / 2 + 1 / 2000"
    by (rule cents_near [OF y0])
  have "(of_int k :: rat) \<le> of_int (2 ^ 41)" using k(2) by (simp only: of_int_le_iff)
  then have q: "(0 :: rat) \<le> of_int k / 100" "(of_int k / 100 :: rat) \<le> 2 powi 35" using k(1) by simp_all
  from f64_err [OF this] have r: "\<bar>f64 (of_int k / 100) - of_int k / 100\<bar> \<le> 1 / 262144" by (simp add: power_int_minus)
  have "fadd (fadd (Fin f) (Fin p)) (Fin s) = Fin y"
    unfolding fadd_def using fp as fl_rnd [of "f + p"] fl_rnd [of "a + s"] by (simp add: a_def y_def)
  then have "tt_TotalAmount (sum_total (Fin s) t) = Fin (f64 (of_int k / 100))"
    using assms(1,2) k(3) by (simp add: sum_total_def)
  moreover have "\<bar>f64 (of_int k / 100) - (f + p + s)\<bar> \<le> 51 / 10000" using a y k(4) r by linarith
  ultimately show ?thesis by (rule that)
qed

text \<open>C31. After a fare, a tip or a distance has been modified, the total is the fare plus the tip plus the
  surcharges of the record before, to within rounding to the nearest cent (0.0051), for non-negative
  amounts that add up to less than four billion.\<close>

theorem trip_total_balances:
  assumes field: "field \<in> {''fare_amount'', ''tip_amount'', ''trip_distance''}"
    and t': "t' = CalculateTripCascade t field val"
    and parts: "tt_FareAmount t' = Fin f" "tt_TipAmount t' = Fin p" "fixed_surcharges t = Fin s"
    and range: "0 \<le> f" "0 \<le> p" "0 \<le> s" "f + p + s \<le> 2 ^ 32"
  shows "\<exists>r. tt_TotalAmount t' = Fin r \<and> \<bar>r - (f + p + s)\<bar> \<le> 51 / 10000"
proof -
  obtain u where u: "t' = sum_total (Fin s) u"
    using field parts(3) unfolding t' CalculateTripCascade_def Let_def cascade_fare_def cascade_tip_def cascade_distance_def
    by auto
  with parts range show ?thesis using sum_total_near [of u f p s] by auto
qed

text \<open>Small whole numbers, to run the definitions.\<close>

lemma fl_numeral [simp]: "(numeral n :: int) < 2 ^ 53 \<Longrightarrow> fl (numeral n) = Fin (numeral n)"
  using float64_of_small_int [of "numeral n"] by (simp add: float64_of_int_def)

lemma fl_1 [simp]: "fl 1 = Fin 1"
  using float64_of_small_int [of 1] by (simp add: float64_of_int_def)

lemma cents_of_int: "0 \<le> k \<Longrightarrow> k \<le> 2 ^ 32 \<Longrightarrow> cents (Fin (of_int k)) = Fin (of_int k)"
  using cents_exact [of "100 * k"] f64_of_int [of k] by simp

lemma cents_numeral [simp]: "(numeral n :: int) \<le> 2 ^ 32 \<Longrightarrow> cents (Fin (numeral n)) = Fin (numeral n)"
  using cents_of_int [of "numeral n"] by simp

lemma f64_lt_1: "0 \<le> x \<Longrightarrow> x \<le> 1 \<Longrightarrow> f64 x \<le> 1"
  using f64_mono [of x 1] f64_of_int [of 1] by simp

lemma demo_trip_parts:
  "fixed_surcharges demo_trip = Fin 1" "rate_per_mile demo_trip = Fin 4"
  using f64_lt_1 [of "4 / 5"]
  by (simp_all add: fixed_surcharges_def rate_per_mile_def demo_trip_def fadd_def fsub_def fmax_def fless_def fdiv_def)

theorem trip_total_balances_witness:
  "\<exists>r. tt_TotalAmount (CalculateTripCascade demo_trip ''tip_amount'' (VInt 3)) = Fin r \<and> \<bar>r - (8 + 3 + 1)\<bar> \<le> 51 / 10000"
proof (rule trip_total_balances [where field = "''tip_amount''" and val = "VInt 3"])
  show "tt_FareAmount (CalculateTripCascade demo_trip ''tip_amount'' (VInt 3)) = Fin 8"
    "tt_TipAmount (CalculateTripCascade demo_trip ''tip_amount'' (VInt 3)) = Fin 3"
    "fixed_surcharges demo_trip = Fin 1"
    by (simp_all add: demo_trip_parts CalculateTripCascade_def Let_def cascade_tip_def ToFloat_def float64_of_int_def fmax_def fless_def)
       (simp add: demo_trip_def)
qed simp_all

theorem trip_cascade_finite_witness:
  "finite_trip (CalculateTripCascade demo_trip ''passenger_count'' (VInt 9))"
  by (rule trip_cascade_finite) (simp_all add: finite_trip_def demo_trip_def ToFloat_def float64_of_int_def)

section \<open>Behaviour at the edges\<close>

text \<open>Doubling the distance of a ride of 8 dollars with a tip of 2 doubles the fare and keeps the tip: the ratio is
  taken of the new fare, so it is not the ratio of the tip before that is preserved.\<close>

lemma tip_ratio_of_new_fare:
  "let t = CalculateTripCascade demo_trip ''trip_distance'' (VInt 4)
   in tt_FareAmount t = Fin 16 \<and> tt_TipAmount t = Fin 2"
proof -
  have "fl (1 / 8) = Fin (1 / 8)" using fl_normal [of "2 powi (- 3)" 0] powi2_mono [of "- 1022" "- 3"]
    f64_powi2 [of "- 3"] by (simp add: power_int_minus)
  then have ratio: "tip_ratio t = Fin (1 / 8)" if "tt_FareAmount t = Fin 16" "tt_TipAmount t = Fin 2" for t
    using that by (simp add: tip_ratio_def fless_def fdiv_def fleq_def)
  have dist: "fmax (lit (1 / 10)) (Fin 4) = Fin 4" "fmax (Fin (5 / 2)) (Fin 16) = Fin 16"
    using f64_lt_1 [of "1 / 10"] by (simp_all add: fmax_def fless_def)
  have mul: "fmul (Fin 4) (Fin 4) = Fin 16" "fmul (Fin 16) (Fin (1 / 8)) = Fin 2" by (simp_all add: fmul_def)
  have tip: "tt_TipAmount demo_trip = Fin 2" by (simp add: demo_trip_def)
  have val: "ToFloat (VInt 4) = Fin 4" by (simp add: ToFloat_def float64_of_int_def)
  show ?thesis
    by (simp add: CalculateTripCascade_def Let_def cascade_distance_def val dist mul ratio tip demo_trip_parts)
qed

text \<open>The string \<^verbatim>\<open>nan\<close> passes the limits of the passenger count.\<close>

lemma passenger_count_nan: "tt_PassengerCount (CalculateTripCascade t ''passenger_count'' (VString ''nan'')) = Some NaN"
  by (simp add: CalculateTripCascade_def Let_def ToFloat_def Sscanf_f_samples clamp_passengers_def fless_def)

text \<open>A distance whose hundredfold is no \<^verbatim>\<open>int\<close> becomes negative.\<close>

lemma fl_ge_half:
  assumes "1 / 2 \<le> x" "x \<le> 2 powi k" "k < 1024"
  shows "fl x = Fin (f64 x)"
proof (rule fl_normal [OF _ _ assms(3)])
  have "(2 powi (- 1022) :: rat) \<le> 1 / 2" using powi2_mono [of "- 1022" "- 1"] by (simp add: power_int_minus)
  then show "2 powi (- 1022) \<le> \<bar>x\<bar>" using assms(1) by linarith
  show "\<bar>x\<bar> \<le> 2 powi k" using assms(1,2) by linarith
qed

lemma cents_overflow:
  assumes "2 powi 63 \<le> x" "x \<le> 2 powi 900"
  shows "fless (cents (Fin x)) (Fin 0)"
proof -
  have tiny: "(2 powi (- 1022) :: rat) \<le> 1 / 2" using powi2_mono [of "- 1022" "- 1"] by (simp add: power_int_minus)
  have big: "(1 :: rat) \<le> 2 powi 63" "(1 :: rat) \<le> 2 powi 907" by simp_all
  have "x * 100 \<le> 2 powi 900 * 2 powi 7" using assms(2) by simp
  then have x: "2 powi 63 \<le> x * 100" "x * 100 \<le> 2 powi 907"
    using assms(1) powi2_pos [of 63] powi2_add [of 900 7] by simp_all
  define a where "a = f64 (x * 100)"
  have a: "fl (x * 100) = Fin a" unfolding a_def
    by (rule fl_ge_half [OF _ x(2)]) (use x big in linarith, simp)
  have a1: "2 powi 63 \<le> a" "a \<le> 2 powi 907"
    using f64_mono [OF _ x(1)] f64_mono [OF _ x(2)] x(1) big f64_powi2 [of 63] f64_powi2 [of 907] unfolding a_def by linarith+
  define b where "b = f64 (a + 1 / 2)"
  have "2 powi 907 + 2 powi 907 = (2 powi 908 :: rat)" using powi2_add [of 907 1] by simp
  then have a2: "a + 1 / 2 \<le> 2 powi 908" using a1(2) big by linarith
  have b: "fl (a + 1 / 2) = Fin b" unfolding b_def
    by (rule fl_ge_half [OF _ a2]) (use a1(1) big in linarith, simp)
  have "2 powi 63 \<le> b" using f64_mono [of "2 powi 63" "a + 1 / 2"] a1(1) f64_powi2 [of 63] unfolding b_def by simp
  then have "2 ^ 63 \<le> int64_of_float b" by (simp add: int64_of_float_def le_floor_iff)
  then have i: "int_of_float64 (Fin b) = - (2 ^ 63)" by (simp add: int_of_float64_def)
  have "float64_of_int (- (2 ^ 63)) = Fin (f64 (- (2 powi 63)))"
    unfolding float64_of_int_def using fl_normal [of "- (2 powi 63)" 63] tiny big(1) by simp
  then have m: "float64_of_int (- (2 ^ 63)) = Fin (- (2 powi 63))" using f64_powi2 [of 63] by (simp only: f64_minus)
  have "fl (- (2 powi 63) / 100) = Fin (f64 (- (2 powi 63 / 100)))"
    using fl_normal [of "- (2 powi 63 / 100)" 63] tiny by simp
  moreover have "f64 (- (2 powi 63 / 100)) < 0" using f64_gt_0 [of "2 powi 63 / 100"] by (simp only: f64_minus) simp
  ultimately show ?thesis
    by (simp only: cents_def fmul_def fadd_def fdiv_def a b i m float64.case prod.case) (simp add: fless_def)
qed

lemma distance_overflow:
  assumes "2 powi 63 \<le> x" "x \<le> 2 powi 900"
  shows "fless (tt_TripDistance (CalculateTripCascade t ''trip_distance'' (VFloat64 (Fin x)))) (Fin 0)"
  using cents_overflow [OF assms] f64_lt_1 [of "1 / 10"] assms(1)
  by (simp add: CalculateTripCascade_def Let_def cascade_distance_def ToFloat_def fmax_def fless_def)

end
