(* ===== verification/Trip_Store.thy ===== *)
theory Trip_Store
  imports Taxi_Trip
begin

text \<open>
  The contract of the \<^verbatim>\<open>Database\<close> interface as a locale: \<open>view\<close> is the finite map from row ids to records a
  store stands for, \<open>ok\<close> its invariant (the connection is up and serves the table). A query reads the view; an
  update of a record that exists applies the cascade to it; an update of one that does not is acknowledged with
  a record that is not stored. The argument \<open>'e\<close> of a call is what it reads from the clock. \<open>run_edits\<close> refines the
  specification \<open>spec_edits\<close> on maps.
\<close>

section \<open>Specification\<close>

type_synonym edit = "int \<times> string \<times> iface"

definition spec_edit :: "edit \<Rightarrow> (int \<Rightarrow> taxi_trip option) \<Rightarrow> int \<Rightarrow> taxi_trip option" where
  "spec_edit e m = (case e of (i, field, val) \<Rightarrow>
     (case m i of None \<Rightarrow> m | Some t \<Rightarrow> m(i \<mapsto> CalculateTripCascade t field val)))"

definition spec_edits :: "edit list \<Rightarrow> (int \<Rightarrow> taxi_trip option) \<Rightarrow> int \<Rightarrow> taxi_trip option" where
  "spec_edits es m = fold spec_edit es m"

text \<open>An edit whose result can be stored and encoded.\<close>

definition safe_edit :: "edit \<Rightarrow> bool" where
  "safe_edit e \<longleftrightarrow> (case e of (i, field, val) \<Rightarrow>
     (field = ''passenger_count'' \<longrightarrow> ToFloat val \<noteq> NaN)
     \<and> (field \<in> {''pu_location_id'', ''pulocationid'', ''do_location_id'', ''dolocationid''} \<longrightarrow> is_fin (ToFloat val)))"

lemma safe_edit_finite: "safe_edit (i, field, val) \<Longrightarrow> finite_trip t \<Longrightarrow> finite_trip (CalculateTripCascade t field val)"
  by (rule cascade_finite) (auto simp: safe_edit_def)

lemma spec_edit_other: "i \<noteq> j \<Longrightarrow> spec_edit (i, field, val) m j = m j"
  by (simp add: spec_edit_def split: option.split)

text \<open>A sequence of calls of an update operation.\<close>

definition run_edits ::
  "('e \<Rightarrow> int \<Rightarrow> string \<Rightarrow> iface \<Rightarrow> 's \<Rightarrow> 'r \<times> 's) \<Rightarrow> ('e \<times> edit) list \<Rightarrow> 's \<Rightarrow> 's" where
  "run_edits update es s = fold (\<lambda>(e, i, field, val) s. snd (update e i field val s)) es s"

section \<open>Interface\<close>

locale trip_store =
  fixes query :: "'e \<Rightarrow> int \<Rightarrow> 's \<Rightarrow> ((string + taxi_trip) \<times> duration) \<times> 's"
    and update :: "'e \<Rightarrow> int \<Rightarrow> string \<Rightarrow> iface \<Rightarrow> 's \<Rightarrow> ((string + taxi_trip) \<times> duration) \<times> 's"
    and view :: "'s \<Rightarrow> int \<Rightarrow> taxi_trip option"
    and ok :: "'s \<Rightarrow> bool"
  assumes query_found: "ok s \<Longrightarrow> view s i = Some t \<Longrightarrow> fst (fst (query e i s)) = Inr t"
    and query_missing: "ok s \<Longrightarrow> view s i = None \<Longrightarrow> \<exists>err. fst (fst (query e i s)) = Inl err"
    and query_keeps: "ok s \<Longrightarrow> ok (snd (query e i s)) \<and> view (snd (query e i s)) = view s"
    and update_found: "ok s \<Longrightarrow> view s i = Some t \<Longrightarrow> safe_edit (i, field, val) \<Longrightarrow>
        fst (fst (update e i field val s)) = Inr (CalculateTripCascade t field val)"
    and update_missing: "ok s \<Longrightarrow> view s i = None \<Longrightarrow> safe_edit (i, field, val) \<Longrightarrow>
        \<exists>t. fst (fst (update e i field val s)) = Inr t"
    and update_view: "ok s \<Longrightarrow> safe_edit (i, field, val) \<Longrightarrow>
        ok (snd (update e i field val s)) \<and> view (snd (update e i field val s)) = spec_edit (i, field, val) (view s)"
begin

lemma run_edits_refines:
  "ok s \<Longrightarrow> \<forall>x\<in>set es. safe_edit (snd x) \<Longrightarrow> ok (run_edits update es s) \<and> view (run_edits update es s) = spec_edits (map snd es) (view s)"
proof (induction es arbitrary: s)
  case (Cons x es)
  obtain e i field val where x: "x = (e, i, field, val)" by (cases x)
  let ?s = "snd (update e i field val s)"
  have "ok ?s" "view ?s = spec_edit (i, field, val) (view s)" using update_view Cons.prems by (simp_all add: x)
  with Cons.IH [of ?s] Cons.prems(2) show ?case by (simp add: run_edits_def spec_edits_def x)
qed (simp add: run_edits_def spec_edits_def)

lemma update_then_query:
  assumes "ok s" "view s i = Some t" "safe_edit (i, field, val)"
  shows "fst (fst (query e' i (snd (update e i field val s)))) = fst (fst (update e i field val s))"
proof -
  have "ok (snd (update e i field val s))" "view (snd (update e i field val s)) i = Some (CalculateTripCascade t field val)"
    using update_view assms by (simp_all add: spec_edit_def)
  then show ?thesis using update_found [OF assms] query_found by metis
qed

lemma update_then_query_other:
  assumes "ok s" "safe_edit (i, field, val)" "j \<noteq> i" "view s j = Some t"
  shows "fst (fst (query e' j (snd (update e i field val s)))) = Inr t"
  using assms update_view by (intro query_found) (simp_all add: spec_edit_other)

lemma update_missing_lost:
  assumes "ok s" "view s i = None" "safe_edit (i, field, val)"
  shows "(\<exists>t. fst (fst (update e i field val s)) = Inr t)
    \<and> (\<exists>err. fst (fst (query e' i (snd (update e i field val s)))) = Inl err)"
proof -
  have "ok (snd (update e i field val s))" "view (snd (update e i field val s)) i = None"
    using update_view assms by (simp_all add: spec_edit_def)
  then show ?thesis using update_missing [OF assms] query_missing by blast
qed

end

end
