(* ===== verification/Trip_Database.thy ===== *)
theory Trip_Database
  imports Trip_Store
begin

text \<open>
  The persistent trip databases (\<^verbatim>\<open>backend/internal/database/sqlite.go\<close>, \<^verbatim>\<open>postgres.go\<close> and \<open>Open\<close> of
  \<^verbatim>\<open>database.go\<close>): one definition per method of the two implementations, and the \<^verbatim>\<open>Database\<close> interface as the
  datatype \<open>database\<close> of its dynamic types.

  \<^item> The drivers (\<^verbatim>\<open>modernc.org/sqlite\<close>, \<^verbatim>\<open>lib/pq\<close>) are the record \<open>sql_driver\<close>, an argument: what a
    connection pool answers to a statement, and the pool it leaves. The statements are the ones of the code.
  \<^item> A pointer receiver is an option: the methods are called on a nil pointer as well. An interface that
    holds a nil pointer is not nil, so \<open>Open\<close> returns a \<open>database\<close> also when it fails.
  \<^item> \<open>clk\<close> numbers the readings of the clock of a call, \<open>fmt_time\<close> prints one in the local time zone.
\<close>

section \<open>Definitions\<close>

subsection \<open>Rows and drivers\<close>

text \<open>The columns a statement scans, \<open>None\<close> for NULL (\<^verbatim>\<open>sql.NullFloat64\<close>, \<^verbatim>\<open>sql.NullString\<close>).\<close>

record trip_row =
  row_id :: int
  row_vendor :: "float64 option"
  row_pickup :: "string option"
  row_dropoff :: "string option"
  row_passengers :: "float64 option"
  row_distance :: "float64 option"
  row_ratecode :: "float64 option"
  row_pu :: "float64 option"
  row_do :: "float64 option"
  row_payment :: "float64 option"
  row_fare :: "float64 option"
  row_tip :: "float64 option"
  row_total :: "float64 option"

datatype scan_result = ScanRow trip_row | ScanNoRows | ScanErr string

datatype sql_arg = ArgFloat float64 | ArgFloatPtr "float64 option" | ArgInt int

record 'c sql_driver =
  dr_QueryRow :: "'c \<Rightarrow> string \<Rightarrow> int \<Rightarrow> scan_result \<times> 'c"
  dr_Exec :: "'c \<Rightarrow> string \<Rightarrow> sql_arg list \<Rightarrow> string option \<times> 'c"
  dr_Close :: "'c \<Rightarrow> string option \<times> 'c"
  dr_Stats :: "'c \<Rightarrow> int \<times> int \<times> int"

definition sql_lines :: "string list \<Rightarrow> string" where
  "sql_lines ls = concat (map (\<lambda>l. [CHR 0x0A, CHR 0x09, CHR 0x09] @ l) ls) @ [CHR 0x0A, CHR 0x09]"

definition sqlite_select :: string where
  "sqlite_select = sql_lines
     [''SELECT rowid, vendorid, tpep_pickup_datetime, tpep_dropoff_datetime, '',
      ''       passenger_count, trip_distance, ratecodeid, pulocationid, '',
      ''       dolocationid, payment_type, fare_amount, tip_amount, total_amount '',
      ''FROM tripdata '',
      ''WHERE rowid = ? LIMIT 1;'']"

definition sqlite_update :: string where
  "sqlite_update = sql_lines
     [''UPDATE tripdata '', ''SET trip_distance = ?, '', ''    fare_amount = ?, '', ''    tip_amount = ?, '',
      ''    total_amount = ?, '', ''    passenger_count = ?, '', ''    pulocationid = ?, '', ''    dolocationid = ? '',
      ''WHERE rowid = ?;'']"

definition postgres_select :: string where
  "postgres_select = sql_lines
     [''SELECT id, vendor_id, pickup_datetime, dropoff_datetime, '',
      ''       passenger_count, trip_distance, ratecode_id, pu_location_id, '',
      ''       do_location_id, payment_type, fare_amount, tip_amount, total_amount '',
      ''FROM trips '',
      ''WHERE id = $1 LIMIT 1;'']"

definition postgres_update :: string where
  "postgres_update = sql_lines
     [''UPDATE trips '', ''SET trip_distance = $1, '', ''    fare_amount = $2, '', ''    tip_amount = $3, '',
      ''    total_amount = $4, '', ''    passenger_count = $5, '', ''    pu_location_id = $6, '', ''    do_location_id = $7, '',
      ''    updated_at = NOW() '', ''WHERE id = $8;'']"

definition trip_key :: "int \<Rightarrow> string" where
  "trip_key rowID = ''trip:'' @ itoa rowID"

text \<open>The record filled in from a row; a NULL leaves the zero value.\<close>

definition trip_of_row :: "int \<Rightarrow> trip_row \<Rightarrow> taxi_trip" where
  "trip_of_row rowID r =
     (let num = (\<lambda>x. case x of Some f \<Rightarrow> f | None \<Rightarrow> Fin 0); str = (\<lambda>x. case x of Some s \<Rightarrow> s | None \<Rightarrow> [])
      in \<lparr>tt_TripID = trip_key rowID, tt_RowID = row_id r, tt_VendorID = row_vendor r, tt_PickupDatetime = str (row_pickup r),
          tt_DropoffDatetime = str (row_dropoff r), tt_PassengerCount = row_passengers r, tt_TripDistance = num (row_distance r),
          tt_RatecodeID = row_ratecode r, tt_PULocationID = row_pu r, tt_DOLocationID = row_do r,
          tt_PaymentType = row_payment r, tt_FareAmount = num (row_fare r), tt_TipAmount = num (row_tip r),
          tt_TotalAmount = num (row_total r)\<rparr>)"

text \<open>The record an update starts from when the query failed.\<close>

definition baseline_trip :: "(gtime \<Rightarrow> string) \<Rightarrow> int \<Rightarrow> gtime \<Rightarrow> gtime \<Rightarrow> taxi_trip" where
  "baseline_trip fmt_time rowID now1 now2 =
     \<lparr>tt_TripID = trip_key rowID, tt_RowID = rowID, tt_VendorID = None, tt_PickupDatetime = fmt_time now1,
      tt_DropoffDatetime = fmt_time (now2 + 15 * 60 * second), tt_PassengerCount = None, tt_TripDistance = Fin (7 / 2),
      tt_RatecodeID = None, tt_PULocationID = None, tt_DOLocationID = None, tt_PaymentType = None,
      tt_FareAmount = Fin (25 / 2), tt_TipAmount = Fin (5 / 2), tt_TotalAmount = lit (163 / 10)\<rparr>"

definition update_args :: "taxi_trip \<Rightarrow> int \<Rightarrow> sql_arg list" where
  "update_args t rowID =
     [ArgFloat (tt_TripDistance t), ArgFloat (tt_FareAmount t), ArgFloat (tt_TipAmount t), ArgFloat (tt_TotalAmount t),
      ArgFloatPtr (tt_PassengerCount t), ArgFloatPtr (tt_PULocationID t), ArgFloatPtr (tt_DOLocationID t), ArgInt rowID]"

subsection \<open>SQLite\<close>

record 'c sqlite_db =
  sq_db :: "'c option"
  sq_dbPath :: string
  sq_totalRows :: int
  sq_queryCount :: u64
  sq_writeCount :: u64
  sq_initialized :: bool

text \<open>\<^verbatim>\<open>filepath.Clean\<close> and \<^verbatim>\<open>filepath.Join\<close> (Unix).\<close>

fun split_slash :: "string \<Rightarrow> string list" where
  "split_slash [] = [[]]"
| "split_slash (c # cs) =
     (if c = CHR ''/'' then [] # split_slash cs
      else case split_slash cs of p # ps \<Rightarrow> (c # p) # ps | [] \<Rightarrow> [[c]])"

definition clean_step :: "bool \<Rightarrow> string \<Rightarrow> string list \<Rightarrow> string list" where
  "clean_step rooted p out =
     (if p = [] \<or> p = ''.'' then out
      else if p = ''..''
      then (if out \<noteq> [] \<and> last out \<noteq> ''..'' then butlast out else if rooted then out else out @ [p])
      else out @ [p])"

fun join_slash :: "string list \<Rightarrow> string" where
  "join_slash [] = []"
| "join_slash [p] = p"
| "join_slash (p # q # ps) = p @ ''/'' @ join_slash (q # ps)"

definition filepath_Clean :: "string \<Rightarrow> string" where
  "filepath_Clean s =
     (let rooted = (s \<noteq> [] \<and> hd s = CHR ''/''); out = fold (clean_step rooted) (split_slash s) []
      in if rooted then ''/'' @ join_slash out else if out = [] then ''.'' else join_slash out)"

definition filepath_Join :: "string \<Rightarrow> string \<Rightarrow> string" where
  "filepath_Join a b =
     (let ps = filter (\<lambda>p. p \<noteq> []) [a, b] in if ps = [] then [] else filepath_Clean (join_slash ps))"

definition candidate_paths :: "(string \<Rightarrow> string) \<Rightarrow> string \<Rightarrow> string list" where
  "candidate_paths getenv customPath =
     [customPath, ''2019-01.sqlite'', ''../2019-01.sqlite'', ''../../2019-01.sqlite'',
      filepath_Join (getenv ''DATA_DIR'') ''2019-01.sqlite'']"

text \<open>What opening meets: the environment, whether \<^verbatim>\<open>os.Stat\<close> succeeds, and \<^verbatim>\<open>sql.Open\<close> of a driver on a source name.\<close>

record 'c open_env =
  oe_getenv :: "string \<Rightarrow> string"
  oe_stat :: "string \<Rightarrow> bool"
  oe_open :: "string \<Rightarrow> string \<Rightarrow> string + 'c"

definition OpenTaxiDB :: "'c open_env \<Rightarrow> string \<Rightarrow> 'c sqlite_db option \<times> string option" where
  "OpenTaxiDB env customPath =
     (case find (\<lambda>p. p \<noteq> [] \<and> oe_stat env p) (candidate_paths (oe_getenv env) customPath) of
        None \<Rightarrow> (None, Some ''could not find 2019-01.sqlite database file'')
      | Some foundPath \<Rightarrow>
          let dsn = ''file:'' @ foundPath @ ''?_journal_mode=WAL&_synchronous=NORMAL&_busy_timeout=5000''
          in case oe_open env ''sqlite'' dsn of
               Inl err \<Rightarrow> (None, Some (''failed to open sqlite db at '' @ foundPath @ '': '' @ err))
             | Inr c \<Rightarrow>
                 (Some \<lparr>sq_db = Some c, sq_dbPath = foundPath, sq_totalRows = 7667792, sq_queryCount = 0, sq_writeCount = 0,
                        sq_initialized = True\<rparr>, None))"

definition sqlite_QueryTripByID ::
  "'c sql_driver \<Rightarrow> (nat \<Rightarrow> gtime) \<Rightarrow> int \<Rightarrow> 'c sqlite_db option \<Rightarrow> ((string + taxi_trip) \<times> duration) \<times> 'c sqlite_db option" where
  "sqlite_QueryTripByID drv clk rowID p =
     (case p of
        None \<Rightarrow> ((Inl ''sqlite database not connected'', 0), p)
      | Some s \<Rightarrow>
          (case sq_db s of
             None \<Rightarrow> ((Inl ''sqlite database not connected'', 0), p)
           | Some c \<Rightarrow>
               let s1 = s\<lparr>sq_queryCount := sq_queryCount s + 1\<rparr>;
                   (res, c') = dr_QueryRow drv c sqlite_select rowID;
                   s2 = s1\<lparr>sq_db := Some c'\<rparr>;
                   latency = time_sub (clk 1) (clk 0)
               in case res of
                    ScanNoRows \<Rightarrow> ((Inl (''trip with rowid '' @ itoa rowID @ '' not found in 7.66M dataset''), latency), Some s2)
                  | ScanErr err \<Rightarrow> ((Inl err, latency), Some s2)
                  | ScanRow r \<Rightarrow> ((Inr (trip_of_row rowID r), latency), Some s2)))"

definition sqlite_UpdateTripField ::
  "'c sql_driver \<Rightarrow> (gtime \<Rightarrow> string) \<Rightarrow> (nat \<Rightarrow> gtime) \<Rightarrow> int \<Rightarrow> string \<Rightarrow> iface \<Rightarrow> 'c sqlite_db option \<Rightarrow>
   ((string + taxi_trip) \<times> duration) \<times> 'c sqlite_db option" where
  "sqlite_UpdateTripField drv fmt_time clk rowID field val p =
     (case p of
        None \<Rightarrow> ((Inl ''sqlite database not connected'', 0), p)
      | Some s \<Rightarrow>
          if sq_db s = None then ((Inl ''sqlite database not connected'', 0), p)
          else let s1 = s\<lparr>sq_writeCount := sq_writeCount s + 1\<rparr>;
                   ((found, _), p2) = sqlite_QueryTripByID drv (\<lambda>n. clk (n + 1)) rowID (Some s1);
                   currentTrip = (case found of Inr t \<Rightarrow> t | Inl _ \<Rightarrow> baseline_trip fmt_time rowID (clk 3) (clk 4));
                   t = CalculateTripCascade currentTrip field val;
                   latency = time_sub (clk 5) (clk 0)
               in case p2 of
                    None \<Rightarrow> ((Inl ''sqlite database not connected'', latency), p2)
                  | Some s2 \<Rightarrow>
                      (case sq_db s2 of
                         None \<Rightarrow> ((Inl ''sqlite database not connected'', latency), p2)
                       | Some c \<Rightarrow>
                           let (res, c') = dr_Exec drv c sqlite_update (update_args t rowID); s3 = s2\<lparr>sq_db := Some c'\<rparr>
                           in case res of
                                Some err \<Rightarrow> ((Inl (''failed to update sqlite db: '' @ err), latency), Some s3)
                              | None \<Rightarrow> ((Inr t, latency), Some s3)))"

datatype db_stats =
    StatsOffline
  | StatsNotConnected
  | StatsSQLite string int u64 u64
  | StatsPostgres int int int u64 u64

definition sqlite_GetStats :: "'c sqlite_db option \<Rightarrow> db_stats" where
  "sqlite_GetStats p =
     (case p of None \<Rightarrow> StatsNotConnected | Some s \<Rightarrow> StatsSQLite (sq_dbPath s) (sq_totalRows s) (sq_queryCount s) (sq_writeCount s))"

definition sqlite_Close :: "'c sql_driver \<Rightarrow> 'c sqlite_db option \<Rightarrow> string option \<times> 'c sqlite_db option" where
  "sqlite_Close drv p =
     (case p of
        None \<Rightarrow> (None, p)
      | Some s \<Rightarrow> (case sq_db s of
            None \<Rightarrow> (None, p)
          | Some c \<Rightarrow> let (err, c') = dr_Close drv c in (err, Some (s\<lparr>sq_db := Some c'\<rparr>))))"

subsection \<open>PostgreSQL\<close>

record 'c postgres_db =
  pg_db :: "'c option"
  pg_url :: string
  pg_queryCount :: u64
  pg_writeCount :: u64
  pg_initialized :: bool

text \<open>A ping that fails is only logged.\<close>

definition OpenPostgresDB :: "'c open_env \<Rightarrow> string \<Rightarrow> 'c postgres_db option \<times> string option" where
  "OpenPostgresDB env connStr =
     (if connStr = [] then (None, Some ''postgres connection string is empty'')
      else case oe_open env ''postgres'' connStr of
             Inl err \<Rightarrow> (None, Some (''failed to open postgres connection: '' @ err))
           | Inr c \<Rightarrow>
               (Some \<lparr>pg_db = Some c, pg_url = connStr, pg_queryCount = 0, pg_writeCount = 0, pg_initialized = True\<rparr>, None))"

definition postgres_QueryTripByID ::
  "'c sql_driver \<Rightarrow> (nat \<Rightarrow> gtime) \<Rightarrow> int \<Rightarrow> 'c postgres_db option \<Rightarrow> ((string + taxi_trip) \<times> duration) \<times> 'c postgres_db option" where
  "postgres_QueryTripByID drv clk rowID p =
     (case p of
        None \<Rightarrow> ((Inl ''postgres database not connected'', 0), p)
      | Some s \<Rightarrow>
          (case pg_db s of
             None \<Rightarrow> ((Inl ''postgres database not connected'', 0), p)
           | Some c \<Rightarrow>
               let s1 = s\<lparr>pg_queryCount := pg_queryCount s + 1\<rparr>;
                   (res, c') = dr_QueryRow drv c postgres_select rowID;
                   s2 = s1\<lparr>pg_db := Some c'\<rparr>;
                   latency = time_sub (clk 1) (clk 0)
               in case res of
                    ScanNoRows \<Rightarrow> ((Inl (''trip with id '' @ itoa rowID @ '' not found in RDS PostgreSQL''), latency), Some s2)
                  | ScanErr err \<Rightarrow> ((Inl err, latency), Some s2)
                  | ScanRow r \<Rightarrow> ((Inr (trip_of_row rowID r), latency), Some s2)))"

definition postgres_UpdateTripField ::
  "'c sql_driver \<Rightarrow> (gtime \<Rightarrow> string) \<Rightarrow> (nat \<Rightarrow> gtime) \<Rightarrow> int \<Rightarrow> string \<Rightarrow> iface \<Rightarrow> 'c postgres_db option \<Rightarrow>
   ((string + taxi_trip) \<times> duration) \<times> 'c postgres_db option" where
  "postgres_UpdateTripField drv fmt_time clk rowID field val p =
     (case p of
        None \<Rightarrow> ((Inl ''postgres database not connected'', 0), p)
      | Some s \<Rightarrow>
          if pg_db s = None then ((Inl ''postgres database not connected'', 0), p)
          else let s1 = s\<lparr>pg_writeCount := pg_writeCount s + 1\<rparr>;
                   ((found, _), p2) = postgres_QueryTripByID drv (\<lambda>n. clk (n + 1)) rowID (Some s1);
                   currentTrip = (case found of Inr t \<Rightarrow> t | Inl _ \<Rightarrow> baseline_trip fmt_time rowID (clk 3) (clk 4));
                   t = CalculateTripCascade currentTrip field val;
                   latency = time_sub (clk 5) (clk 0)
               in case p2 of
                    None \<Rightarrow> ((Inl ''postgres database not connected'', latency), p2)
                  | Some s2 \<Rightarrow>
                      (case pg_db s2 of
                         None \<Rightarrow> ((Inl ''postgres database not connected'', latency), p2)
                       | Some c \<Rightarrow>
                           let (res, c') = dr_Exec drv c postgres_update (update_args t rowID); s3 = s2\<lparr>pg_db := Some c'\<rparr>
                           in case res of
                                Some err \<Rightarrow> ((Inl (''failed to update postgres db: '' @ err), latency), Some s3)
                              | None \<Rightarrow> ((Inr t, latency), Some s3)))"

definition postgres_GetStats :: "'c sql_driver \<Rightarrow> 'c postgres_db option \<Rightarrow> db_stats" where
  "postgres_GetStats drv p =
     (case p of
        None \<Rightarrow> StatsNotConnected
      | Some s \<Rightarrow> (case pg_db s of
            None \<Rightarrow> StatsNotConnected
          | Some c \<Rightarrow> let (open_conns, in_use, idle) = dr_Stats drv c
                      in StatsPostgres open_conns in_use idle (pg_queryCount s) (pg_writeCount s)))"

definition postgres_Close :: "'c sql_driver \<Rightarrow> 'c postgres_db option \<Rightarrow> string option \<times> 'c postgres_db option" where
  "postgres_Close drv p =
     (case p of
        None \<Rightarrow> (None, p)
      | Some s \<Rightarrow> (case pg_db s of
            None \<Rightarrow> (None, p)
          | Some c \<Rightarrow> let (err, c') = dr_Close drv c in (err, Some (s\<lparr>pg_db := Some c'\<rparr>))))"

subsection \<open>The interface and its selection\<close>

datatype 'c database = SQLite "'c sqlite_db option" | Postgres "'c postgres_db option"

record db_config =
  dc_Driver :: string
  dc_URL :: string
  dc_Host :: string
  dc_Port :: int
  dc_User :: string
  dc_Password :: string
  dc_DBName :: string
  dc_SSLMode :: string
  dc_Path :: string

definition or_else :: "string \<Rightarrow> string \<Rightarrow> string" where
  "or_else a b = (if a = [] then b else a)"

definition postgres_url :: "(string \<Rightarrow> string) \<Rightarrow> db_config \<Rightarrow> string" where
  "postgres_url getenv cfg =
     (let url = or_else (dc_URL cfg) (getenv ''DATABASE_URL'')
      in if url = [] \<and> (dc_Host cfg \<noteq> [] \<or> getenv ''DATABASE_HOST'' \<noteq> [])
         then (let host = or_else (dc_Host cfg) (getenv ''DATABASE_HOST'');
                   port = (if dc_Port cfg = 0 then 5432 else dc_Port cfg);
                   user = or_else (dc_User cfg) (getenv ''DATABASE_USER'');
                   pass = or_else (dc_Password cfg) (getenv ''DATABASE_PASSWORD'');
                   dbname = or_else (or_else (dc_DBName cfg) (getenv ''DATABASE_NAME'')) ''shc_db'';
                   sslmode = or_else (or_else (dc_SSLMode cfg) (getenv ''DATABASE_SSLMODE'')) ''require''
               in ''postgres://'' @ user @ '':'' @ pass @ ''@'' @ host @ '':'' @ itoa port @ ''/'' @ dbname @ ''?sslmode='' @ sslmode)
         else url)"

definition database_Open :: "'c open_env \<Rightarrow> db_config \<Rightarrow> 'c database \<times> string option" where
  "database_Open env cfg =
     (let pgURL = postgres_url (oe_getenv env) cfg
      in if pgURL \<noteq> [] \<or> dc_Driver cfg = ''postgres''
         then (let (p, err) = OpenPostgresDB env pgURL in (Postgres p, err))
         else (let (p, err) = OpenTaxiDB env (or_else (dc_Path cfg) (oe_getenv env ''SQLITE_PATH'')) in (SQLite p, err)))"

text \<open>A call through the interface goes to the method of the dynamic type.\<close>

record 'c db_env =
  de_sqlite :: "'c sql_driver"
  de_postgres :: "'c sql_driver"
  de_format :: "gtime \<Rightarrow> string"
  de_clock :: "nat \<Rightarrow> gtime"

definition db_QueryTripByID :: "'c db_env \<Rightarrow> int \<Rightarrow> 'c database \<Rightarrow> ((string + taxi_trip) \<times> duration) \<times> 'c database" where
  "db_QueryTripByID env rowID d =
     (case d of
        SQLite p \<Rightarrow> (let (r, p') = sqlite_QueryTripByID (de_sqlite env) (de_clock env) rowID p in (r, SQLite p'))
      | Postgres p \<Rightarrow> (let (r, p') = postgres_QueryTripByID (de_postgres env) (de_clock env) rowID p in (r, Postgres p')))"

definition db_UpdateTripField ::
  "'c db_env \<Rightarrow> int \<Rightarrow> string \<Rightarrow> iface \<Rightarrow> 'c database \<Rightarrow> ((string + taxi_trip) \<times> duration) \<times> 'c database" where
  "db_UpdateTripField env rowID field val d =
     (case d of
        SQLite p \<Rightarrow> (let (r, p') = sqlite_UpdateTripField (de_sqlite env) (de_format env) (de_clock env) rowID field val p in (r, SQLite p'))
      | Postgres p \<Rightarrow> (let (r, p') = postgres_UpdateTripField (de_postgres env) (de_format env) (de_clock env) rowID field val p in (r, Postgres p')))"

definition db_GetStats :: "'c db_env \<Rightarrow> 'c database \<Rightarrow> db_stats" where
  "db_GetStats env d = (case d of SQLite p \<Rightarrow> sqlite_GetStats p | Postgres p \<Rightarrow> postgres_GetStats (de_postgres env) p)"

definition db_Close :: "'c db_env \<Rightarrow> 'c database \<Rightarrow> string option \<times> 'c database" where
  "db_Close env d =
     (case d of
        SQLite p \<Rightarrow> (let (e, p') = sqlite_Close (de_sqlite env) p in (e, SQLite p'))
      | Postgres p \<Rightarrow> (let (e, p') = postgres_Close (de_postgres env) p in (e, Postgres p')))"

section \<open>The table behind a driver\<close>

text \<open>The columns an update statement sets.\<close>

definition store_row :: "taxi_trip \<Rightarrow> trip_row \<Rightarrow> trip_row" where
  "store_row t r =
     r\<lparr>row_distance := Some (tt_TripDistance t), row_fare := Some (tt_FareAmount t), row_tip := Some (tt_TipAmount t),
       row_total := Some (tt_TotalAmount t), row_passengers := tt_PassengerCount t, row_pu := tt_PULocationID t,
       row_do := tt_DOLocationID t\<rparr>"

text \<open>What is relied on of a driver that is up, in terms of the table \<open>rows\<close> a pool stands for: the select statement
  scans the row with the id and changes nothing; the update statement succeeds on finite values and sets its columns in the
  row with the id, if there is one (an update that matches no row is not an error in SQL).\<close>

definition update_law :: "'c sql_driver \<Rightarrow> string \<Rightarrow> ('c \<Rightarrow> int \<Rightarrow> trip_row option) \<Rightarrow> bool" where
  "update_law drv upd rows \<longleftrightarrow>
     (\<forall>c t i. finite_trip t \<longrightarrow>
        fst (dr_Exec drv c upd (update_args t i)) = None
        \<and> rows (snd (dr_Exec drv c upd (update_args t i)))
          = (case rows c i of None \<Rightarrow> rows c | Some r \<Rightarrow> (rows c)(i \<mapsto> store_row t r)))"

definition table_driver :: "'c sql_driver \<Rightarrow> string \<Rightarrow> string \<Rightarrow> ('c \<Rightarrow> int \<Rightarrow> trip_row option) \<Rightarrow> bool" where
  "table_driver drv sel upd rows \<longleftrightarrow>
     (\<forall>c i. fst (dr_QueryRow drv c sel i) = (case rows c i of Some r \<Rightarrow> ScanRow r | None \<Rightarrow> ScanNoRows)
            \<and> rows (snd (dr_QueryRow drv c sel i)) = rows c)
     \<and> update_law drv upd rows"

text \<open>The rows of a pool: the id column is the key, and no value is infinite or a NaN.\<close>

definition rows_ok :: "('c \<Rightarrow> int \<Rightarrow> trip_row option) \<Rightarrow> 'c \<Rightarrow> bool" where
  "rows_ok rows c \<longleftrightarrow> (\<forall>i r. rows c i = Some r \<longrightarrow> row_id r = i \<and> finite_trip (trip_of_row i r))"

definition pool_view :: "('c \<Rightarrow> int \<Rightarrow> trip_row option) \<Rightarrow> 'c option \<Rightarrow> int \<Rightarrow> taxi_trip option" where
  "pool_view rows pool i = (case pool of None \<Rightarrow> None | Some c \<Rightarrow> map_option (trip_of_row i) (rows c i))"

lemma pool_view_cong: "rows c' = rows c \<Longrightarrow> pool_view rows (Some c') = pool_view rows (Some c)"
  by (simp add: pool_view_def fun_eq_iff)

lemma cascade_frame:
  "tt_TripID (CalculateTripCascade t f v) = tt_TripID t \<and> tt_RowID (CalculateTripCascade t f v) = tt_RowID t
   \<and> tt_VendorID (CalculateTripCascade t f v) = tt_VendorID t \<and> tt_PickupDatetime (CalculateTripCascade t f v) = tt_PickupDatetime t
   \<and> tt_DropoffDatetime (CalculateTripCascade t f v) = tt_DropoffDatetime t
   \<and> tt_RatecodeID (CalculateTripCascade t f v) = tt_RatecodeID t \<and> tt_PaymentType (CalculateTripCascade t f v) = tt_PaymentType t"
  by (simp add: CalculateTripCascade_def Let_def cascade_distance_def cascade_fare_def cascade_tip_def cascade_total_def
      sum_total_def estimate_route_def split: option.split)

lemma trip_of_store_row:
  assumes "t = CalculateTripCascade (trip_of_row i r) f v"
  shows "trip_of_row i (store_row t r) = t"
proof -
  note fr = cascade_frame [of "trip_of_row i r" f v, folded assms]
  have "tt_TripID t = trip_key i" "tt_RowID t = row_id r" "tt_VendorID t = row_vendor r"
    "tt_PickupDatetime t = tt_PickupDatetime (trip_of_row i r)" "tt_DropoffDatetime t = tt_DropoffDatetime (trip_of_row i r)"
    "tt_RatecodeID t = row_ratecode r" "tt_PaymentType t = row_payment r"
    using fr by (simp_all add: trip_of_row_def Let_def)
  then show ?thesis
    by (cases t) (simp add: trip_of_row_def store_row_def Let_def)
qed

lemma row_id_store_row [simp]: "row_id (store_row t r) = row_id r"
  by (simp add: store_row_def)

lemma finite_baseline: "finite_trip (baseline_trip fmt_time i a b)"
  by (simp add: baseline_trip_def finite_trip_def)

text \<open>One update statement on a pool, for both implementations.\<close>

lemma exec_update:
  assumes drv: "table_driver drv sel upd rows" and c: "rows_ok rows c" and e: "safe_edit (i, f, v)"
    and t: "t = CalculateTripCascade (case rows c i of Some r \<Rightarrow> trip_of_row i r | None \<Rightarrow> baseline_trip fmt_time i a b) f v"
  shows "fst (dr_Exec drv c upd (update_args t i)) = None"
    and "rows_ok rows (snd (dr_Exec drv c upd (update_args t i)))"
    and "pool_view rows (Some (snd (dr_Exec drv c upd (update_args t i)))) = spec_edit (i, f, v) (pool_view rows (Some c))"
proof -
  have fin: "finite_trip t"
    unfolding t by (rule safe_edit_finite [OF e]) (use c in \<open>auto simp: rows_ok_def finite_baseline split: option.split\<close>)
  let ?c = "snd (dr_Exec drv c upd (update_args t i))"
  show "fst (dr_Exec drv c upd (update_args t i)) = None" using drv fin by (simp add: table_driver_def update_law_def)
  have rows: "rows ?c = (case rows c i of None \<Rightarrow> rows c | Some r \<Rightarrow> (rows c)(i \<mapsto> store_row t r))"
    using drv fin by (simp add: table_driver_def update_law_def)
  show "rows_ok rows ?c"
    using c fin trip_of_store_row [of t i _ f v] t unfolding rows_ok_def rows by (auto split: option.splits if_splits)
  show "pool_view rows (Some ?c) = spec_edit (i, f, v) (pool_view rows (Some c))"
  proof (cases "rows c i")
    case None
    with rows show ?thesis by (simp add: fun_eq_iff pool_view_def spec_edit_def)
  next
    case (Some r)
    then have "t = CalculateTripCascade (trip_of_row i r) f v" using t by simp
    from trip_of_store_row [OF this] this Some rows show ?thesis by (simp add: fun_eq_iff pool_view_def spec_edit_def)
  qed
qed

lemma query_row:
  assumes "table_driver drv sel upd rows"
  shows "fst (dr_QueryRow drv c sel i) = (case rows c i of Some r \<Rightarrow> ScanRow r | None \<Rightarrow> ScanNoRows)"
    and "rows (snd (dr_QueryRow drv c sel i)) = rows c"
  using assms by (simp_all add: table_driver_def)

section \<open>The two implementations\<close>

definition sqlite_ok :: "'c sql_driver \<Rightarrow> ('c \<Rightarrow> int \<Rightarrow> trip_row option) \<Rightarrow> 'c sqlite_db option \<Rightarrow> bool" where
  "sqlite_ok drv rows p \<longleftrightarrow>
     table_driver drv sqlite_select sqlite_update rows
     \<and> (case p of None \<Rightarrow> False | Some s \<Rightarrow> (case sq_db s of None \<Rightarrow> False | Some c \<Rightarrow> rows_ok rows c))"

definition sqlite_view :: "('c \<Rightarrow> int \<Rightarrow> trip_row option) \<Rightarrow> 'c sqlite_db option \<Rightarrow> int \<Rightarrow> taxi_trip option" where
  "sqlite_view rows p = pool_view rows (Option.bind p sq_db)"

definition postgres_ok :: "'c sql_driver \<Rightarrow> ('c \<Rightarrow> int \<Rightarrow> trip_row option) \<Rightarrow> 'c postgres_db option \<Rightarrow> bool" where
  "postgres_ok drv rows p \<longleftrightarrow>
     table_driver drv postgres_select postgres_update rows
     \<and> (case p of None \<Rightarrow> False | Some s \<Rightarrow> (case pg_db s of None \<Rightarrow> False | Some c \<Rightarrow> rows_ok rows c))"

definition postgres_view :: "('c \<Rightarrow> int \<Rightarrow> trip_row option) \<Rightarrow> 'c postgres_db option \<Rightarrow> int \<Rightarrow> taxi_trip option" where
  "postgres_view rows p = pool_view rows (Option.bind p pg_db)"

lemma sqlite_okE:
  assumes "sqlite_ok drv rows p"
  obtains s c where "p = Some s" "sq_db s = Some c" "rows_ok rows c" "table_driver drv sqlite_select sqlite_update rows"
  using assms by (auto simp: sqlite_ok_def split: option.splits)

lemma postgres_okE:
  assumes "postgres_ok drv rows p"
  obtains s c where "p = Some s" "pg_db s = Some c" "rows_ok rows c" "table_driver drv postgres_select postgres_update rows"
  using assms by (auto simp: postgres_ok_def split: option.splits)

text \<open>The table and the baseline a connected call finds.\<close>

lemma sqlite_query_connected:
  assumes "sqlite_ok drv rows p"
  shows "fst (fst (sqlite_QueryTripByID drv clk i p))
      = (case sqlite_view rows p i of Some t \<Rightarrow> Inr t | None \<Rightarrow> Inl (''trip with rowid '' @ itoa i @ '' not found in 7.66M dataset''))"
    and "sqlite_ok drv rows (snd (sqlite_QueryTripByID drv clk i p))"
    and "sqlite_view rows (snd (sqlite_QueryTripByID drv clk i p)) = sqlite_view rows p"
proof -
  obtain s c where p: "p = Some s" "sq_db s = Some c" "rows_ok rows c" and drv: "table_driver drv sqlite_select sqlite_update rows"
    using assms by (rule sqlite_okE)
  obtain res c' where q: "dr_QueryRow drv c sqlite_select i = (res, c')" by (cases "dr_QueryRow drv c sqlite_select i")
  have qr: "res = (case rows c i of Some r \<Rightarrow> ScanRow r | None \<Rightarrow> ScanNoRows)" "rows c' = rows c"
    using query_row [OF drv, of c i] q by simp_all
  show "fst (fst (sqlite_QueryTripByID drv clk i p))
      = (case sqlite_view rows p i of Some t \<Rightarrow> Inr t | None \<Rightarrow> Inl (''trip with rowid '' @ itoa i @ '' not found in 7.66M dataset''))"
    "sqlite_ok drv rows (snd (sqlite_QueryTripByID drv clk i p))"
    "sqlite_view rows (snd (sqlite_QueryTripByID drv clk i p)) = sqlite_view rows p"
    using drv p(3)
    by (auto simp: sqlite_QueryTripByID_def p(1,2) q qr sqlite_view_def sqlite_ok_def pool_view_def rows_ok_def split: option.split)
qed

lemma postgres_query_connected:
  assumes "postgres_ok drv rows p"
  shows "fst (fst (postgres_QueryTripByID drv clk i p))
      = (case postgres_view rows p i of Some t \<Rightarrow> Inr t | None \<Rightarrow> Inl (''trip with id '' @ itoa i @ '' not found in RDS PostgreSQL''))"
    and "postgres_ok drv rows (snd (postgres_QueryTripByID drv clk i p))"
    and "postgres_view rows (snd (postgres_QueryTripByID drv clk i p)) = postgres_view rows p"
proof -
  obtain s c where p: "p = Some s" "pg_db s = Some c" "rows_ok rows c" and drv: "table_driver drv postgres_select postgres_update rows"
    using assms by (rule postgres_okE)
  obtain res c' where q: "dr_QueryRow drv c postgres_select i = (res, c')" by (cases "dr_QueryRow drv c postgres_select i")
  have qr: "res = (case rows c i of Some r \<Rightarrow> ScanRow r | None \<Rightarrow> ScanNoRows)" "rows c' = rows c"
    using query_row [OF drv, of c i] q by simp_all
  show "fst (fst (postgres_QueryTripByID drv clk i p))
      = (case postgres_view rows p i of Some t \<Rightarrow> Inr t | None \<Rightarrow> Inl (''trip with id '' @ itoa i @ '' not found in RDS PostgreSQL''))"
    "postgres_ok drv rows (snd (postgres_QueryTripByID drv clk i p))"
    "postgres_view rows (snd (postgres_QueryTripByID drv clk i p)) = postgres_view rows p"
    using drv p(3)
    by (auto simp: postgres_QueryTripByID_def p(1,2) q qr postgres_view_def postgres_ok_def pool_view_def rows_ok_def split: option.split)
qed

lemma sqlite_update_connected:
  assumes ok: "sqlite_ok drv rows p" and e: "safe_edit (i, f, v)"
  shows "fst (fst (sqlite_UpdateTripField drv fmt_time clk i f v p))
      = Inr (CalculateTripCascade (case sqlite_view rows p i of Some t \<Rightarrow> t | None \<Rightarrow> baseline_trip fmt_time i (clk 3) (clk 4)) f v)"
    and "sqlite_ok drv rows (snd (sqlite_UpdateTripField drv fmt_time clk i f v p))"
    and "sqlite_view rows (snd (sqlite_UpdateTripField drv fmt_time clk i f v p)) = spec_edit (i, f, v) (sqlite_view rows p)"
proof -
  obtain s c where p: "p = Some s" "sq_db s = Some c" "rows_ok rows c" and drv: "table_driver drv sqlite_select sqlite_update rows"
    using ok by (rule sqlite_okE)
  define t where "t = CalculateTripCascade (case rows c i of Some r \<Rightarrow> trip_of_row i r | None \<Rightarrow> baseline_trip fmt_time i (clk 3) (clk 4)) f v"
  obtain res c1 where q: "dr_QueryRow drv c sqlite_select i = (res, c1)" by (cases "dr_QueryRow drv c sqlite_select i")
  have qr: "res = (case rows c i of Some r \<Rightarrow> ScanRow r | None \<Rightarrow> ScanNoRows)" "rows c1 = rows c"
    using query_row [OF drv, of c i] q by simp_all
  have c1: "rows_ok rows c1" using p(3) by (simp add: rows_ok_def qr(2))
  have "t = CalculateTripCascade (case rows c1 i of Some r \<Rightarrow> trip_of_row i r | None \<Rightarrow> baseline_trip fmt_time i (clk 3) (clk 4)) f v"
    by (simp add: t_def qr(2))
  note ex = exec_update [OF drv c1 e this]
  obtain err c2 where x: "dr_Exec drv c1 sqlite_update (update_args t i) = (err, c2)"
    by (cases "dr_Exec drv c1 sqlite_update (update_args t i)")
  have run: "sqlite_UpdateTripField drv fmt_time clk i f v p =
      ((Inr t, time_sub (clk 5) (clk 0)),
       Some (s\<lparr>sq_writeCount := sq_writeCount s + 1, sq_queryCount := sq_queryCount s + 1, sq_db := Some c2\<rparr>))"
    using ex(1) x
    by (cases "rows c i") (simp_all add: sqlite_UpdateTripField_def sqlite_QueryTripByID_def p(1,2) q qr t_def Let_def)
  show "fst (fst (sqlite_UpdateTripField drv fmt_time clk i f v p))
      = Inr (CalculateTripCascade (case sqlite_view rows p i of Some t \<Rightarrow> t | None \<Rightarrow> baseline_trip fmt_time i (clk 3) (clk 4)) f v)"
    unfolding run by (simp add: t_def sqlite_view_def p(1,2) pool_view_def split: option.split)
  show "sqlite_ok drv rows (snd (sqlite_UpdateTripField drv fmt_time clk i f v p))"
    using ex(2) x drv unfolding run by (simp add: sqlite_ok_def)
  show "sqlite_view rows (snd (sqlite_UpdateTripField drv fmt_time clk i f v p)) = spec_edit (i, f, v) (sqlite_view rows p)"
    using ex(3) x pool_view_cong [OF qr(2)] unfolding run by (simp add: sqlite_view_def p(1,2))
qed

lemma postgres_update_connected:
  assumes ok: "postgres_ok drv rows p" and e: "safe_edit (i, f, v)"
  shows "fst (fst (postgres_UpdateTripField drv fmt_time clk i f v p))
      = Inr (CalculateTripCascade (case postgres_view rows p i of Some t \<Rightarrow> t | None \<Rightarrow> baseline_trip fmt_time i (clk 3) (clk 4)) f v)"
    and "postgres_ok drv rows (snd (postgres_UpdateTripField drv fmt_time clk i f v p))"
    and "postgres_view rows (snd (postgres_UpdateTripField drv fmt_time clk i f v p)) = spec_edit (i, f, v) (postgres_view rows p)"
proof -
  obtain s c where p: "p = Some s" "pg_db s = Some c" "rows_ok rows c" and drv: "table_driver drv postgres_select postgres_update rows"
    using ok by (rule postgres_okE)
  define t where "t = CalculateTripCascade (case rows c i of Some r \<Rightarrow> trip_of_row i r | None \<Rightarrow> baseline_trip fmt_time i (clk 3) (clk 4)) f v"
  obtain res c1 where q: "dr_QueryRow drv c postgres_select i = (res, c1)" by (cases "dr_QueryRow drv c postgres_select i")
  have qr: "res = (case rows c i of Some r \<Rightarrow> ScanRow r | None \<Rightarrow> ScanNoRows)" "rows c1 = rows c"
    using query_row [OF drv, of c i] q by simp_all
  have c1: "rows_ok rows c1" using p(3) by (simp add: rows_ok_def qr(2))
  have "t = CalculateTripCascade (case rows c1 i of Some r \<Rightarrow> trip_of_row i r | None \<Rightarrow> baseline_trip fmt_time i (clk 3) (clk 4)) f v"
    by (simp add: t_def qr(2))
  note ex = exec_update [OF drv c1 e this]
  obtain err c2 where x: "dr_Exec drv c1 postgres_update (update_args t i) = (err, c2)"
    by (cases "dr_Exec drv c1 postgres_update (update_args t i)")
  have run: "postgres_UpdateTripField drv fmt_time clk i f v p =
      ((Inr t, time_sub (clk 5) (clk 0)),
       Some (s\<lparr>pg_writeCount := pg_writeCount s + 1, pg_queryCount := pg_queryCount s + 1, pg_db := Some c2\<rparr>))"
    using ex(1) x
    by (cases "rows c i") (simp_all add: postgres_UpdateTripField_def postgres_QueryTripByID_def p(1,2) q qr t_def Let_def)
  show "fst (fst (postgres_UpdateTripField drv fmt_time clk i f v p))
      = Inr (CalculateTripCascade (case postgres_view rows p i of Some t \<Rightarrow> t | None \<Rightarrow> baseline_trip fmt_time i (clk 3) (clk 4)) f v)"
    unfolding run by (simp add: t_def postgres_view_def p(1,2) pool_view_def split: option.split)
  show "postgres_ok drv rows (snd (postgres_UpdateTripField drv fmt_time clk i f v p))"
    using ex(2) x drv unfolding run by (simp add: postgres_ok_def)
  show "postgres_view rows (snd (postgres_UpdateTripField drv fmt_time clk i f v p)) = spec_edit (i, f, v) (postgres_view rows p)"
    using ex(3) x pool_view_cong [OF qr(2)] unfolding run by (simp add: postgres_view_def p(1,2))
qed

interpretation sq: trip_store "sqlite_QueryTripByID drv" "sqlite_UpdateTripField drv fmt_time" "sqlite_view rows" "sqlite_ok drv rows"
  for drv fmt_time rows
  by unfold_locales (simp_all add: sqlite_query_connected sqlite_update_connected)

interpretation pg: trip_store "postgres_QueryTripByID drv" "postgres_UpdateTripField drv fmt_time" "postgres_view rows" "postgres_ok drv rows"
  for drv fmt_time rows
  by unfold_locales (simp_all add: postgres_query_connected postgres_update_connected)

text \<open>Through the interface, for either dynamic type; the clock is what differs from call to call.\<close>

definition db_view :: "('c \<Rightarrow> int \<Rightarrow> trip_row option) \<Rightarrow> 'c database \<Rightarrow> int \<Rightarrow> taxi_trip option" where
  "db_view rows d = (case d of SQLite p \<Rightarrow> sqlite_view rows p | Postgres p \<Rightarrow> postgres_view rows p)"

definition db_ok :: "'c db_env \<Rightarrow> ('c \<Rightarrow> int \<Rightarrow> trip_row option) \<Rightarrow> 'c database \<Rightarrow> bool" where
  "db_ok env rows d =
     (case d of SQLite p \<Rightarrow> sqlite_ok (de_sqlite env) rows p | Postgres p \<Rightarrow> postgres_ok (de_postgres env) rows p)"

lemmas db_call_defs = db_QueryTripByID_def db_UpdateTripField_def db_view_def db_ok_def Let_def case_prod_unfold

interpretation dbi: trip_store "\<lambda>clk. db_QueryTripByID (env\<lparr>de_clock := clk\<rparr>)" "\<lambda>clk. db_UpdateTripField (env\<lparr>de_clock := clk\<rparr>)"
  "db_view rows" "db_ok env rows"
  for env rows
  by unfold_locales
    (auto simp: db_call_defs sq.update_found pg.update_found sq.query_found pg.query_found sq.update_view pg.update_view
       sq.query_keeps pg.query_keeps intro: sq.query_missing pg.query_missing sq.update_missing pg.update_missing split: database.splits)

end
