(* ===== verification/Gateway.thy ===== *)
theory Gateway
  imports Trip_Database Failover
begin

text \<open>
  The unified API router in front of the cache nodes (\<^verbatim>\<open>backend/internal/gateway/gateway.go\<close>): its construction and
  one definition per request handler. It composes the hash ring, the health monitor, the failover router and the trip database.

  \<^item> A handler returns its reply (a status and a body of the datatype \<open>gw_body\<close>, whose constructors stand for the
    shapes of the replies and the constant fields of those that are plain maps), the posts it made to nodes in order, the
    goroutines it started (\<open>gw_async\<close>; \<open>run_async\<close> gives the posts of one) and the gateway.
  \<^item> Encoders and decoders are the record \<open>gw_codec\<close>, the HTTP exchanges and the clock the record \<open>gw_env\<close>, arguments.
    Exchanges are numbered. The status of a node's reply to a write is returned by the exchange; the code does not look at it.
  \<^item> The field \<open>gw_db\<close> is an interface: \<open>None\<close> is the nil interface, which is not the same as an interface that
    holds a nil pointer.
\<close>

section \<open>Definitions\<close>

subsection \<open>Data\<close>

record gw_config =
  gf_Port :: int
  gf_Host :: string
  gf_Nodes :: "string list"
  gf_VNodes :: int
  gf_HeartbeatInterval :: duration
  gf_SuspectTimeout :: duration
  gf_FailTimeout :: duration
  gf_RequestTimeout :: duration
  gf_SQLitePath :: string

record ('l, 'c) gateway =
  gw_config :: gw_config
  gw_hashRing :: hash_ring
  gw_healthMonitor :: "'l monitor"
  gw_failover :: router
  gw_db :: "'c database option"

record client_set_request =
  cs_Key :: string
  cs_Value :: string
  cs_TTLSeconds :: int

record client_response =
  cr_Status :: string
  cr_Key :: string
  cr_Value :: string
  cr_TTLRemaining :: int
  cr_Version :: u64
  cr_ServedBy :: string
  cr_IsFailover :: bool
  cr_Message :: string

record node_details =
  nd_Addr :: string
  nd_State :: node_state
  nd_LatencyMs :: int
  nd_PrimaryKeys :: int
  nd_ReplicaKeys :: int
  nd_HitCount :: u64

text \<open>The value of a \<^verbatim>\<open>trip\<close> field of a cached reply: the decoded JSON text, or the text itself.\<close>

datatype trip_obj = TripJSON string | TripText string

datatype gw_body =
    GClient client_response
  | GStored string string "taxi_trip option" bool string bool
  | GCacheHit string string int u64 string bool int
  | GDatabaseHit string string taxi_trip int int
  | GMiss string string
  | GTripHit int string bool trip_obj
  | GTripDatabase int int taxi_trip
  | GNotFound string
  | GDBStats db_stats failover_stats
  | GHealth nat cluster_view
  | GCluster nat int int "(string, node_details) gomap"
  | GStats int cluster_view failover_stats
  | GNodeState string node_state
  | GText string
  | GPanic

type_synonym gw_reply = "int \<times> gw_body"

text \<open>A post of a body to a URL, and a goroutine of a handler: the write to the replica, or the hydration of the cache.\<close>

type_synonym gw_post = "string \<times> string"

datatype gw_async = AsyncReplicate string string | AsyncHydrate string string

record gw_request =
  gq_method :: string
  gq_query :: "string \<Rightarrow> string"
  gq_body :: string

record gw_codec =
  gc_set :: "string \<Rightarrow> client_set_request option"
  gc_marshalSet :: "client_set_request \<Rightarrow> string + string"
  gc_object :: "string \<Rightarrow> (string \<Rightarrow> iface option) option"
  gc_marshalTrip :: "taxi_trip \<Rightarrow> string option"
  gc_validJSON :: "string \<Rightarrow> bool"
  gc_nodeState :: "string \<Rightarrow> (string \<times> string) option"

record ('l, 'c) gw_env =
  ge_codec :: gw_codec
  ge_post :: "nat \<Rightarrow> string \<Rightarrow> string \<Rightarrow> string + int"
  ge_newRequest :: "string \<Rightarrow> bool"
  ge_delete :: "nat \<Rightarrow> string \<Rightarrow> string + int"
  ge_read :: read_env
  ge_monitor2 :: "'l monitor"
  ge_db :: "'c db_env"
  ge_start :: gtime
  ge_end :: gtime
  ge_now :: gtime
  ge_order :: "string list"

type_synonym ('l, 'c) gw_result = "gw_reply \<times> gw_post list \<times> gw_async list \<times> ('l, 'c) gateway"

definition client_error :: "int \<Rightarrow> string \<Rightarrow> gw_reply" where
  "client_error status msg =
     (status, GClient \<lparr>cr_Status = ''error'', cr_Key = [], cr_Value = [], cr_TTLRemaining = 0, cr_Version = 0, cr_ServedBy = [],
                       cr_IsFailover = False, cr_Message = msg\<rparr>)"

abbreviation ErrNoNodes :: string where
  "ErrNoNodes \<equiv> ''gateway: no healthy nodes available in cluster''"

subsection \<open>Construction\<close>

definition gw_defaults :: "gw_config \<Rightarrow> gw_config" where
  "gw_defaults cfg =
     cfg\<lparr>gf_Port := (if gf_Port cfg \<le> 0 then 8000 else gf_Port cfg),
         gf_Host := (if gf_Host cfg = [] then ''0.0.0.0'' else gf_Host cfg),
         gf_VNodes := (if gf_VNodes cfg \<le> 0 then 50 else gf_VNodes cfg),
         gf_HeartbeatInterval := (if gf_HeartbeatInterval cfg \<le> 0 then 500 * millisecond else gf_HeartbeatInterval cfg),
         gf_SuspectTimeout := (if gf_SuspectTimeout cfg \<le> 0 then 1 * second else gf_SuspectTimeout cfg),
         gf_FailTimeout := (if gf_FailTimeout cfg \<le> 0 then 2 * second else gf_FailTimeout cfg),
         gf_RequestTimeout := (if gf_RequestTimeout cfg \<le> 0 then 2 * second else gf_RequestTimeout cfg)\<rparr>"

definition join_node :: "string \<Rightarrow> hash_ring \<times> (string, string) gomap \<Rightarrow> hash_ring \<times> (string, string) gomap" where
  "join_node n st =
     (if CHR ''='' \<in> set n
      then (let (a, b) = split_at_char (CHR ''='') n; nid = TrimSpace a; addr = TrimSpace b
            in (ring_AddNode nid addr (fst st), gm_put nid addr (snd st)))
      else st)"

definition gateway_New :: "(string \<Rightarrow> gtime) \<Rightarrow> 'c open_env \<Rightarrow> gw_config \<Rightarrow> ('l, 'c) gateway" where
  "gateway_New clock oenv cfg0 =
     (let cfg = gw_defaults cfg0;
          (ring, peerMap) = fold join_node (gf_Nodes cfg) (ring_New (gf_VNodes cfg) None, []);
          hMon = NewMonitor clock \<lparr>hcf_SelfNodeID = ''gateway-router'', hcf_SelfAddr = [], hcf_Peers = peerMap,
                   hcf_HeartbeatInterval = gf_HeartbeatInterval cfg, hcf_SuspectTimeout = gf_SuspectTimeout cfg,
                   hcf_FailTimeout = gf_FailTimeout cfg\<rparr>;
          (dbInstance, err) = database_Open oenv \<lparr>dc_Driver = [], dc_URL = [], dc_Host = [], dc_Port = 0, dc_User = [],
                   dc_Password = [], dc_DBName = [], dc_SSLMode = [], dc_Path = gf_SQLitePath cfg\<rparr>
      in \<lparr>gw_config = cfg, gw_hashRing = ring, gw_healthMonitor = hMon, gw_failover = NewRouter (gf_RequestTimeout cfg),
          gw_db = Some dbInstance\<rparr>)"

definition gateway_Close :: "'c db_env \<Rightarrow> ('l, 'c) gateway \<Rightarrow> ('l, 'c) gateway" where
  "gateway_Close env g =
     (let g1 = g\<lparr>gw_healthMonitor := monitor_Stop (gw_healthMonitor g)\<rparr>
      in case gw_db g1 of None \<Rightarrow> g1 | Some d \<Rightarrow> g1\<lparr>gw_db := Some (snd (db_Close env d))\<rparr>)"

subsection \<open>Keys of trips\<close>

definition TrimPrefix :: "string \<Rightarrow> string \<Rightarrow> string" where
  "TrimPrefix s p = (case strip_prefix p s of Some r \<Rightarrow> r | None \<Rightarrow> s)"

definition row_of_key :: "string \<Rightarrow> int option" where
  "row_of_key key = ParseInt (TrimPrefix (TrimPrefix key ''trip:'') ''prod:'')"

subsection \<open>Writes\<close>

text \<open>The write-through: the database updated, the record it returned and the value to store.\<close>

definition write_through ::
  "('l, 'c) gw_env \<Rightarrow> client_set_request \<Rightarrow> 'c database option \<Rightarrow> taxi_trip option \<times> client_set_request \<times> 'c database option" where
  "write_through env req dbo =
     (case dbo of
        None \<Rightarrow> (None, req, dbo)
      | Some d \<Rightarrow>
          (case row_of_key (cs_Key req) of
             None \<Rightarrow> (None, req, dbo)
           | Some rowID \<Rightarrow>
               if \<not> 0 < rowID then (None, req, dbo)
               else case gc_object (ge_codec env) (cs_Value req) of
                      None \<Rightarrow> (None, req, dbo)
                    | Some parsedMap \<Rightarrow>
                        (case parsedMap ''field_modified'' of
                           Some (VString fieldMod) \<Rightarrow>
                             if fieldMod = [] then (None, req, dbo)
                             else let fieldVal = (case parsedMap fieldMod of Some v \<Rightarrow> v | None \<Rightarrow> VOther);
                                      ((res, _), d') = db_UpdateTripField (ge_db env) rowID fieldMod fieldVal d
                                  in (case res of
                                        Inl _ \<Rightarrow> (None, req, Some d')
                                      | Inr t \<Rightarrow>
                                          (Some t,
                                           case gc_marshalTrip (ge_codec env) t of Some j \<Rightarrow> req\<lparr>cs_Value := j\<rparr> | None \<Rightarrow> req,
                                           Some d'))
                         | _ \<Rightarrow> (None, req, dbo))))"

text \<open>The reply to a write. Its fixed \<^verbatim>\<open>message\<close> text, which differs after a fallback, is left out.\<close>

definition gw_stored :: "client_set_request \<Rightarrow> taxi_trip option \<Rightarrow> string \<Rightarrow> bool \<Rightarrow> gw_reply" where
  "gw_stored req trip servedBy isFailover =
     (200, GStored (cs_Key req) (cs_Value req) trip (trip \<noteq> None) servedBy isFailover)"

definition set_url :: "string \<Rightarrow> string" where
  "set_url addr = addr @ ''/set''"

text \<open>The routing of a write to the owners of its key.\<close>

definition forward_write ::
  "('l, 'c) gw_env \<Rightarrow> taxi_trip option \<Rightarrow> client_set_request \<Rightarrow> ('l, 'c) gateway \<Rightarrow> gw_reply \<times> gw_post list \<times> gw_async list" where
  "forward_write env fullTrip req g =
     (case ring_GetNodes (gw_hashRing g) (cs_Key req) 2 of
        Inl _ \<Rightarrow> (client_error 503 ErrNoNodes, [], [])
      | Inr [] \<Rightarrow> (client_error 503 ErrNoNodes, [], [])
      | Inr (primary # rest) \<Rightarrow>
          let (pState, ok) = GetNodeState (nt_NodeID primary) (gw_healthMonitor g);
              isFailover = (ok \<and> pState = StateFailed \<and> rest \<noteq> []);
              dest = (if isFailover then hd rest else primary)
          in case gc_marshalSet (ge_codec env) req of
               Inl _ \<Rightarrow> (client_error 500 ''Failed to encode request'', [], [])
             | Inr payload \<Rightarrow>
                 (case ge_post env 0 (set_url (nt_Addr dest)) payload of
                    Inl err \<Rightarrow>
                      let failed = client_error 502 (''Failed to store key on cluster: '' @ err);
                          post0 = (set_url (nt_Addr dest), payload)
                      in if rest \<noteq> [] \<and> \<not> isFailover
                         then (let replica = hd rest; post1 = (set_url (nt_Addr replica), payload)
                               in case ge_post env 1 (set_url (nt_Addr replica)) payload of
                                    Inr _ \<Rightarrow> (gw_stored req fullTrip (nt_NodeID replica) True, [post0, post1], [])
                                  | Inl _ \<Rightarrow> (failed, [post0, post1], []))
                         else (failed, [post0], [])
                  | Inr _ \<Rightarrow>
                      (gw_stored req fullTrip (nt_NodeID dest) isFailover,
                       [(set_url (nt_Addr dest), payload)],
                       if rest \<noteq> [] \<and> nt_Addr (hd rest) \<noteq> [] \<and> nt_Addr (hd rest) \<noteq> nt_Addr dest
                       then [AsyncReplicate (nt_Addr (hd rest)) payload] else [])))"

definition handleAPISet :: "('l, 'c) gw_env \<Rightarrow> gw_request \<Rightarrow> ('l, 'c) gateway \<Rightarrow> ('l, 'c) gw_result" where
  "handleAPISet env q g0 =
     (if gq_method q \<noteq> ''POST'' then (client_error 405 ''Method not allowed, use POST'', [], [], g0)
      else case gc_set (ge_codec env) (gq_body q) of
        None \<Rightarrow> (client_error 400 ''Invalid JSON request body'', [], [], g0)
      | Some req0 \<Rightarrow>
          if cs_Key req0 = [] then (client_error 400 ''Field 'key' cannot be empty'', [], [], g0)
          else let (fullTrip, req, db') = write_through env req0 (gw_db g0);
                   g = g0\<lparr>gw_db := db'\<rparr>;
                   (reply, posts, async) = forward_write env fullTrip req g
               in (reply, posts, async, g))"

text \<open>The posts of a goroutine; the hydration looks its target up itself and ignores an encoding error.\<close>

definition hydrate_body :: "gw_codec \<Rightarrow> string \<Rightarrow> string \<Rightarrow> int \<Rightarrow> string" where
  "hydrate_body cd key json ttl =
     (case gc_marshalSet cd \<lparr>cs_Key = key, cs_Value = json, cs_TTLSeconds = ttl\<rparr> of Inr b \<Rightarrow> b | Inl _ \<Rightarrow> [])"

definition run_async :: "gw_codec \<Rightarrow> hash_ring \<Rightarrow> gw_async \<Rightarrow> gw_post list" where
  "run_async cd ring a =
     (case a of
        AsyncReplicate addr body \<Rightarrow> [(set_url addr, body)]
      | AsyncHydrate key json \<Rightarrow>
          (case ring_GetNodes ring key 2 of
             Inr (t # _) \<Rightarrow> [(set_url (nt_Addr t), hydrate_body cd key json 300)]
           | _ \<Rightarrow> []))"

subsection \<open>Reads\<close>

definition gw_latency :: "('l, 'c) gw_env \<Rightarrow> int" where
  "gw_latency env = (let l = dur_Milliseconds (time_sub (ge_end env) (ge_start env)) in if l = 0 then 1 else l)"

text \<open>The second step of a read: the database, when the key names a row.\<close>

definition db_fallback ::
  "('l, 'c) gw_env \<Rightarrow> string \<Rightarrow> gw_reply \<Rightarrow> ('l, 'c) gateway \<Rightarrow> ('l, 'c) gw_result" where
  "db_fallback env key missed g =
     (case gw_db g of
        None \<Rightarrow> (missed, [], [], g)
      | Some d \<Rightarrow>
          (case row_of_key key of
             None \<Rightarrow> (missed, [], [], g)
           | Some rowID \<Rightarrow>
               if \<not> 0 < rowID then (missed, [], [], g)
               else let ((res, dbLatency), d') = db_QueryTripByID (ge_db env) rowID d; g' = g\<lparr>gw_db := Some d'\<rparr>
                    in case res of
                         Inl _ \<Rightarrow> (missed, [], [], g')
                       | Inr trip \<Rightarrow>
                           let json = (case gc_marshalTrip (ge_codec env) trip of Some j \<Rightarrow> j | None \<Rightarrow> [])
                           in ((200, GDatabaseHit key json trip (dur_Milliseconds (time_sub (ge_end env) (ge_start env))) (dur_Milliseconds dbLatency)),
                               [], [AsyncHydrate key json], g')))"

definition handleAPIGet :: "('l, 'c) gw_env \<Rightarrow> gw_request \<Rightarrow> ('l, 'c) gateway \<Rightarrow> ('l, 'c) gw_result" where
  "handleAPIGet env q g0 =
     (if gq_method q \<noteq> ''GET'' then (client_error 405 ''Method not allowed, use GET'', [], [], g0)
      else let key = gq_query q ''key''
           in if key = [] then (client_error 400 ''Query parameter 'key' is required'', [], [], g0)
              else let (res, fo) = RouteGet (ge_read env) (gw_hashRing g0) (gw_healthMonitor g0) (ge_monitor2 env) key (gw_failover g0);
                       g = g0\<lparr>gw_failover := fo\<rparr>;
                       missed = (200, GMiss key (case res of Inr rr \<Rightarrow> rr_ServedBy rr | Inl _ \<Rightarrow> []))
                   in case res of
                        Inr rr \<Rightarrow>
                          if rr_Value rr \<noteq> []
                          then ((200, GCacheHit key (rr_Value rr) (rr_TTLRemaining rr) (rr_Version rr) (rr_ServedBy rr) (rr_IsFailover rr)
                                   (gw_latency env)), [], [], g)
                          else db_fallback env key missed g
                      | Inl _ \<Rightarrow> db_fallback env key missed g)"

definition handleAPIDelete :: "('l, 'c) gw_env \<Rightarrow> gw_request \<Rightarrow> ('l, 'c) gateway \<Rightarrow> gw_reply \<times> string list" where
  "handleAPIDelete env q g =
     (if gq_method q \<noteq> ''DELETE'' \<and> gq_method q \<noteq> ''POST'' then (client_error 405 ''Method not allowed, use DELETE'', [])
      else let key = gq_query q ''key''
           in if key = [] then (client_error 400 ''Query parameter 'key' is required'', [])
              else case ring_GetNodes (gw_hashRing g) key 2 of
                     Inl _ \<Rightarrow> (client_error 503 ErrNoNodes, [])
                   | Inr [] \<Rightarrow> (client_error 503 ErrNoNodes, [])
                   | Inr (primary # rest) \<Rightarrow>
                       let url = (\<lambda>t. nt_Addr t @ ''/delete?key='' @ key);
                           deleted = (200, GClient \<lparr>cr_Status = ''deleted'', cr_Key = key, cr_Value = [], cr_TTLRemaining = 0, cr_Version = 0,
                                        cr_ServedBy = nt_NodeID primary, cr_IsFailover = False, cr_Message = []\<rparr>)
                       in if \<not> ge_newRequest env (url primary) then ((500, GPanic), [])
                          else case ge_delete env 0 (url primary) of
                                 Inr _ \<Rightarrow> (deleted, [url primary])
                               | Inl _ \<Rightarrow>
                                   (case rest of
                                      [] \<Rightarrow> (deleted, [url primary])
                                    | replica # _ \<Rightarrow>
                                        if \<not> ge_newRequest env (url replica) then ((500, GPanic), [url primary])
                                        else (deleted, [url primary, url replica])))"

subsection \<open>Trips\<close>

text \<open>The record made up for a row when there is no database. The decimal constants are the nearest floats; the division of the row
  number truncates.\<close>

definition generated_trip :: "int \<Rightarrow> taxi_trip" where
  "generated_trip rowID =
     (let tenths = (\<lambda>x. fdiv (float64_of_int (int_of_float64 (fmul x (Fin 10)))) (Fin 10));
          dist = tenths (fadd (lit (6 / 5)) (fmul (float64_of_int (go_rem rowID 50)) (lit (3 / 20))));
          fare = tenths (fadd (Fin 5) (fmul dist (Fin (5 / 2))));
          tip = tenths (fmul fare (lit (1 / 5)))
      in \<lparr>tt_TripID = trip_key rowID, tt_RowID = rowID, tt_VendorID = Some (float64_of_int (go_rem rowID 2 + 1)),
          tt_PickupDatetime = ''2019-01-01 01:15:32'', tt_DropoffDatetime = ''2019-01-01 01:28:44'',
          tt_PassengerCount = Some (float64_of_int (go_rem rowID 4 + 1)), tt_TripDistance = dist, tt_RatecodeID = Some (Fin 1),
          tt_PULocationID = Some (float64_of_int (go_rem rowID 263 + 1)),
          tt_DOLocationID = Some (float64_of_int (go_rem (wrap64 (rowID + 42)) 263 + 1)), tt_PaymentType = Some (Fin 1),
          tt_FareAmount = fare, tt_TipAmount = tip, tt_TotalAmount = fadd fare tip\<rparr>)"

definition trip_row_of_query :: "gw_request \<Rightarrow> int" where
  "trip_row_of_query q =
     (let idStr = or_else (or_else (gq_query q ''id'') (gq_query q ''key'')) ''trip:1''
      in case row_of_key idStr of Some rowID \<Rightarrow> if rowID \<le> 0 then 1 else rowID | None \<Rightarrow> 1)"

text \<open>The posts that hydrate both owners.\<close>

definition hydrate_posts :: "gw_codec \<Rightarrow> hash_ring \<Rightarrow> string \<Rightarrow> string \<Rightarrow> gw_post list" where
  "hydrate_posts cd ring key json =
     (case ring_GetNodes ring key 2 of
        Inl _ \<Rightarrow> []
      | Inr targets \<Rightarrow>
          map (\<lambda>t. (set_url (nt_Addr t), hydrate_body cd key json 600)) (filter (\<lambda>t. nt_Addr t \<noteq> []) targets))"

definition handleAPITrip :: "('l, 'c) gw_env \<Rightarrow> gw_request \<Rightarrow> ('l, 'c) gateway \<Rightarrow> ('l, 'c) gw_result" where
  "handleAPITrip env q g0 =
     (if gq_method q \<noteq> ''GET'' then (client_error 405 ''Method not allowed, use GET'', [], [], g0)
      else let rowID = trip_row_of_query q;
               cacheKey = trip_key rowID;
               (res, fo) = RouteGet (ge_read env) (gw_hashRing g0) (gw_healthMonitor g0) (ge_monitor2 env) cacheKey (gw_failover g0);
               g = g0\<lparr>gw_failover := fo\<rparr>;
               served = (\<lambda>trip dbLatency g.
                 let json = (case gc_marshalTrip (ge_codec env) trip of Some j \<Rightarrow> j | None \<Rightarrow> [])
                 in ((200, GTripDatabase (dur_Milliseconds (time_sub (ge_end env) (ge_start env))) (dur_Milliseconds dbLatency) trip),
                     hydrate_posts (ge_codec env) (gw_hashRing g) cacheKey json, [], g));
               missed = (case gw_db g of
                   None \<Rightarrow> served (generated_trip rowID) (45 * millisecond) g
                 | Some d \<Rightarrow>
                     (let ((found, dbLatency), d') = db_QueryTripByID (ge_db env) rowID d; g' = g\<lparr>gw_db := Some d'\<rparr>
                      in case found of
                           Inl err \<Rightarrow> ((404, GNotFound err), [], [], g')
                         | Inr trip \<Rightarrow> served trip dbLatency g'))
           in case res of
                Inl _ \<Rightarrow> missed
              | Inr rr \<Rightarrow>
                  if rr_Value rr = [] then missed
                  else ((200, GTripHit (gw_latency env) (rr_ServedBy rr) (rr_IsFailover rr)
                           (if gc_validJSON (ge_codec env) (rr_Value rr) then TripJSON (rr_Value rr) else TripText (rr_Value rr))),
                        [], [], g))"

subsection \<open>Observability and control\<close>

definition handleAPIDBStats :: "('l, 'c) gw_env \<Rightarrow> ('l, 'c) gateway \<Rightarrow> gw_reply" where
  "handleAPIDBStats env g =
     (200, GDBStats (case gw_db g of Some d \<Rightarrow> db_GetStats (ge_db env) d | None \<Rightarrow> StatsOffline) (router_Stats (gw_failover g)))"

definition handleAPIHealth :: "('l, 'c) gw_env \<Rightarrow> ('l, 'c) gateway \<Rightarrow> gw_reply" where
  "handleAPIHealth env g = (200, GHealth (ring_NodeCount (gw_hashRing g)) (GetClusterView (ge_now env) (gw_healthMonitor g)))"

definition node_detail :: "cluster_view \<Rightarrow> 'l monitor \<Rightarrow> node_target \<Rightarrow> node_details" where
  "node_detail view mon n =
     (let state = fst (GetNodeState (nt_NodeID n) mon)
      in case map_of (cv_Members view) (nt_NodeID n) of
           Some m \<Rightarrow> \<lparr>nd_Addr = nt_Addr n, nd_State = state, nd_LatencyMs = mi_LatencyMs m, nd_PrimaryKeys = mi_PrimaryKeys m,
                      nd_ReplicaKeys = mi_ReplicaKeys m, nd_HitCount = mi_HitCount m\<rparr>
         | None \<Rightarrow> \<lparr>nd_Addr = nt_Addr n, nd_State = state, nd_LatencyMs = 0, nd_PrimaryKeys = 0, nd_ReplicaKeys = 0, nd_HitCount = 0\<rparr>)"

definition handleAPICluster :: "('l, 'c) gw_env \<Rightarrow> ('l, 'c) gateway \<Rightarrow> gw_reply" where
  "handleAPICluster env g =
     (let view = GetClusterView (ge_now env) (gw_healthMonitor g);
          nodes = rt_Nodes (ring_GetTopology (gw_hashRing g) (ge_order env));
          details = fold (\<lambda>n m. gm_put (nt_NodeID n) (node_detail view (gw_healthMonitor g) n) m) nodes []
      in (200, GCluster (length nodes) (gf_VNodes (gw_config g)) (int (length nodes) * gf_VNodes (gw_config g)) details))"

definition handleAPIStats :: "('l, 'c) gw_env \<Rightarrow> ('l, 'c) gateway \<Rightarrow> gw_reply" where
  "handleAPIStats env g =
     (200, GStats (gf_Port (gw_config g)) (GetClusterView (ge_now env) (gw_healthMonitor g)) (router_Stats (gw_failover g)))"

text \<open>\<^verbatim>\<open>strings.ToUpper\<close>, as far as a comparison with ASCII constants can tell: besides the ASCII letters only the
  dotless i (bytes 196 177) and the long s (197 191) have an ASCII upper case.\<close>

fun ToUpper :: "string \<Rightarrow> string" where
  "ToUpper [] = []"
| "ToUpper [c] = [if 97 \<le> code c \<and> code c \<le> 122 then char_of (code c - 32) else c]"
| "ToUpper (c # d # cs) =
     (if code c = 196 \<and> code d = 177 then CHR ''I'' # ToUpper cs
      else if code c = 197 \<and> code d = 191 then CHR ''S'' # ToUpper cs
      else (if 97 \<le> code c \<and> code c \<le> 122 then char_of (code c - 32) else c) # ToUpper (d # cs))"

definition handleAPINodeState ::
  "('l, 'c) gw_env \<Rightarrow> gw_request \<Rightarrow> ('l, 'c) gateway \<Rightarrow> gw_reply \<times> 'l calls \<times> ('l, 'c) gateway" where
  "handleAPINodeState env q g =
     (if gq_method q \<noteq> ''POST'' then (client_error 405 ''Method not allowed, use POST'', [], g)
      else case gc_nodeState (ge_codec env) (gq_body q) of
        None \<Rightarrow> (client_error 400 ''Invalid JSON body'', [], g)
      | Some (nodeID, state) \<Rightarrow>
          if nodeID = [] \<or> state = [] then (client_error 400 ''Missing node_id or state'', [], g)
          else let target = ToUpper state
               in if target \<notin> {StateFailed, StateAlive, StateSuspected}
                  then (client_error 400 ''State must be ALIVE, FAILED, or SUSPECTED'', [], g)
                  else let (ok, calls, mon) = SetNodeStateManual (ge_now env) nodeID target (gw_healthMonitor g)
                       in if \<not> ok then (client_error 404 ''Node not found in cluster'', calls, g\<lparr>gw_healthMonitor := mon\<rparr>)
                          else ((200, GNodeState nodeID target), calls, g\<lparr>gw_healthMonitor := mon\<rparr>))"

subsection \<open>Dispatch\<close>

definition gw_routes ::
  "('l, 'c) gw_env \<Rightarrow> string \<Rightarrow> gw_request \<Rightarrow> ('l, 'c) gateway \<Rightarrow> ('l, 'c) gw_result option" where
  "gw_routes env path q g =
     (if path = ''/api/set'' then Some (handleAPISet env q g)
      else if path = ''/api/get'' then Some (handleAPIGet env q g)
      else if path = ''/api/delete'' then Some (fst (handleAPIDelete env q g), [], [], g)
      else if path = ''/api/trip'' \<or> path = ''/api/catalog'' then Some (handleAPITrip env q g)
      else if path = ''/api/db/stats'' then Some (handleAPIDBStats env g, [], [], g)
      else if path = ''/api/health'' then Some (handleAPIHealth env g, [], [], g)
      else if path = ''/api/cluster'' then Some (handleAPICluster env g, [], [], g)
      else if path = ''/api/stats'' then Some (handleAPIStats env g, [], [], g)
      else if path = ''/api/node/state'' then (let (r, _, g') = handleAPINodeState env q g in Some (r, [], [], g'))
      else None)"

definition gw_enableCORS ::
  "('l, 'c) gw_env \<Rightarrow> string \<Rightarrow> gw_request \<Rightarrow> ('l, 'c) gateway \<Rightarrow> ('l, 'c) gw_result" where
  "gw_enableCORS env path q g =
     (if gq_method q = ''OPTIONS'' then ((200, GText []), [], [], g)
      else case gw_routes env path q g of
             Some r \<Rightarrow> r
           | None \<Rightarrow> ((404, GText (''404 page not found'' @ [CHR 0x0A])), [], [], g))"

end
