(* ===== verification/Trip_Properties.thy ===== *)
theory Trip_Properties
  imports Trip_Database
begin

text \<open>
  The properties of the trip databases, through the \<^verbatim>\<open>Database\<close> interface, and the driver over an in-memory table
  on which their hypotheses hold.
\<close>

section \<open>A table in memory\<close>

definition mem_rows :: "(int, trip_row) gomap \<Rightarrow> int \<Rightarrow> trip_row option" where
  "mem_rows = map_of"

definition apply_args :: "sql_arg list \<Rightarrow> (int, trip_row) gomap \<Rightarrow> (int, trip_row) gomap" where
  "apply_args args m =
     (case args of
        [ArgFloat d, ArgFloat f, ArgFloat p, ArgFloat t, ArgFloatPtr ps, ArgFloatPtr pu, ArgFloatPtr dl, ArgInt i] \<Rightarrow>
          (case map_of m i of
             None \<Rightarrow> m
           | Some r \<Rightarrow> gm_put i (r\<lparr>row_distance := Some d, row_fare := Some f, row_tip := Some p, row_total := Some t,
                                   row_passengers := ps, row_pu := pu, row_do := dl\<rparr>) m)
      | _ \<Rightarrow> m)"

definition mem_driver :: "string \<Rightarrow> string \<Rightarrow> (int, trip_row) gomap sql_driver" where
  "mem_driver sel upd =
     \<lparr>dr_QueryRow = (\<lambda>m q i. (if q = sel then (case map_of m i of Some r \<Rightarrow> ScanRow r | None \<Rightarrow> ScanNoRows) else ScanErr ''syntax error'', m)),
      dr_Exec = (\<lambda>m q args. if q = upd then (None, apply_args args m) else (Some ''syntax error'', m)),
      dr_Close = (\<lambda>m. (None, m)), dr_Stats = (\<lambda>m. (1, 0, 1))\<rparr>"

lemma mem_driver_table: "table_driver (mem_driver sel upd) sel upd mem_rows"
  by (simp add: table_driver_def update_law_def mem_driver_def mem_rows_def apply_args_def update_args_def store_row_def split: option.split)

definition demo_row :: trip_row where
  "demo_row =
     \<lparr>row_id = 7, row_vendor = Some (Fin 1), row_pickup = Some ''2019-01-01 00:46:40'', row_dropoff = None,
      row_passengers = Some (Fin 1), row_distance = Some (Fin 2), row_ratecode = Some (Fin 1), row_pu = None,
      row_do = None, row_payment = Some (Fin 1), row_fare = Some (Fin 8), row_tip = Some (Fin 2), row_total = Some (Fin 11)\<rparr>"

definition demo_db_env :: "(int, trip_row) gomap db_env" where
  "demo_db_env =
     \<lparr>de_sqlite = mem_driver sqlite_select sqlite_update, de_postgres = mem_driver postgres_select postgres_update,
      de_format = (\<lambda>t. itoa t), de_clock = (\<lambda>n. 100 + int n)\<rparr>"

definition demo_db :: "(int, trip_row) gomap database" where
  "demo_db =
     SQLite (Some \<lparr>sq_db = Some [(7, demo_row)], sq_dbPath = ''2019-01.sqlite'', sq_totalRows = 7667792, sq_queryCount = 0,
                   sq_writeCount = 0, sq_initialized = True\<rparr>)"

lemma demo_db_ok: "db_ok demo_db_env mem_rows demo_db"
proof -
  have "rows_ok mem_rows [(7, demo_row)]"
    by (simp add: rows_ok_def mem_rows_def demo_row_def trip_of_row_def finite_trip_def)
  then show ?thesis by (simp add: db_ok_def demo_db_def demo_db_env_def sqlite_ok_def mem_driver_table)
qed

lemma demo_db_view: "db_view mem_rows demo_db = [7 \<mapsto> trip_of_row 7 demo_row]"
  by (simp add: fun_eq_iff db_view_def demo_db_def sqlite_view_def pool_view_def mem_rows_def)

section \<open>Properties\<close>

text \<open>C5. Any sequence of field modifications through the \<^verbatim>\<open>Database\<close> interface, over SQLite or PostgreSQL, refines
  the specification on maps from row ids to records: every later query of a row returns the record the cascades of that
  row's modifications give, in order, and modifications of other rows change nothing. It relies on a driver that serves
  the table and on values that can be stored.\<close>

theorem db_edits_refine:
  assumes "db_ok env rows d" "\<forall>x\<in>set es. safe_edit (snd x)"
    and "d' = run_edits (\<lambda>clk. db_UpdateTripField (env\<lparr>de_clock := clk\<rparr>)) es d"
    and "spec_edits (map snd es) (db_view rows d) i = Some t"
  shows "fst (fst (db_QueryTripByID (env\<lparr>de_clock := clk\<rparr>) i d')) = Inr t"
  using assms dbi.run_edits_refines [OF assms(1,2)] by (auto intro!: dbi.query_found)

theorem db_edits_refine_witness:
  "\<exists>t. fst (fst (db_QueryTripByID (demo_db_env\<lparr>de_clock := \<lambda>n. 0\<rparr>) 7
     (run_edits (\<lambda>clk. db_UpdateTripField (demo_db_env\<lparr>de_clock := clk\<rparr>))
        [(\<lambda>n. int n, 7, ''tip_amount'', VInt 3), (\<lambda>n. 0, 9, ''fare_amount'', VInt 20)] demo_db))) = Inr t"
proof -
  let ?es = "[(\<lambda>n. int n, 7, ''tip_amount'', VInt 3), (\<lambda>n. 0, 9, ''fare_amount'', VInt 20)] :: ((nat \<Rightarrow> gtime) \<times> edit) list"
  have safe: "\<forall>x\<in>set ?es. safe_edit (snd x)" by (simp add: safe_edit_def)
  obtain t where "spec_edits (map snd ?es) (db_view mem_rows demo_db) 7 = Some t"
    by (simp add: spec_edits_def spec_edit_def demo_db_view)
  from db_edits_refine [OF demo_db_ok safe refl this] show ?thesis by blast
qed

text \<open>What a modification of an existing row returns is what the next query of that row returns, and a query of
  another row returns what it returned before.\<close>

theorem db_update_query:
  assumes "db_ok env rows d" "db_view rows d i = Some t" "safe_edit (i, field, val)"
    and "((res, lat), d') = db_UpdateTripField env i field val d"
  shows "res = Inr (CalculateTripCascade t field val)
    \<and> fst (fst (db_QueryTripByID (env\<lparr>de_clock := clk\<rparr>) i d')) = res
    \<and> (\<forall>j u. j \<noteq> i \<longrightarrow> db_view rows d j = Some u \<longrightarrow> fst (fst (db_QueryTripByID (env\<lparr>de_clock := clk\<rparr>) j d')) = Inr u)"
proof -
  have env: "env\<lparr>de_clock := de_clock env\<rparr> = env" by simp
  have d: "res = fst (fst (db_UpdateTripField env i field val d))" "d' = snd (db_UpdateTripField env i field val d)"
    using assms(4) by (simp_all add: prod_eq_iff)
  note laws = dbi.update_found [OF assms(1,2,3), where e = "de_clock env", unfolded env]
    dbi.update_then_query [OF assms(1,2,3), where e = "de_clock env" and e' = clk, unfolded env]
    dbi.update_then_query_other [OF assms(1,3), where e = "de_clock env" and e' = clk, unfolded env]
  show ?thesis unfolding d using laws by simp
qed

theorem db_update_query_witness:
  "\<exists>t. fst (fst (db_UpdateTripField demo_db_env 7 ''tip_amount'' (VInt 3) demo_db)) = Inr t
     \<and> fst (fst (db_QueryTripByID (demo_db_env\<lparr>de_clock := \<lambda>n. 0\<rparr>) 7
          (snd (db_UpdateTripField demo_db_env 7 ''tip_amount'' (VInt 3) demo_db)))) = Inr t"
proof -
  have safe: "safe_edit (7, ''tip_amount'', VInt 3)" by (simp add: safe_edit_def)
  show ?thesis
    using db_update_query [OF demo_db_ok _ safe, of "trip_of_row 7 demo_row" "fst (fst (db_UpdateTripField demo_db_env 7 ''tip_amount'' (VInt 3) demo_db))"
      "snd (fst (db_UpdateTripField demo_db_env 7 ''tip_amount'' (VInt 3) demo_db))"
      "snd (db_UpdateTripField demo_db_env 7 ''tip_amount'' (VInt 3) demo_db)" "\<lambda>n. 0"]
    by (auto simp: demo_db_view)
qed

text \<open>A modification of a row that does not exist is acknowledged with a record, but nothing is stored: the next
  query of the row still fails.\<close>

theorem db_update_missing_row:
  assumes "db_ok env rows d" "db_view rows d i = None" "safe_edit (i, field, val)"
  shows "(\<exists>t. fst (fst (db_UpdateTripField env i field val d)) = Inr t)
    \<and> (\<exists>err. fst (fst (db_QueryTripByID (env\<lparr>de_clock := clk\<rparr>) i (snd (db_UpdateTripField env i field val d)))) = Inl err)"
  using dbi.update_missing_lost [OF assms, where e = "de_clock env" and e' = clk] by simp

theorem db_update_missing_row_witness:
  "(\<exists>t. fst (fst (db_UpdateTripField demo_db_env 9 ''tip_amount'' (VInt 3) demo_db)) = Inr t)
    \<and> (\<exists>err. fst (fst (db_QueryTripByID (demo_db_env\<lparr>de_clock := \<lambda>n. 0\<rparr>) 9
          (snd (db_UpdateTripField demo_db_env 9 ''tip_amount'' (VInt 3) demo_db)))) = Inl err)"
  by (rule db_update_missing_row [OF demo_db_ok]) (simp_all add: demo_db_view safe_edit_def)

text \<open>C38. When the read before a modification fails (a locked file, a lost connection) and the write after it
  succeeds, the stored record is overwritten: the row keeps nothing of its distance, fare, tip, total, passengers and
  zones, which become those of a built-in record (3.5 miles, 12.50 dollars, no passengers and zones) after the cascade.\<close>

theorem db_failed_read_overwrites:
  assumes "update_law drv sqlite_update rows" "sq_db s = Some c" "safe_edit (i, field, val)"
    and "dr_QueryRow drv c sqlite_select i = (ScanErr err, c1)" "rows c1 i = Some r"
    and "t = CalculateTripCascade (baseline_trip fmt_time i (clk 3) (clk 4)) field val"
  shows "\<exists>s' c'. sqlite_UpdateTripField drv fmt_time clk i field val (Some s) = ((Inr t, time_sub (clk 5) (clk 0)), Some s')
    \<and> sq_db s' = Some c' \<and> rows c' i = Some (store_row t r)"
proof -
  have "finite_trip t" unfolding assms(6) by (rule safe_edit_finite [OF assms(3) finite_baseline])
  then have "fst (dr_Exec drv c1 sqlite_update (update_args t i)) = None"
    "rows (snd (dr_Exec drv c1 sqlite_update (update_args t i))) i = Some (store_row t r)"
    using assms(1,5) by (simp_all add: update_law_def)
  then show ?thesis
    by (simp add: sqlite_UpdateTripField_def sqlite_QueryTripByID_def assms(2,4) assms(6) [symmetric] Let_def case_prod_unfold)
qed

text \<open>A driver over the table whose reads are locked out.\<close>

definition locked_driver :: "(int, trip_row) gomap sql_driver" where
  "locked_driver = (mem_driver sqlite_select sqlite_update)\<lparr>dr_QueryRow := \<lambda>m q i. (ScanErr ''database is locked'', m)\<rparr>"

theorem db_failed_read_overwrites_witness:
  "\<exists>s' c'. snd (sqlite_UpdateTripField locked_driver (\<lambda>t. itoa t) (\<lambda>n. 0) 7 ''tip_amount'' (VInt 3)
       (Some \<lparr>sq_db = Some [(7, demo_row)], sq_dbPath = ''a'', sq_totalRows = 1, sq_queryCount = 0, sq_writeCount = 0, sq_initialized = True\<rparr>)) = Some s'
     \<and> sq_db s' = Some c' \<and> map_option row_fare (mem_rows c' 7) = Some (Some (Fin (25 / 2)))"
proof -
  let ?s = "\<lparr>sq_db = Some [(7, demo_row)], sq_dbPath = ''a'', sq_totalRows = 1, sq_queryCount = 0, sq_writeCount = 0, sq_initialized = True\<rparr>"
  have law: "update_law locked_driver sqlite_update mem_rows"
    using mem_driver_table [of sqlite_select sqlite_update] by (simp add: table_driver_def update_law_def locked_driver_def)
  have "\<exists>s' c'. sqlite_UpdateTripField locked_driver (\<lambda>t. itoa t) (\<lambda>n. 0) 7 ''tip_amount'' (VInt 3) (Some ?s)
      = ((Inr (CalculateTripCascade (baseline_trip (\<lambda>t. itoa t) 7 0 0) ''tip_amount'' (VInt 3)), time_sub 0 0), Some s')
    \<and> sq_db s' = Some c'
    \<and> mem_rows c' 7 = Some (store_row (CalculateTripCascade (baseline_trip (\<lambda>t. itoa t) 7 0 0) ''tip_amount'' (VInt 3)) demo_row)"
    by (rule db_failed_read_overwrites [OF law, where c = "[(7, demo_row)]" and clk = "\<lambda>n. 0" and ?c1.0 = "[(7, demo_row)]" and err = "''database is locked''"])
      (simp_all add: safe_edit_def locked_driver_def mem_rows_def)
  moreover have "row_fare (store_row (CalculateTripCascade (baseline_trip f 7 a b) ''tip_amount'' v) r) = Some (Fin (25 / 2))" for f a b v r
    by (simp add: store_row_def CalculateTripCascade_def Let_def cascade_tip_def baseline_trip_def)
  ultimately show ?thesis by force
qed

text \<open>The driver that is opened: PostgreSQL exactly when a URL or a host is configured or set in the environment, or
  the driver is asked for by name, and SQLite otherwise; an SQLite file that is opened exists and is one of the candidates.
  The pointer in the interface is nil exactly when an error is returned with it.\<close>

theorem db_open_selects:
  "case database_Open env cfg of
     (Postgres p, err) \<Rightarrow>
       (dc_URL cfg \<noteq> [] \<or> oe_getenv env ''DATABASE_URL'' \<noteq> [] \<or> dc_Host cfg \<noteq> [] \<or> oe_getenv env ''DATABASE_HOST'' \<noteq> []
        \<or> dc_Driver cfg = ''postgres'')
       \<and> (p = None \<longleftrightarrow> err \<noteq> None) \<and> (\<forall>s. p = Some s \<longrightarrow> pg_url s = postgres_url (oe_getenv env) cfg)
   | (SQLite p, err) \<Rightarrow>
       \<not> (dc_URL cfg \<noteq> [] \<or> oe_getenv env ''DATABASE_URL'' \<noteq> [] \<or> dc_Host cfg \<noteq> [] \<or> oe_getenv env ''DATABASE_HOST'' \<noteq> []
          \<or> dc_Driver cfg = ''postgres'')
       \<and> (p = None \<longleftrightarrow> err \<noteq> None)
       \<and> (\<forall>s. p = Some s \<longrightarrow> sq_dbPath s \<noteq> [] \<and> oe_stat env (sq_dbPath s)
            \<and> sq_dbPath s \<in> set (candidate_paths (oe_getenv env) (or_else (dc_Path cfg) (oe_getenv env ''SQLITE_PATH''))))"
proof -
  have url: "postgres_url (oe_getenv env) cfg = [] \<longleftrightarrow>
    dc_URL cfg = [] \<and> oe_getenv env ''DATABASE_URL'' = [] \<and> dc_Host cfg = [] \<and> oe_getenv env ''DATABASE_HOST'' = []"
    by (auto simp: postgres_url_def or_else_def Let_def)
  have found: "p \<noteq> [] \<and> oe_stat env p \<and> p \<in> set ps" if "find (\<lambda>p. p \<noteq> [] \<and> oe_stat env p) ps = Some p" for p ps
    using that by (auto simp: find_Some_iff)
  show ?thesis
  proof (cases "postgres_url (oe_getenv env) cfg \<noteq> [] \<or> dc_Driver cfg = ''postgres''")
    case True
    then show ?thesis
      using url by (auto simp: database_Open_def Let_def OpenPostgresDB_def split: sum.split)
  next
    case False
    then show ?thesis
      using url by (auto simp: database_Open_def Let_def OpenTaxiDB_def split: option.split sum.split dest!: found)
  qed
qed

definition demo_open_env :: "unit open_env" where
  "demo_open_env = \<lparr>oe_getenv = (\<lambda>v. if v = ''DATA_DIR'' then ''/data/'' else []), oe_stat = (\<lambda>p. p = ''/data/2019-01.sqlite''), oe_open = (\<lambda>_ _. Inr ())\<rparr>"

definition demo_db_config :: db_config where
  "demo_db_config = \<lparr>dc_Driver = [], dc_URL = [], dc_Host = [], dc_Port = 0, dc_User = [], dc_Password = [], dc_DBName = [], dc_SSLMode = [], dc_Path = []\<rparr>"

lemma demo_open: "database_Open demo_open_env demo_db_config =
  (SQLite (Some \<lparr>sq_db = Some (), sq_dbPath = ''/data/2019-01.sqlite'', sq_totalRows = 7667792, sq_queryCount = 0, sq_writeCount = 0, sq_initialized = True\<rparr>), None)"
  by (simp add: database_Open_def demo_db_config_def demo_open_env_def postgres_url_def or_else_def OpenTaxiDB_def candidate_paths_def
      filepath_Join_def filepath_Clean_def clean_step_def Let_def)

theorem db_open_selects_witness:
  "''/data/2019-01.sqlite'' \<in> set (candidate_paths (oe_getenv demo_open_env) []) \<and> dc_Driver demo_db_config \<noteq> ''postgres''"
  using db_open_selects [where env = demo_open_env and cfg = demo_db_config]
  by (simp add: demo_open) (simp add: demo_open_env_def demo_db_config_def or_else_def)

end
