(* ===== verification/Gateway_Properties.thy ===== *)
theory Gateway_Properties
  imports Gateway Trip_Properties
begin

text \<open>
  What the gateway promises its clients: which node takes a write and what is reported, the write-through of trip
  modifications, the cache-aside reads of trips, and the branches where it promises more than it does.
\<close>

declare map_of_eq_Some_iff [simp del]

section \<open>Keys of trips\<close>

lemma strip_prefix_append: "strip_prefix p (p @ s) = Some s"
  by (induction p) simp_all

lemma strip_prefix_digits: "list_all is_digit s \<Longrightarrow> strip_prefix ''prod:'' s = None"
  by (cases s) (auto simp: is_digit_def)

lemma row_of_trip_key: "0 \<le> n \<Longrightarrow> n < 2 ^ 63 \<Longrightarrow> row_of_key (trip_key n) = Some n"
proof -
  assume n: "0 \<le> n" "n < 2 ^ 63"
  have "list_all is_digit (itoa n)" using n nat_digits_props by (simp add: itoa_def)
  then show ?thesis
    using n strip_prefix_append [of "''trip:''" "itoa n"] strip_prefix_digits [of "itoa n"] ParseInt_itoa
    by (simp add: row_of_key_def trip_key_def TrimPrefix_def)
qed

section \<open>Routing of writes\<close>

lemma gw_two_nodes:
  assumes "ring_exact h" "prefs h key = p # q # rest"
  shows "ring_GetNodes h key 2 = Inr [ring_target h p, ring_target h q]"
  using assms ring_exact_sorted [OF assms(1)] by (auto simp: GetNodes_prefs prefs_def clockwise_def)

text \<open>A write that names no trip modification leaves the request and the database alone.\<close>

definition plain_write :: "('l, 'c) gw_env \<Rightarrow> client_set_request \<Rightarrow> bool" where
  "plain_write env req \<longleftrightarrow>
     row_of_key (cs_Key req) = None \<or> (\<exists>n. row_of_key (cs_Key req) = Some n \<and> n \<le> 0)
     \<or> (case gc_object (ge_codec env) (cs_Value req) of None \<Rightarrow> True | Some m \<Rightarrow> m ''field_modified'' = None)"

lemma plain_write_through: "plain_write env req \<Longrightarrow> write_through env req d = (None, req, d)"
  by (auto simp: plain_write_def write_through_def split: option.splits)

text \<open>The owner a write goes to first, and the outcome of the two exchanges.\<close>

definition write_dest :: "'l monitor \<Rightarrow> string \<Rightarrow> string \<Rightarrow> string" where
  "write_dest mon p q = (if GetNodeState p mon = (StateFailed, True) then q else p)"

lemma gw_db_update_simps:
  "gw_hashRing (g\<lparr>gw_db := d\<rparr>) = gw_hashRing g" "gw_healthMonitor (g\<lparr>gw_db := d\<rparr>) = gw_healthMonitor g"
  by simp_all

lemma handleAPISet_two:
  assumes req: "gq_method rq = ''POST''" "gc_set (ge_codec env) (gq_body rq) = Some req0" "cs_Key req0 \<noteq> []"
    and wt: "write_through env req0 (gw_db g) = (trip, req, db')"
    and ring: "ring_exact (gw_hashRing g)" "prefs (gw_hashRing g) (cs_Key req) = p # q # rest"
    and pay: "gc_marshalSet (ge_codec env) req = Inr body"
    and d: "d = write_dest (gw_healthMonitor g) p q"
    and addr: "\<And>n. addr n = nt_Addr (ring_target (gw_hashRing g) n)"
  shows "handleAPISet env rq g =
    (case ge_post env 0 (set_url (addr d)) body of
       Inr _ \<Rightarrow> (gw_stored req trip d (d \<noteq> p), [(set_url (addr d), body)],
                 if addr q \<noteq> [] \<and> addr q \<noteq> addr d then [AsyncReplicate (addr q) body] else [], g\<lparr>gw_db := db'\<rparr>)
     | Inl err \<Rightarrow>
         if d = p
         then (case ge_post env 1 (set_url (addr q)) body of
                 Inr _ \<Rightarrow> (gw_stored req trip q True, [(set_url (addr p), body), (set_url (addr q), body)], [], g\<lparr>gw_db := db'\<rparr>)
               | Inl _ \<Rightarrow> (client_error 502 (''Failed to store key on cluster: '' @ err), [(set_url (addr p), body), (set_url (addr q), body)], [], g\<lparr>gw_db := db'\<rparr>))
         else (client_error 502 (''Failed to store key on cluster: '' @ err), [(set_url (addr q), body)], [], g\<lparr>gw_db := db'\<rparr>))"
proof -
  have "p \<noteq> q" using ringp.pref_distinct [OF ring(1), of "cs_Key req"] ring(2) by auto
  obtain st known where st: "GetNodeState p (gw_healthMonitor g) = (st, known)" by fastforce
  have d': "d = (if known \<and> st = StateFailed then q else p)"
    by (auto simp: d write_dest_def st)
  show ?thesis
  proof (cases "known \<and> st = StateFailed")
    case True
    with d' \<open>p \<noteq> q\<close> have "d = q" "d \<noteq> p" by simp_all
    with True show ?thesis
      by (cases "ge_post env 0 (set_url (addr q)) body")
         (simp_all add: handleAPISet_def forward_write_def Let_def req wt gw_two_nodes [OF ring] st pay addr)
  next
    case False
    with d' have d: "d = p" and nf: "(known \<and> st = StateFailed \<and> b) = False" for b by auto
    note eqs = handleAPISet_def forward_write_def Let_def req wt gw_two_nodes [OF ring] st pay addr d nf gw_db_update_simps ring_target_id list.case list.sel list.distinct
      option.case sum.case prod.case if_True if_False simp_thms
    show ?thesis
    proof (cases "ge_post env 0 (set_url (addr p)) body")
      case (Inl e)
      then show ?thesis
        by (cases "ge_post env 1 (set_url (addr q)) body") (simp_all only: eqs)
    next
      case (Inr r)
      then show ?thesis by (simp only: eqs)
    qed
  qed
qed
text \<open>C8. A write through the gateway is acknowledged exactly when one of the exchanges with an owner of its key went through:
  it goes to the primary, or to the second owner when the monitor has the primary as FAILED, and when the exchange with
  the primary fails, to the second owner. The acknowledgement names the owner that took it, marked as a failover exactly when that is
  the second one, and the value stored; the answer is 502 otherwise. After a write to the primary the second
  owner is sent the same body once. Neither the ring nor the membership changes.\<close>

theorem gateway_set_outcome:
  assumes req: "gq_method rq = ''POST''" "gc_set (ge_codec env) (gq_body rq) = Some req0" "cs_Key req0 \<noteq> []"
    and wt: "write_through env req0 (gw_db g) = (trip, req, db')"
    and ring: "ring_exact (gw_hashRing g)" "prefs (gw_hashRing g) (cs_Key req) = p # q # rest"
    and pay: "gc_marshalSet (ge_codec env) req = Inr body"
    and run: "handleAPISet env rq g = (reply, posts, async, g')"
    and addr: "ap = nt_Addr (ring_target (gw_hashRing g) p)" "aq = nt_Addr (ring_target (gw_hashRing g) q)" "aq \<noteq> []" "ap \<noteq> aq"
    and dead: "dead \<longleftrightarrow> GetNodeState p (gw_healthMonitor g) = (StateFailed, True)"
    and okp: "okp \<longleftrightarrow> \<not> dead \<and> \<not> isl (ge_post env 0 (set_url ap) body)"
    and okq: "okq \<longleftrightarrow> \<not> isl (ge_post env (if dead then 0 else 1) (set_url aq) body)"
  shows "(fst reply = 200 \<longleftrightarrow> okp \<or> okq) \<and> (fst reply = 502 \<longleftrightarrow> \<not> okp \<and> \<not> okq)
    \<and> (okp \<longrightarrow> reply = gw_stored req trip p False \<and> async = [AsyncReplicate aq body])
    \<and> (\<not> okp \<and> okq \<longrightarrow> reply = gw_stored req trip q True \<and> async = [])
    \<and> posts = (if dead then [(set_url aq, body)] else if okp then [(set_url ap, body)] else [(set_url ap, body), (set_url aq, body)])
    \<and> g' = g\<lparr>gw_db := db'\<rparr>"
proof -
  have pq: "p \<noteq> q" using ringp.pref_distinct [OF ring(1), of "cs_Key req"] ring(2) by auto
  note eq = handleAPISet_two [OF req wt ring pay refl refl, unfolded run, folded addr(1,2)]
  show ?thesis
  proof (cases dead)
    case True
    then have "write_dest (gw_healthMonitor g) p q = q" by (simp add: write_dest_def dead)
    with eq True show ?thesis
      by (cases "ge_post env 0 (set_url aq) body") (use pq addr okp okq in \<open>auto simp: gw_stored_def client_error_def\<close>)
  next
    case False
    then have "write_dest (gw_healthMonitor g) p q = p" by (simp add: write_dest_def dead)
    with eq False show ?thesis
      by (cases "ge_post env 0 (set_url ap) body"; cases "ge_post env 1 (set_url aq) body")
         (use pq addr okp okq in \<open>auto simp: gw_stored_def client_error_def\<close>)
  qed
qed

text \<open>A gateway on the concrete ring and database, with codecs that keep what they encode, where exchange \<open>n\<close> goes through when \<open>up n\<close>.\<close>

definition demo_gw :: "(string, (int, trip_row) gomap) gateway" where
  "demo_gw =
     \<lparr>gw_config = gw_defaults \<lparr>gf_Port = 0, gf_Host = [], gf_Nodes = [], gf_VNodes = 1, gf_HeartbeatInterval = 0, gf_SuspectTimeout = 0,
        gf_FailTimeout = 0, gf_RequestTimeout = 0, gf_SQLitePath = []\<rparr>,
      gw_hashRing = demo_ring, gw_healthMonitor = demo_idle_monitor, gw_failover = NewRouter 0, gw_db = Some demo_db\<rparr>"

text \<open>A monitor that has the first node as alive.\<close>

definition demo_watch :: "string monitor" where
  "demo_watch = demo_idle_monitor\<lparr>m_members := [(''n1'', new_member ''n1'' [] 0), (''A'', new_member ''A'' ''http://a'' 0)]\<rparr>"

lemma demo_watch_alive: "GetNodeState ''A'' demo_watch = (StateAlive, True)"
  by (simp add: GetNodeState_def demo_watch_def new_member_def)

definition demo_gw_env :: "client_set_request \<Rightarrow> (nat \<Rightarrow> bool) \<Rightarrow> read_env \<Rightarrow> (string, (int, trip_row) gomap) gw_env" where
  "demo_gw_env req up rd =
     \<lparr>ge_codec = \<lparr>gc_set = (\<lambda>_. Some req), gc_marshalSet = (\<lambda>r. Inr (cs_Key r @ '' '' @ cs_Value r)),
        gc_object = (\<lambda>_. Some (\<lambda>f. if f = ''field_modified'' then Some (VString ''tip_amount'') else if f = ''tip_amount'' then Some (VInt 3) else None)),
        gc_marshalTrip = (\<lambda>t. if finite_trip t then Some (tt_TripID t) else None), gc_validJSON = (\<lambda>_. True), gc_nodeState = (\<lambda>_. None)\<rparr>,
      ge_post = (\<lambda>n u b. if up n then Inr 200 else Inl ''refused''), ge_newRequest = (\<lambda>_. True), ge_delete = (\<lambda>n u. Inl ''refused''),
      ge_read = rd, ge_monitor2 = demo_idle_monitor, ge_db = demo_db_env, ge_start = 0, ge_end = 5 * millisecond, ge_now = 0, ge_order = []\<rparr>"

definition demo_gw_request :: "string \<Rightarrow> string \<Rightarrow> gw_request" where
  "demo_gw_request meth k = \<lparr>gq_method = meth, gq_query = (\<lambda>n. if n = ''key'' then k else []), gq_body = []\<rparr>"

abbreviation demo_set_k :: client_set_request where
  "demo_set_k \<equiv> \<lparr>cs_Key = ''k'', cs_Value = ''v'', cs_TTLSeconds = 60\<rparr>"

lemma row_of_k: "row_of_key ''k'' = None"
  by (simp add: row_of_key_def TrimPrefix_def ParseInt_def strip_sign_def is_digit_def)

lemma demo_gw_simps [simp]:
  "gw_hashRing demo_gw = demo_ring" "gw_healthMonitor demo_gw = demo_idle_monitor" "gw_db demo_gw = Some demo_db" "gw_failover demo_gw = NewRouter 0"
  by (simp_all add: demo_gw_def)

theorem gateway_set_outcome_witness:
  "fst (handleAPISet (demo_gw_env demo_set_k (\<lambda>n. n = 1) demo_read_env) (demo_gw_request ''POST'' []) demo_gw)
     = gw_stored demo_set_k None ''BB'' True"
proof -
  let ?e = "demo_gw_env demo_set_k (\<lambda>n. n = 1) demo_read_env" and ?q = "demo_gw_request ''POST'' []"
  obtain reply posts async g' where run: "handleAPISet ?e ?q demo_gw = (reply, posts, async, g')" by (metis prod_cases4)
  have wt: "write_through ?e demo_set_k (gw_db demo_gw) = (None, demo_set_k, Some demo_db)"
    by (simp add: plain_write_through plain_write_def row_of_k)
  have nodes: "ring_exact (gw_hashRing demo_gw)" "prefs (gw_hashRing demo_gw) (cs_Key demo_set_k) = [''A'', ''BB'', ''CCC'']"
    "''http://a'' = nt_Addr (ring_target (gw_hashRing demo_gw) ''A'')" "''http://b'' = nt_Addr (ring_target (gw_hashRing demo_gw) ''BB'')"
    by (simp_all add: demo_ring_exact demo_ring_prefs demo_ring_addrs)
  have q: "gq_method ?q = ''POST''" "gc_set (ge_codec ?e) (gq_body ?q) = Some demo_set_k" "cs_Key demo_set_k \<noteq> []"
    "gc_marshalSet (ge_codec ?e) demo_set_k = Inr ''k v''"
    by (simp_all add: demo_gw_request_def demo_gw_env_def)
  have up: "isl (ge_post ?e 0 u b)" "\<not> isl (ge_post ?e 1 u b)" for u b by (simp_all add: demo_gw_env_def)
  have "reply = gw_stored demo_set_k None ''BB'' True"
    using gateway_set_outcome [OF q(1-3) wt nodes(1,2) q(4) run nodes(3,4) _ _ refl refl refl] up by (simp add: demo_idle_states)
  then show ?thesis by (simp only: run fst_conv)
qed

section \<open>Reads\<close>

text \<open>A read that the primary answers with a value that is not empty.\<close>

lemma gateway_get_primary:
  assumes get: "gq_method rq = ''GET''" "gq_query rq ''key'' = key" "key \<noteq> []"
    and ring: "ring_exact (gw_hashRing g)" "prefs (gw_hashRing g) key = p # q # rest"
    and alive: "GetNodeState p (gw_healthMonitor g) = (StateAlive, True)"
    and read: "readFromNode (ge_read env) 0 (nt_Addr (ring_target (gw_hashRing g) p)) key = Inr res" "ng_Value res \<noteq> []"
  shows "\<exists>lat. fst (handleAPIGet env rq g) = (200, GCacheHit key (ng_Value res) (ng_TTLRemaining res) (ng_Version res) p False lat)"
proof -
  let ?call = "RouteGet (ge_read env) (gw_hashRing g) (gw_healthMonitor g) (ge_monitor2 env) key (gw_failover g)"
  have "primary_reply (ge_read env) (gw_hashRing g) (gw_healthMonitor g) key p = Some res"
    using alive read(1) by (simp add: primary_reply_def)
  then have "fst ?call = Inr (read_result_of (ge_read env) (ring_target (gw_hashRing g) p) (ring_target (gw_hashRing g) p) False
      (route_state (gw_healthMonitor g) p) res)"
    by (simp add: RouteGet_two [OF ring_exact_sorted [OF ring(1)] ring(2)])
  then obtain fo where "?call = (Inr (read_result_of (ge_read env) (ring_target (gw_hashRing g) p) (ring_target (gw_hashRing g) p) False
      (route_state (gw_healthMonitor g) p) res), fo)" by (metis fst_conv surj_pair)
  then show ?thesis using get read(2) by (simp add: handleAPIGet_def Let_def read_result_of_def)
qed

section \<open>Write-through of trip modifications\<close>

lemma write_through_trip:
  assumes key: "cs_Key req = trip_key n" "0 < n" "n < 2 ^ 63"
    and obj: "gc_object (ge_codec env) (cs_Value req) = Some m" "m ''field_modified'' = Some (VString f)" "f \<noteq> []"
    and v: "v = (case m f of Some x \<Rightarrow> x | None \<Rightarrow> VOther)"
    and db: "db_ok (ge_db env) rows d" "db_view rows d n = Some t" "safe_edit (n, f, v)"
    and json: "gc_marshalTrip (ge_codec env) (CalculateTripCascade t f v) = Some j"
  obtains d' where "write_through env req (Some d) = (Some (CalculateTripCascade t f v), req\<lparr>cs_Value := j\<rparr>, Some d')"
    "db_ok (ge_db env) rows d'" "db_view rows d' = (db_view rows d)(n \<mapsto> CalculateTripCascade t f v)"
proof -
  obtain res lat d' where up: "db_UpdateTripField (ge_db env) n f v d = ((res, lat), d')" by (metis prod.exhaust)
  have env: "(ge_db env)\<lparr>de_clock := de_clock (ge_db env)\<rparr> = ge_db env" by simp
  note laws = dbi.update_found [OF db, where e = "de_clock (ge_db env)", unfolded env up]
    dbi.update_view [OF db(1,3), where e = "de_clock (ge_db env)", unfolded env up]
  have "write_through env req (Some d) = (Some (CalculateTripCascade t f v), req\<lparr>cs_Value := j\<rparr>, Some d')"
    using laws(1) json key(2) row_of_trip_key [of n] key(3) by (simp add: write_through_def key(1) obj v [symmetric] up)
  moreover have "db_ok (ge_db env) rows d'" "db_view rows d' = (db_view rows d)(n \<mapsto> CalculateTripCascade t f v)"
    using laws(2) db(2) by (simp_all add: spec_edit_def)
  ultimately show ?thesis by (rule that)
qed

text \<open>C15. Modifying a field of a stored trip through \<^verbatim>\<open>POST /api/set\<close>: the database row becomes the record the cascade gives,
  every body sent to a cache node (to the primary, as a fallback and to the second owner) encodes that same record, and
  an acknowledgement returns it. The database is updated whether or not a node could be reached: a 502 answer leaves it modified.\<close>

theorem gateway_write_through:
  assumes req: "gq_method rq = ''POST''" "gc_set (ge_codec env) (gq_body rq) = Some req" "cs_Key req = trip_key n" "0 < n" "n < 2 ^ 63"
    and obj: "gc_object (ge_codec env) (cs_Value req) = Some m" "m ''field_modified'' = Some (VString f)" "f \<noteq> []"
    and v: "v = (case m f of Some x \<Rightarrow> x | None \<Rightarrow> VOther)"
    and db: "gw_db g = Some d" "db_ok (ge_db env) rows d" "db_view rows d n = Some t" "safe_edit (n, f, v)"
    and json: "gc_marshalTrip (ge_codec env) (CalculateTripCascade t f v) = Some j"
    and ring: "ring_exact (gw_hashRing g)" "prefs (gw_hashRing g) (trip_key n) = p # q # rest"
    and pay: "gc_marshalSet (ge_codec env) (req\<lparr>cs_Value := j\<rparr>) = Inr body"
    and run: "handleAPISet env rq g = (reply, posts, async, g')"
  shows "(\<exists>d'. gw_db g' = Some d' \<and> db_ok (ge_db env) rows d' \<and> db_view rows d' = (db_view rows d)(n \<mapsto> CalculateTripCascade t f v))
    \<and> (\<forall>x\<in>set posts. snd x = body) \<and> (\<forall>x\<in>set async. \<exists>a. x = AsyncReplicate a body)
    \<and> (fst reply = 200 \<longrightarrow> (\<exists>srv fo. reply = (200, GStored (trip_key n) j (Some (CalculateTripCascade t f v)) True srv fo)))"
proof -
  obtain d' where d': "write_through env req (Some d) = (Some (CalculateTripCascade t f v), req\<lparr>cs_Value := j\<rparr>, Some d')"
    "db_ok (ge_db env) rows d'" "db_view rows d' = (db_view rows d)(n \<mapsto> CalculateTripCascade t f v)"
    by (rule write_through_trip [OF req(3-5) obj v db(2-4) json])
  have key: "cs_Key req \<noteq> []" "prefs (gw_hashRing g) (cs_Key (req\<lparr>cs_Value := j\<rparr>)) = p # q # rest"
    using ring(2) by (simp_all add: req(3) trip_key_def)
  note eq = handleAPISet_two [OF req(1,2) key(1) d'(1) [folded db(1)] ring(1) key(2) pay refl refl, unfolded run]
  from eq have "gw_db g' = Some d'" "\<forall>x\<in>set posts. snd x = body" "\<forall>x\<in>set async. \<exists>a. x = AsyncReplicate a body"
    by (auto split: sum.splits if_splits)
  moreover have "\<exists>srv fo. reply = (200, GStored (trip_key n) j (Some (CalculateTripCascade t f v)) True srv fo)" if "fst reply = 200"
    using eq that by (auto simp: gw_stored_def client_error_def req(3) split: sum.splits if_splits)
  ultimately show ?thesis using d' by blast
qed

lemma trip_key_7: "trip_key 7 = ''trip:7''"
  by (simp add: trip_key_def itoa_def nat_digits.simps [of 7] digit_char_def char_of_def bit_simps)

lemma demo_trip_prefs: "prefs demo_ring (trip_key 7) = [''A'', ''BB'', ''CCC'']"
  by (simp add: trip_key_7 demo_ring_eq prefs_def clockwise_def demo_hash_def gm_get_def)

abbreviation demo_set_7 :: client_set_request where
  "demo_set_7 \<equiv> \<lparr>cs_Key = trip_key 7, cs_Value = ''{...}'', cs_TTLSeconds = 60\<rparr>"

theorem gateway_write_through_witness:
  "let g' = snd (snd (snd (handleAPISet (demo_gw_env demo_set_7 (\<lambda>n. False) demo_read_env) (demo_gw_request ''POST'' []) demo_gw)))
   in \<exists>d'. gw_db g' = Some d' \<and> db_view mem_rows d' 7 = Some (CalculateTripCascade (trip_of_row 7 demo_row) ''tip_amount'' (VInt 3))"
proof -
  let ?e = "demo_gw_env demo_set_7 (\<lambda>n. False) demo_read_env" and ?q = "demo_gw_request ''POST'' []"
  let ?t = "CalculateTripCascade (trip_of_row 7 demo_row) ''tip_amount'' (VInt 3)"
  obtain reply posts async g' where run: "handleAPISet ?e ?q demo_gw = (reply, posts, async, g')" by (metis prod_cases4)
  have safe: "safe_edit (7, ''tip_amount'', VInt 3)" by (simp add: safe_edit_def)
  have "finite_trip (trip_of_row 7 demo_row)" by (simp add: demo_row_def trip_of_row_def finite_trip_def)
  then have fin: "finite_trip ?t" by (rule safe_edit_finite [OF safe])
  have q: "gq_method ?q = ''POST''" "gc_set (ge_codec ?e) (gq_body ?q) = Some demo_set_7" "cs_Key demo_set_7 = trip_key 7"
    by (simp_all add: demo_gw_request_def demo_gw_env_def)
  have obj: "gc_object (ge_codec ?e) (cs_Value demo_set_7) =
      Some (\<lambda>f. if f = ''field_modified'' then Some (VString ''tip_amount'') else if f = ''tip_amount'' then Some (VInt 3) else None)"
    by (simp add: demo_gw_env_def)
  have db: "db_ok (ge_db ?e) mem_rows demo_db" "db_view mem_rows demo_db 7 = Some (trip_of_row 7 demo_row)"
    using demo_db_ok by (simp_all add: demo_gw_env_def demo_db_view)
  have json: "gc_marshalTrip (ge_codec ?e) ?t = Some (tt_TripID ?t)" using fin by (simp add: demo_gw_env_def)
  have pay: "gc_marshalSet (ge_codec ?e) (demo_set_7\<lparr>cs_Value := tt_TripID ?t\<rparr>) = Inr (trip_key 7 @ '' '' @ tt_TripID ?t)"
    by (simp add: demo_gw_env_def)
  show ?thesis
    using gateway_write_through [OF q _ _ obj _ _ _ demo_gw_simps(3) db safe json _ _ pay run] by (auto simp: run demo_ring_exact demo_trip_prefs)
qed

section \<open>Cache-aside reads\<close>

text \<open>What a routed read makes of the cache: a value, or a miss (no reply, or an empty value).\<close>

definition gw_cached :: "('l, 'c) gw_env \<Rightarrow> string \<Rightarrow> ('l, 'c) gateway \<Rightarrow> read_result option" where
  "gw_cached env key g =
     (case fst (RouteGet (ge_read env) (gw_hashRing g) (gw_healthMonitor g) (ge_monitor2 env) key (gw_failover g)) of
        Inr rr \<Rightarrow> if rr_Value rr = [] then None else Some rr
      | Inl _ \<Rightarrow> None)"

lemma db_query_cases:
  assumes "db_ok env rows d"
  shows "(case db_view rows d n of Some t \<Rightarrow> fst (fst (db_QueryTripByID env n d)) = Inr t | None \<Rightarrow> isl (fst (fst (db_QueryTripByID env n d))))
    \<and> db_ok env rows (snd (db_QueryTripByID env n d)) \<and> db_view rows (snd (db_QueryTripByID env n d)) = db_view rows d"
proof -
  have env: "env\<lparr>de_clock := de_clock env\<rparr> = env" by simp
  show ?thesis
    using dbi.query_found [OF assms, where e = "de_clock env", unfolded env] dbi.query_missing [OF assms, where e = "de_clock env", unfolded env]
      dbi.query_keeps [OF assms, where e = "de_clock env", unfolded env] by (auto simp: isl_def split: option.split)
qed

text \<open>C16. Reading a trip (\<^verbatim>\<open>GET /api/trip\<close>): a cached value is served as it is and the database is not asked; on a miss, the
  record of the database is served, and it is sent, encoded, to both owners of the key for ten minutes (the README says three); when the
  database has no such row the answer is 404 and nothing is cached. The database is not changed.\<close>

theorem gateway_trip_read_through:
  assumes get: "gq_method rq = ''GET''" and n: "n = trip_row_of_query rq"
    and db: "gw_db g = Some d" "db_ok (ge_db env) rows d"
    and ring: "ring_exact (gw_hashRing g)" "prefs (gw_hashRing g) (trip_key n) = p # q # rest"
      "nt_Addr (ring_target (gw_hashRing g) p) \<noteq> []" "nt_Addr (ring_target (gw_hashRing g) q) \<noteq> []"
    and json: "\<And>t. db_view rows d n = Some t \<Longrightarrow> gc_marshalTrip (ge_codec env) t = Some (json t)"
    and run: "handleAPITrip env rq g = (reply, posts, async, g')"
  shows "case gw_cached env (trip_key n) g of
      Some rr \<Rightarrow> gw_db g' = gw_db g \<and> posts = [] \<and> fst reply = 200
        \<and> (\<exists>lat obj. snd reply = GTripHit lat (rr_ServedBy rr) (rr_IsFailover rr) obj \<and> obj \<in> {TripJSON (rr_Value rr), TripText (rr_Value rr)})
    | None \<Rightarrow> (\<exists>d'. gw_db g' = Some d' \<and> db_ok (ge_db env) rows d' \<and> db_view rows d' = db_view rows d)
        \<and> (case db_view rows d n of
             Some t \<Rightarrow> (\<exists>lat dblat. reply = (200, GTripDatabase lat dblat t))
               \<and> posts = [(set_url (nt_Addr (ring_target (gw_hashRing g) p)), hydrate_body (ge_codec env) (trip_key n) (json t) 600),
                          (set_url (nt_Addr (ring_target (gw_hashRing g) q)), hydrate_body (ge_codec env) (trip_key n) (json t) 600)]
           | None \<Rightarrow> (\<exists>err. reply = (404, GNotFound err)) \<and> posts = [])"
proof -
  obtain res fo where rt: "RouteGet (ge_read env) (gw_hashRing g) (gw_healthMonitor g) (ge_monitor2 env) (trip_key n) (gw_failover g) = (res, fo)"
    by fastforce
  obtain found lat d' where qy: "db_QueryTripByID (ge_db env) n d = ((found, lat), d')" by (metis prod.exhaust)
  note law = db_query_cases [OF db(2), of n, unfolded qy]
  show ?thesis
  proof (cases "gw_cached env (trip_key n) g")
    case (Some rr)
    then have "res = Inr rr" "rr_Value rr \<noteq> []" by (simp_all add: gw_cached_def rt split: sum.splits if_splits)
    then show ?thesis using run Some by (auto simp: handleAPITrip_def get n [symmetric] rt Let_def)
  next
    case None
    then have miss: "(\<exists>e. res = Inl e) \<or> (\<exists>rr. res = Inr rr \<and> rr_Value rr = [])" by (auto simp: gw_cached_def rt split: sum.splits if_splits)
    show ?thesis
    proof (cases "db_view rows d n")
      case (Some t)
      with law have "found = Inr t" by simp
      with miss run json [OF Some] ring have
        "reply = (200, GTripDatabase (dur_Milliseconds (time_sub (ge_end env) (ge_start env))) (dur_Milliseconds lat) t)"
        "posts = hydrate_posts (ge_codec env) (gw_hashRing g) (trip_key n) (json t)" "gw_db g' = Some d'"
        by (auto simp: handleAPITrip_def get n [symmetric] rt Let_def db(1) qy)
      then show ?thesis using law None Some ring by (auto simp: hydrate_posts_def gw_two_nodes)
    next
      case missing: None
      with law obtain err where "found = Inl err" by (auto simp: isl_def)
      with miss run have "reply = (404, GNotFound err)" "posts = []" "gw_db g' = Some d'"
        by (auto simp: handleAPITrip_def get n [symmetric] rt Let_def db(1) qy)
      then show ?thesis using law None missing by auto
    qed
  qed
qed

definition silent_read_env :: read_env where
  "silent_read_env = demo_read_env\<lparr>fe_do := \<lambda>_ _. Inl ''refused''\<rparr>"

lemma silent_read: "readFromNode silent_read_env n a k = Inl (ReadErr ''refused'')"
  by (simp add: silent_read_env_def demo_read_env_def readFromNode_def)

lemma silent_miss: "gw_cached (demo_gw_env req up silent_read_env) (trip_key 7) demo_gw = None"
proof -
  have "primary_reply silent_read_env demo_ring demo_idle_monitor (trip_key 7) ''A'' = None"
    "replica_reply silent_read_env demo_ring demo_idle_monitor (trip_key 7) ''BB'' = None"
    by (simp_all add: primary_reply_def replica_reply_def silent_read)
  then show ?thesis
    by (simp add: gw_cached_def demo_gw_env_def RouteGet_two [OF ring_exact_sorted [OF demo_ring_exact] demo_trip_prefs])
qed

theorem gateway_trip_read_through_witness:
  "\<exists>lat dblat. fst (handleAPITrip (demo_gw_env demo_set_7 (\<lambda>n. True) silent_read_env) (demo_gw_request ''GET'' ''trip:7'') demo_gw)
     = (200, GTripDatabase lat dblat (trip_of_row 7 demo_row))"
proof -
  let ?e = "demo_gw_env demo_set_7 (\<lambda>n. True) silent_read_env" and ?q = "demo_gw_request ''GET'' ''trip:7''"
  obtain reply posts async g' where run: "handleAPITrip ?e ?q demo_gw = (reply, posts, async, g')" by (metis prod_cases4)
  have q: "gq_method ?q = ''GET''" "7 = trip_row_of_query ?q"
    using row_of_trip_key [of 7] by (simp_all add: demo_gw_request_def trip_row_of_query_def or_else_def trip_key_7)
  have db: "db_ok (ge_db ?e) mem_rows demo_db" using demo_db_ok by (simp add: demo_gw_env_def)
  have ring: "ring_exact (gw_hashRing demo_gw)" "prefs (gw_hashRing demo_gw) (trip_key 7) = [''A'', ''BB'', ''CCC'']"
    "nt_Addr (ring_target (gw_hashRing demo_gw) ''A'') \<noteq> []" "nt_Addr (ring_target (gw_hashRing demo_gw) ''BB'') \<noteq> []"
    by (simp_all add: demo_ring_exact demo_trip_prefs demo_ring_addrs)
  have json: "gc_marshalTrip (ge_codec ?e) t = Some (tt_TripID t)" if "db_view mem_rows demo_db 7 = Some t" for t
    using that by (auto simp: demo_gw_env_def demo_db_view demo_row_def trip_of_row_def finite_trip_def)
  from gateway_trip_read_through [OF q demo_gw_simps(3) db ring json run] show ?thesis
    unfolding run by (simp add: silent_miss demo_db_view)
qed

section \<open>Where the gateway promises more than it does\<close>

text \<open>A stored empty value reads as a miss: when an owner answers a read with a hit whose value is empty, and the key
  names no row of the database, the gateway reports that the key was not found.\<close>

theorem gateway_empty_value_miss:
  assumes "gq_method rq = ''GET''" "gq_query rq ''key'' = key" "key \<noteq> []" "row_of_key key = None"
    and "fst (RouteGet (ge_read env) (gw_hashRing g) (gw_healthMonitor g) (ge_monitor2 env) key (gw_failover g)) = Inr rr" "rr_Value rr = []"
  shows "fst (handleAPIGet env rq g) = (200, GMiss key (rr_ServedBy rr))"
  using assms by (simp add: handleAPIGet_def Let_def case_prod_unfold db_fallback_def split: option.split)

definition empty_read_env :: read_env where
  "empty_read_env = demo_read_env\<lparr>fe_decode := \<lambda>_. Inr (demo_hit [])\<rparr>"

theorem gateway_empty_value_miss_witness:
  "fst (handleAPIGet (demo_gw_env demo_set_k (\<lambda>n. True) empty_read_env) (demo_gw_request ''GET'' ''k'') demo_gw) = (200, GMiss ''k'' ''BB'')"
proof -
  have "primary_reply empty_read_env demo_ring demo_idle_monitor ''k'' ''A'' = None"
    "replica_reply empty_read_env demo_ring demo_idle_monitor ''k'' ''BB'' = Some (demo_hit [])"
    by (simp_all add: replica_reply_def primary_reply_def demo_idle_states demo_ring_addrs readFromNode_def empty_read_env_def demo_read_env_def demo_hit_def)
  then have "fst (RouteGet empty_read_env demo_ring demo_idle_monitor demo_idle_monitor ''k'' (NewRouter 0))
      = Inr (read_result_of empty_read_env (ring_target demo_ring ''A'') (ring_target demo_ring ''BB'') True (route_state demo_idle_monitor ''A'') (demo_hit []))"
    by (simp add: RouteGet_two [OF ring_exact_sorted [OF demo_ring_exact] demo_ring_prefs])
  then show ?thesis
    using gateway_empty_value_miss [where rq = "demo_gw_request ''GET'' ''k''" and key = "''k''" and g = demo_gw
        and env = "demo_gw_env demo_set_k (\<lambda>n. True) empty_read_env"
        and rr = "read_result_of empty_read_env (ring_target demo_ring ''A'') (ring_target demo_ring ''BB'') True (route_state demo_idle_monitor ''A'') (demo_hit [])"]
    by (simp add: row_of_k demo_gw_request_def read_result_of_def demo_hit_def) (simp add: demo_gw_env_def)
qed

text \<open>C39. Without a database the gateway never makes a record up: a gateway that \<open>New\<close> built always holds a non-nil interface, so
  when the database could not be opened a trip that is not cached is answered with 404 and the message that the database is
  not connected, and the branch that generates a record is not reached.\<close>

theorem gateway_offline_unreachable:
  assumes g: "g = gateway_New clock oenv cfg"
    and failed: "snd (database_Open oenv \<lparr>dc_Driver = [], dc_URL = [], dc_Host = [], dc_Port = 0, dc_User = [], dc_Password = [],
        dc_DBName = [], dc_SSLMode = [], dc_Path = gf_SQLitePath cfg\<rparr>) = Some err"
    and get: "gq_method rq = ''GET''" and miss: "gw_cached env (trip_key (trip_row_of_query rq)) g = None"
  shows "gw_db g \<noteq> None
    \<and> fst (handleAPITrip env rq g) \<in> {(404, GNotFound ''sqlite database not connected''), (404, GNotFound ''postgres database not connected'')}"
proof -
  let ?n = "trip_row_of_query rq"
  obtain d where d: "database_Open oenv \<lparr>dc_Driver = [], dc_URL = [], dc_Host = [], dc_Port = 0, dc_User = [], dc_Password = [],
        dc_DBName = [], dc_SSLMode = [], dc_Path = gf_SQLitePath cfg\<rparr> = (d, Some err)"
    using failed by (metis prod.collapse)
  have path: "gf_SQLitePath (gw_defaults cfg) = gf_SQLitePath cfg" by (simp add: gw_defaults_def)
  have db: "gw_db g = Some d" by (simp add: g gateway_New_def Let_def d path case_prod_unfold)
  have "d = SQLite None \<or> d = Postgres None"
    using d by (auto simp: database_Open_def OpenPostgresDB_def OpenTaxiDB_def Let_def split: if_splits option.splits sum.splits)
  then have q: "fst (fst (db_QueryTripByID (ge_db env) ?n d)) \<in> {Inl ''sqlite database not connected'', Inl ''postgres database not connected''}"
    by (auto simp: db_QueryTripByID_def sqlite_QueryTripByID_def postgres_QueryTripByID_def)
  obtain res fo where rt: "RouteGet (ge_read env) (gw_hashRing g) (gw_healthMonitor g) (ge_monitor2 env) (trip_key ?n) (gw_failover g) = (res, fo)"
    by fastforce
  obtain found lat d' where qy: "db_QueryTripByID (ge_db env) ?n d = ((found, lat), d')" by (metis prod.exhaust)
  have "(\<exists>e. res = Inl e) \<or> (\<exists>rr. res = Inr rr \<and> rr_Value rr = [])" using miss by (auto simp: gw_cached_def rt split: sum.splits if_splits)
  then show ?thesis using q by (auto simp: handleAPITrip_def get rt Let_def db qy)
qed

definition no_files :: "(int, trip_row) gomap open_env" where
  "no_files = \<lparr>oe_getenv = (\<lambda>_. []), oe_stat = (\<lambda>_. False), oe_open = (\<lambda>_ _. Inr [])\<rparr>"

theorem gateway_offline_unreachable_witness:
  "fst (handleAPITrip (demo_gw_env demo_set_7 (\<lambda>n. True) silent_read_env) (demo_gw_request ''GET'' ''trip:7'')
      (gateway_New (\<lambda>_. 0) no_files (gw_config demo_gw)))
     \<in> {(404, GNotFound ''sqlite database not connected''), (404, GNotFound ''postgres database not connected'')}"
proof -
  let ?g = "gateway_New (\<lambda>_. 0) no_files (gw_config demo_gw) :: (string, (int, trip_row) gomap) gateway"
  have cfg: "gf_SQLitePath (gw_config demo_gw) = []" "gf_Nodes (gw_config demo_gw) = []" by (simp_all add: demo_gw_def gw_defaults_def)
  have "hr_ring (gw_hashRing ?g) = []"
    by (simp add: gateway_New_def Let_def case_prod_unfold) (simp add: gw_defaults_def cfg(2) ring_New_def)
  then have miss: "gw_cached env k ?g = None" for env k
    by (simp add: gw_cached_def RouteGet_def ring_GetNodes_def Let_def)
  have open_err: "snd (database_Open no_files \<lparr>dc_Driver = [], dc_URL = [], dc_Host = [], dc_Port = 0, dc_User = [], dc_Password = [],
        dc_DBName = [], dc_SSLMode = [], dc_Path = gf_SQLitePath (gw_config demo_gw)\<rparr>) = Some ''could not find 2019-01.sqlite database file''"
    by (simp add: cfg database_Open_def no_files_def postgres_url_def or_else_def OpenTaxiDB_def find_None_iff Let_def split: option.split)
  show ?thesis
    by (rule gateway_offline_unreachable [OF refl open_err _ miss, THEN conjunct2]) (simp add: demo_gw_request_def)
qed

text \<open>A delete through the gateway is acknowledged whatever the nodes did: with a non-empty key and ring and requests that can be
  built, the answer is 200 \<^verbatim>\<open>deleted\<close>, served by the primary, also when both exchanges failed or the nodes refused; the second
  owner is asked only when the exchange with the primary failed.\<close>

theorem gateway_delete_always_acknowledged:
  assumes "gq_method rq = ''DELETE''" "gq_query rq ''key'' = key" "key \<noteq> []"
    and ring: "ring_exact (gw_hashRing g)" "prefs (gw_hashRing g) key = p # q # rest"
    and "\<And>u. ge_newRequest env u"
  shows "(\<exists>cr. fst (handleAPIDelete env rq g) = (200, GClient cr) \<and> cr_Status cr = ''deleted'' \<and> cr_ServedBy cr = p)
    \<and> snd (handleAPIDelete env rq g) =
       (let url = (\<lambda>n. nt_Addr (ring_target (gw_hashRing g) n) @ ''/delete?key='' @ key)
        in if isl (ge_delete env 0 (url p)) then [url p, url q] else [url p])"
  using assms gw_two_nodes [OF ring]
  by (cases "ge_delete env 0 (nt_Addr (ring_target (gw_hashRing g) p) @ ''/delete?key='' @ key)") (simp_all add: handleAPIDelete_def Let_def)

theorem gateway_delete_always_acknowledged_witness:
  "\<exists>cr. fst (handleAPIDelete (demo_gw_env demo_set_k (\<lambda>n. True) silent_read_env) (demo_gw_request ''DELETE'' ''k'') demo_gw) = (200, GClient cr)
     \<and> cr_Status cr = ''deleted'' \<and> cr_ServedBy cr = ''A''"
  using gateway_delete_always_acknowledged [of "demo_gw_request ''DELETE'' ''k''" "''k''" demo_gw "''A''" "''BB''" "[''CCC'']"
      "demo_gw_env demo_set_k (\<lambda>n. True) silent_read_env"]
  by (simp add: demo_ring_exact demo_ring_prefs demo_gw_request_def) (simp add: demo_gw_env_def)

section \<open>Invariant\<close>

text \<open>The parts of a gateway that serve requests.\<close>

definition gw_inv :: "('l, 'c) gateway \<Rightarrow> bool" where
  "gw_inv g \<longleftrightarrow> ring_wf (gw_hashRing g) \<and> mon_wf (gw_healthMonitor g) \<and> gw_db g \<noteq> None
     \<and> fr_totalRouted (gw_failover g) = fr_directHits (gw_failover g) + fr_failoverHits (gw_failover g) + fr_failures (gw_failover g)"

lemma write_through_keeps: "d \<noteq> None \<Longrightarrow> snd (snd (write_through env req d)) \<noteq> None"
  by (auto simp: write_through_def Let_def split: option.splits iface.splits sum.splits prod.splits)

lemma handleAPISet_frame: "\<exists>req. snd (snd (snd (handleAPISet env q g))) \<in> {g, g\<lparr>gw_db := snd (snd (write_through env req (gw_db g)))\<rparr>}"
  by (simp add: handleAPISet_def Let_def case_prod_unfold split: option.split) blast

lemma db_fallback_frame: "\<exists>d. snd (snd (snd (db_fallback env key missed g))) \<in> {g, g\<lparr>gw_db := Some d\<rparr>}"
  by (simp add: db_fallback_def Let_def case_prod_unfold split: option.split sum.split) blast

lemma handleAPIGet_frame:
  "\<exists>d key. snd (snd (snd (handleAPIGet env q g))) \<in> {g, g\<lparr>gw_failover := snd (RouteGet (ge_read env) (gw_hashRing g) (gw_healthMonitor g) (ge_monitor2 env) key (gw_failover g))\<rparr>,
     g\<lparr>gw_failover := snd (RouteGet (ge_read env) (gw_hashRing g) (gw_healthMonitor g) (ge_monitor2 env) key (gw_failover g)), gw_db := Some d\<rparr>}"
proof -
  let ?key = "gq_query q ''key''"
  obtain res fo where rt: "RouteGet (ge_read env) (gw_hashRing g) (gw_healthMonitor g) (ge_monitor2 env) ?key (gw_failover g) = (res, fo)" by fastforce
  obtain d where d: "snd (snd (snd (db_fallback env ?key m (g\<lparr>gw_failover := fo\<rparr>)))) \<in> {g\<lparr>gw_failover := fo\<rparr>, g\<lparr>gw_failover := fo, gw_db := Some d\<rparr>}"
    if "m = (200, GMiss ?key (case res of Inr rr \<Rightarrow> rr_ServedBy rr | Inl _ \<Rightarrow> []))" for m
    using db_fallback_frame by metis
  show ?thesis
    by (rule exI [of _ d], rule exI [of _ ?key]) (use d rt in \<open>auto simp: handleAPIGet_def Let_def split: sum.split\<close>)
qed

lemma handleAPITrip_frame:
  "\<exists>d key. snd (snd (snd (handleAPITrip env q g))) \<in> {g, g\<lparr>gw_failover := snd (RouteGet (ge_read env) (gw_hashRing g) (gw_healthMonitor g) (ge_monitor2 env) key (gw_failover g))\<rparr>,
     g\<lparr>gw_failover := snd (RouteGet (ge_read env) (gw_hashRing g) (gw_healthMonitor g) (ge_monitor2 env) key (gw_failover g)), gw_db := Some d\<rparr>}"
proof -
  let ?key = "trip_key (trip_row_of_query q)"
  obtain res fo where rt: "RouteGet (ge_read env) (gw_hashRing g) (gw_healthMonitor g) (ge_monitor2 env) ?key (gw_failover g) = (res, fo)" by fastforce
  show ?thesis
  proof (cases "gw_db g")
    case None
    then show ?thesis
      by (intro exI [of _ undefined] exI [of _ ?key]) (simp add: handleAPITrip_def Let_def rt split: sum.split)
  next
    case (Some d)
    then show ?thesis
      by (intro exI [of _ "snd (db_QueryTripByID (ge_db env) (trip_row_of_query q) d)"] exI [of _ ?key])
        (simp add: handleAPITrip_def Let_def rt case_prod_unfold split: sum.split)
  qed
qed

lemma handleAPINodeState_frame:
  "\<exists>nid st. snd (snd (handleAPINodeState env q g)) \<in> {g, g\<lparr>gw_healthMonitor := snd (snd (SetNodeStateManual (ge_now env) nid st (gw_healthMonitor g)))\<rparr>}"
proof (cases "gc_nodeState (ge_codec env) (gq_body q)")
  case (Some p)
  show ?thesis
    by (rule exI [of _ "fst p"], rule exI [of _ "ToUpper (snd p)"])
      (simp add: handleAPINodeState_def Some Let_def case_prod_unfold del: insert_iff, simp)
qed (simp add: handleAPINodeState_def)

lemma gw_inv_db: "gw_inv g \<Longrightarrow> d \<noteq> None \<Longrightarrow> gw_inv (g\<lparr>gw_db := d\<rparr>)"
  by (simp add: gw_inv_def)

lemma gw_inv_db_Some: "gw_inv g \<Longrightarrow> gw_inv (g\<lparr>gw_db := Some d\<rparr>)"
  by (simp add: gw_inv_def)

lemma gw_inv_failover:
  "gw_inv g \<Longrightarrow> gw_inv (g\<lparr>gw_failover := snd (RouteGet env h mon mon' key (gw_failover g))\<rparr>)"
  using RouteGet_counters [of env h mon mon' key "gw_failover g"] by (simp add: gw_inv_def algebra_simps)

lemma gw_inv_monitor:
  "gw_inv g \<Longrightarrow> gw_inv (g\<lparr>gw_healthMonitor := snd (snd (SetNodeStateManual now nid st (gw_healthMonitor g)))\<rparr>)"
  using apply_wf [of "gw_healthMonitor g" "MManual now nid st"] by (simp add: gw_inv_def)

text \<open>What a request leaves of the gateway; \<open>chg\<close> tells whether it may change the membership.\<close>

definition gw_keeps :: "bool \<Rightarrow> ('l, 'c) gateway \<Rightarrow> ('l, 'c) gateway \<Rightarrow> bool" where
  "gw_keeps chg g g' \<longleftrightarrow> gw_inv g' \<and> gw_hashRing g' = gw_hashRing g \<and> gw_config g' = gw_config g
     \<and> (\<not> chg \<longrightarrow> gw_healthMonitor g' = gw_healthMonitor g)"

lemma gw_handlers_keep:
  assumes inv: "gw_inv g"
  shows "gw_keeps chg g (snd (snd (snd (handleAPISet env q g))))" "gw_keeps chg g (snd (snd (snd (handleAPIGet env q g))))"
    "gw_keeps chg g (snd (snd (snd (handleAPITrip env q g))))" "gw_keeps True g (snd (snd (handleAPINodeState env q g)))"
    "gw_keeps chg g g"
proof -
  have db: "gw_db g \<noteq> None" using inv by (simp add: gw_inv_def)
  show "gw_keeps chg g (snd (snd (snd (handleAPISet env q g))))"
    using handleAPISet_frame [of env q g] inv gw_inv_db [OF inv write_through_keeps [OF db]] by (auto simp: gw_keeps_def)
  show "gw_keeps chg g (snd (snd (snd (handleAPIGet env q g))))"
    using handleAPIGet_frame [of env q g] inv gw_inv_failover [OF inv] gw_inv_db_Some [OF gw_inv_failover [OF inv]] by (auto simp: gw_keeps_def)
  show "gw_keeps chg g (snd (snd (snd (handleAPITrip env q g))))"
    using handleAPITrip_frame [of env q g] inv gw_inv_failover [OF inv] gw_inv_db_Some [OF gw_inv_failover [OF inv]] by (auto simp: gw_keeps_def)
  show "gw_keeps True g (snd (snd (handleAPINodeState env q g)))"
    using handleAPINodeState_frame [of env q g] inv gw_inv_monitor [OF inv] by (auto simp: gw_keeps_def)
  show "gw_keeps chg g g" using inv by (simp add: gw_keeps_def)
qed

text \<open>No request can corrupt the gateway: whatever the method, path and body of a request and whatever the nodes and the
  database answer, a well-formed gateway (ring, membership, an open database interface, and a router whose direct hits,
  failovers and failures add up to the reads routed) stays well-formed with the same ring and configuration, and only
  \<^verbatim>\<open>/api/node/state\<close> changes the membership.\<close>

theorem gateway_request_keeps_invariant:
  assumes "gw_inv g"
  shows "gw_keeps (path = ''/api/node/state'') g (snd (snd (snd (gw_enableCORS env path q g))))"
proof -
  have "pred_option (\<lambda>r. gw_keeps (path = ''/api/node/state'') g (snd (snd (snd r)))) (gw_routes env path q g)"
    unfolding gw_routes_def by (simp add: Let_def case_prod_unfold gw_handlers_keep [OF assms])
  then show ?thesis
    using gw_handlers_keep(5) [OF assms] by (cases "gw_routes env path q g") (simp_all add: gw_enableCORS_def)
qed

theorem gateway_request_keeps_invariant_witness:
  "gw_keeps False demo_gw (snd (snd (snd (gw_enableCORS (demo_gw_env demo_set_k (\<lambda>n. True) demo_read_env) ''/api/get'' (demo_gw_request ''GET'' ''k'') demo_gw))))"
proof -
  have "gw_inv demo_gw"
    unfolding gw_inv_def demo_gw_simps demo_idle_monitor_def using demo_ring_wf NewMonitor_alive by (auto simp: NewRouter_def)
  from gateway_request_keeps_invariant [OF this, of "''/api/get''"] show ?thesis by simp
qed

end
