(* ===== verification/Config.thy ===== *)
theory Config
  imports Go_Double Node_Server Gateway
begin

text \<open>
  Configuration from flags and environment (\<^verbatim>\<open>backend/internal/config/config.go\<close>, and the same helpers and the wiring
  of \<^verbatim>\<open>cmd/router/main.go\<close> and \<^verbatim>\<open>cmd/node/main.go\<close>). The environment is the function \<open>getenv\<close>; the command line is a
  record of the flags given, as the \<^verbatim>\<open>flag\<close> package parsed them (\<open>None\<close> for one that was not given).
  \<^verbatim>\<open>time.ParseDuration\<close> is written out; its loop consumes at least one character a round.
\<close>

section \<open>Definitions\<close>

subsection \<open>Durations\<close>

text \<open>\<^verbatim>\<open>leadingInt\<close>: the digits read, or an overflow.\<close>

definition leadingInt :: "string \<Rightarrow> (int \<times> string) option" where
  "leadingInt s =
     (let ds = takeWhile is_digit s; r = dropWhile is_digit s
      in case foldl (\<lambda>x c. case x of
                 None \<Rightarrow> None
               | Some n \<Rightarrow> if 2 ^ 63 div 10 < n then None
                          else let y = n * 10 + (int (code c) - 48) in if 2 ^ 63 < y then None else Some y) (Some 0) ds of
           None \<Rightarrow> None
         | Some n \<Rightarrow> Some (n, r))"

text \<open>\<^verbatim>\<open>leadingFraction\<close>: the digits that fit, and the power of ten they are counted in.\<close>

definition leadingFraction :: "string \<Rightarrow> int \<times> int \<times> string" where
  "leadingFraction s =
     (let (x, scale, _) = foldl (\<lambda>(x, scale, ovf) c.
            if ovf then (x, scale, ovf)
            else if (2 ^ 63 - 1) div 10 < x then (x, scale, True)
            else let y = x * 10 + (int (code c) - 48) in if 2 ^ 63 < y then (x, scale, True) else (y, scale * 10, False))
          (0, 1, False) (takeWhile is_digit s)
      in (x, scale, dropWhile is_digit s))"

definition unit_map :: "string \<Rightarrow> int option" where
  "unit_map u =
     (if u = ''ns'' then Some 1
      else if u = ''us'' \<or> map code u = [194, 181, 115] \<or> map code u = [206, 188, 115] then Some 1000
      else if u = ''ms'' then Some millisecond
      else if u = ''s'' then Some second
      else if u = ''m'' then Some (60 * second)
      else if u = ''h'' then Some (3600 * second)
      else None)"

definition not_unit :: "char \<Rightarrow> bool" where
  "not_unit c \<longleftrightarrow> c = CHR ''.'' \<or> is_digit c"

text \<open>One number with its unit: the nanoseconds and the rest of the string.\<close>

definition read_component :: "string \<Rightarrow> (int \<times> string) option" where
  "read_component s =
     (if s = [] \<or> \<not> not_unit (hd s) then None
      else case leadingInt s of
        None \<Rightarrow> None
      | Some (v, s1) \<Rightarrow>
          let pre = (length s1 \<noteq> length s);
              (f, scale, s2, post) =
                (if s1 \<noteq> [] \<and> hd s1 = CHR ''.''
                 then (let (f, scale, r) = leadingFraction (tl s1) in (f, scale, r, length r \<noteq> length (tl s1))) else (0, 1, s1, False));
              u = takeWhile (\<lambda>c. \<not> not_unit c) s2;
              rest = dropWhile (\<lambda>c. \<not> not_unit c) s2
          in if \<not> pre \<and> \<not> post \<or> u = [] then None
             else case unit_map u of
                    None \<Rightarrow> None
                  | Some un \<Rightarrow>
                      if 2 ^ 63 div un < v then None
                      else let w = (if 0 < f then v * un + int64_of_float (f64 (f64 (of_int f) * f64 (of_int un / of_int scale))) else v * un)
                           in if 2 ^ 63 < w then None else Some (w, rest))"

lemma leadingInt_rest: "leadingInt s = Some (v, r) \<Longrightarrow> r = dropWhile is_digit s"
  by (simp add: leadingInt_def Let_def split: option.splits)

lemma leadingFraction_rest: "snd (snd (leadingFraction s)) = dropWhile is_digit s"
  by (simp add: leadingFraction_def Let_def case_prod_unfold)

lemma drop_unit_less:
  assumes "length s2 \<le> length s" "takeWhile P s2 \<noteq> []"
  shows "length (dropWhile P s2) < length s"
proof -
  have "length (takeWhile P s2) + length (dropWhile P s2) = length s2"
    by (metis length_append takeWhile_dropWhile_id)
  with assms show ?thesis by (cases "takeWhile P s2") auto
qed

lemma read_component_less: "read_component s = Some (w, rest) \<Longrightarrow> length rest < length s"
proof -
  assume r: "read_component s = Some (w, rest)"
  then obtain v s1 where li: "leadingInt s = Some (v, s1)" by (auto simp: read_component_def split: option.splits if_splits)
  have s1: "length s1 \<le> length s" using leadingInt_rest [OF li] by (simp add: length_dropWhile_le)
  obtain f scale r where lf: "leadingFraction (tl s1) = (f, scale, r)" by (metis prod_cases3)
  have "length r \<le> length s"
    using leadingFraction_rest [of "tl s1"] lf length_dropWhile_le [of is_digit "tl s1"] s1 by simp
  then show ?thesis
    using r s1 unfolding read_component_def li
    by (auto simp: Let_def lf split: if_splits option.splits intro: drop_unit_less)
qed

function duration_sum :: "int \<Rightarrow> string \<Rightarrow> int option" where
  "duration_sum d s =
     (if s = [] then Some d
      else case read_component s of
             None \<Rightarrow> None
           | Some (v, r) \<Rightarrow> let d' = (d + v) mod 2 ^ 64 in if 2 ^ 63 < d' then None else duration_sum d' r)"
  by auto
termination
proof (relation "measure (length \<circ> snd)")
  fix d s p v r d'
  assume "s \<noteq> []" "read_component s = Some p" "(v, r) = p"
  then show "((d', r), (d, s)) \<in> measure (length \<circ> snd)" using read_component_less by auto
qed simp

declare duration_sum.simps [simp del]

definition ParseDuration :: "string \<Rightarrow> duration option" where
  "ParseDuration s =
     (let (neg, r) = strip_sign s
      in if r = ''0'' then Some 0
         else if r = [] then None
         else case duration_sum 0 r of
                None \<Rightarrow> None
              | Some d \<Rightarrow> if neg then Some (- d) else if 2 ^ 63 - 1 < d then None else Some d)"

subsection \<open>Environment\<close>

fun getFirstEnv :: "(string \<Rightarrow> string) \<Rightarrow> string list \<Rightarrow> string \<Rightarrow> string" where
  "getFirstEnv getenv [] fallback = fallback"
| "getFirstEnv getenv (k # ks) fallback = (if getenv k \<noteq> [] then getenv k else getFirstEnv getenv ks fallback)"

fun getFirstEnvInt :: "(string \<Rightarrow> string) \<Rightarrow> string list \<Rightarrow> int \<Rightarrow> int" where
  "getFirstEnvInt getenv [] fallback = fallback"
| "getFirstEnvInt getenv (k # ks) fallback =
     (if getenv k \<noteq> [] then (case ParseInt (getenv k) of Some i \<Rightarrow> i | None \<Rightarrow> getFirstEnvInt getenv ks fallback)
      else getFirstEnvInt getenv ks fallback)"

definition getEnv :: "(string \<Rightarrow> string) \<Rightarrow> string \<Rightarrow> string \<Rightarrow> string" where
  "getEnv getenv key fallback = (if getenv key \<noteq> [] then getenv key else fallback)"

definition getEnvInt :: "(string \<Rightarrow> string) \<Rightarrow> string \<Rightarrow> int \<Rightarrow> int" where
  "getEnvInt getenv key fallback =
     (if getenv key \<noteq> [] then (case ParseInt (getenv key) of Some i \<Rightarrow> i | None \<Rightarrow> fallback) else fallback)"

definition getEnvDuration :: "(string \<Rightarrow> string) \<Rightarrow> string \<Rightarrow> duration \<Rightarrow> duration" where
  "getEnvDuration getenv key fallback =
     (if getenv key \<noteq> [] then (case ParseDuration (getenv key) of Some d \<Rightarrow> d | None \<Rightarrow> fallback) else fallback)"

subsection \<open>Lists of nodes\<close>

fun split_char :: "char \<Rightarrow> string \<Rightarrow> string list" where
  "split_char sep [] = [[]]"
| "split_char sep (c # cs) =
     (if c = sep then [] # split_char sep cs
      else case split_char sep cs of p # ps \<Rightarrow> (c # p) # ps | [] \<Rightarrow> [[c]])"

definition parse_list :: "string \<Rightarrow> string list" where
  "parse_list raw =
     (if raw = [] then [] else filter (\<lambda>p. p \<noteq> []) (map TrimSpace (split_char (CHR '','') raw)))"

subsection \<open>Node configuration\<close>

record node_config =
  nc_NodeID :: string
  nc_HostID :: string
  nc_Host :: string
  nc_Port :: int
  nc_Peers :: "string list"
  nc_CleanupInterval :: duration
  nc_PingTimeout :: duration
  nc_HeartbeatInterval :: duration
  nc_SuspectTimeout :: duration
  nc_FailTimeout :: duration
  nc_HotkeyWindow :: duration
  nc_HotkeyThreshold :: u64

record node_flags =
  nf_id :: "string option"
  nf_host_id :: "string option"
  nf_host :: "string option"
  nf_port :: "int option"
  nf_peers :: "string option"
  nf_cleanup :: "duration option"
  nf_ping_timeout :: "duration option"
  nf_heartbeat :: "duration option"
  nf_suspect :: "duration option"
  nf_fail :: "duration option"
  nf_hotkey_window :: "duration option"
  nf_hotkey_threshold :: "u64 option"

definition flag_or :: "'a option \<Rightarrow> 'a \<Rightarrow> 'a" where
  "flag_or f def = (case f of Some x \<Rightarrow> x | None \<Rightarrow> def)"

definition ParseFlags :: "(string \<Rightarrow> string) \<Rightarrow> node_flags \<Rightarrow> node_config" where
  "ParseFlags getenv flags =
     \<lparr>nc_NodeID = flag_or (nf_id flags) (getFirstEnv getenv [''NODE_ID'', ''CACHE_NODE_ID''] ''node-a''),
      nc_HostID = flag_or (nf_host_id flags) (getFirstEnv getenv [''HOST_ID'', ''EC2_HOST_ID''] ''EC2-A''),
      nc_Host = flag_or (nf_host flags) (getFirstEnv getenv [''NODE_ADDRESS'', ''CACHE_HOST''] ''0.0.0.0''),
      nc_Port = flag_or (nf_port flags) (getFirstEnvInt getenv [''PORT'', ''NODE_PORT''] 8001),
      nc_Peers = parse_list (flag_or (nf_peers flags) (getFirstEnv getenv [''PEER_NODES'', ''PEERS'', ''CACHE_PEERS''] [])),
      nc_CleanupInterval = flag_or (nf_cleanup flags) (getEnvDuration getenv ''CLEANUP_INTERVAL'' (1 * second)),
      nc_PingTimeout = flag_or (nf_ping_timeout flags) (getEnvDuration getenv ''PING_TIMEOUT'' (2 * second)),
      nc_HeartbeatInterval = flag_or (nf_heartbeat flags) (getEnvDuration getenv ''HEARTBEAT_INTERVAL'' (1 * second)),
      nc_SuspectTimeout = flag_or (nf_suspect flags) (getEnvDuration getenv ''SUSPECT_TIMEOUT'' (2 * second)),
      nc_FailTimeout = flag_or (nf_fail flags) (getEnvDuration getenv ''FAIL_TIMEOUT'' (4 * second)),
      nc_HotkeyWindow = flag_or (nf_hotkey_window flags) (getEnvDuration getenv ''HOTKEY_WINDOW'' (5 * second)),
      nc_HotkeyThreshold = flag_or (nf_hotkey_threshold flags) (word_of_int (getEnvInt getenv ''HOTKEY_THRESHOLD'' 20))\<rparr>"

text \<open>The server configuration \<^verbatim>\<open>cmd/node\<close> builds; the number of virtual nodes is left at zero.\<close>

definition node_server_config :: "node_config \<Rightarrow> server_config" where
  "node_server_config cfg =
     \<lparr>sc_NodeID = nc_NodeID cfg, sc_Host = nc_Host cfg, sc_Port = nc_Port cfg, sc_Peers = nc_Peers cfg, sc_VNodes = 0,
      sc_HeartbeatInterval = nc_HeartbeatInterval cfg, sc_SuspectTimeout = nc_SuspectTimeout cfg, sc_FailTimeout = nc_FailTimeout cfg,
      sc_HotkeyWindow = nc_HotkeyWindow cfg, sc_HotkeyThreshold = nc_HotkeyThreshold cfg\<rparr>"

subsection \<open>Router configuration\<close>

record router_flags =
  rf_port :: "int option"
  rf_host :: "string option"
  rf_nodes :: "string option"
  rf_vnodes :: "int option"
  rf_heartbeat :: "duration option"
  rf_suspect :: "duration option"
  rf_fail :: "duration option"
  rf_timeout :: "duration option"

definition default_nodes :: string where
  "default_nodes =
     ''node-a=http://127.0.0.1:8001,node-b=http://127.0.0.1:8002,node-c=http://127.0.0.1:8003,'' @
     ''node-d=http://127.0.0.1:8004,node-e=http://127.0.0.1:8005,node-f=http://127.0.0.1:8006,'' @
     ''node-g=http://127.0.0.1:8007,node-h=http://127.0.0.1:8008,node-i=http://127.0.0.1:8009''"

text \<open>\<^verbatim>\<open>cmd/router\<close> has its own copies of the functions that read the environment.\<close>

fun router_getFirstEnv :: "(string \<Rightarrow> string) \<Rightarrow> string list \<Rightarrow> string \<Rightarrow> string" where
  "router_getFirstEnv getenv [] fallback = fallback"
| "router_getFirstEnv getenv (k # ks) fallback = (if getenv k \<noteq> [] then getenv k else router_getFirstEnv getenv ks fallback)"

fun router_getFirstEnvInt :: "(string \<Rightarrow> string) \<Rightarrow> string list \<Rightarrow> int \<Rightarrow> int" where
  "router_getFirstEnvInt getenv [] fallback = fallback"
| "router_getFirstEnvInt getenv (k # ks) fallback =
     (if getenv k \<noteq> [] then (case ParseInt (getenv k) of Some i \<Rightarrow> i | None \<Rightarrow> router_getFirstEnvInt getenv ks fallback)
      else router_getFirstEnvInt getenv ks fallback)"

definition router_getEnv :: "(string \<Rightarrow> string) \<Rightarrow> string \<Rightarrow> string \<Rightarrow> string" where
  "router_getEnv getenv key fallback = (if getenv key \<noteq> [] then getenv key else fallback)"

definition router_getEnvInt :: "(string \<Rightarrow> string) \<Rightarrow> string \<Rightarrow> int \<Rightarrow> int" where
  "router_getEnvInt getenv key fallback =
     (if getenv key \<noteq> [] then (case ParseInt (getenv key) of Some i \<Rightarrow> i | None \<Rightarrow> fallback) else fallback)"

definition router_getEnvDuration :: "(string \<Rightarrow> string) \<Rightarrow> string \<Rightarrow> duration \<Rightarrow> duration" where
  "router_getEnvDuration getenv key fallback =
     (if getenv key \<noteq> [] then (case ParseDuration (getenv key) of Some d \<Rightarrow> d | None \<Rightarrow> fallback) else fallback)"

text \<open>The copies agree with those of the node.\<close>

lemma router_getenv [simp]:
  "router_getFirstEnv getenv ks s = getFirstEnv getenv ks s" "router_getFirstEnvInt getenv ks i = getFirstEnvInt getenv ks i"
  "router_getEnv = getEnv" "router_getEnvInt = getEnvInt" "router_getEnvDuration = getEnvDuration"
proof -
  show "router_getFirstEnv getenv ks s = getFirstEnv getenv ks s" by (induction ks) simp_all
  show "router_getFirstEnvInt getenv ks i = getFirstEnvInt getenv ks i" by (induction ks) (simp_all split: option.split)
qed (simp_all add: fun_eq_iff router_getEnv_def getEnv_def router_getEnvInt_def getEnvInt_def router_getEnvDuration_def getEnvDuration_def)

definition router_gateway_config :: "(string \<Rightarrow> string) \<Rightarrow> router_flags \<Rightarrow> gw_config" where
  "router_gateway_config getenv flags =
     \<lparr>gf_Port = flag_or (rf_port flags) (router_getFirstEnvInt getenv [''ROUTER_PORT'', ''PORT''] 8000),
      gf_Host = flag_or (rf_host flags) (router_getFirstEnv getenv [''ROUTER_HOST'', ''HOST''] ''0.0.0.0''),
      gf_Nodes = parse_list (flag_or (rf_nodes flags) (router_getFirstEnv getenv [''GATEWAY_NODES'', ''CACHE_NODES'', ''ALL_CACHE_NODES''] default_nodes)),
      gf_VNodes = flag_or (rf_vnodes flags) (router_getEnvInt getenv ''VNODES'' 50),
      gf_HeartbeatInterval = flag_or (rf_heartbeat flags) (router_getEnvDuration getenv ''HEARTBEAT_INTERVAL'' (500 * millisecond)),
      gf_SuspectTimeout = flag_or (rf_suspect flags) (router_getEnvDuration getenv ''SUSPECT_TIMEOUT'' (1 * second)),
      gf_FailTimeout = flag_or (rf_fail flags) (router_getEnvDuration getenv ''FAIL_TIMEOUT'' (2 * second)),
      gf_RequestTimeout = flag_or (rf_timeout flags) (router_getEnvDuration getenv ''REQUEST_TIMEOUT'' (2 * second)),
      gf_SQLitePath = []\<rparr>"

section \<open>Reading back\<close>

lemma foldl_leading:
  assumes "0 \<le> n" "list_all is_digit ds" "foldl (\<lambda>n c. n * 10 + (int (code c) - 48)) n ds \<le> 2 ^ 63 div 10"
  shows "foldl (\<lambda>x c. case x of
                 None \<Rightarrow> None
               | Some n \<Rightarrow> if 2 ^ 63 div 10 < n then None
                          else let y = n * 10 + (int (code c) - 48) in if 2 ^ 63 < y then None else Some y) (Some n) ds
    = Some (foldl (\<lambda>n c. n * 10 + (int (code c) - 48)) n ds)"
  using assms
proof (induction ds arbitrary: n)
  case (Cons c ds)
  let ?y = "n * 10 + (int (code c) - 48)"
  have c: "0 \<le> int (code c) - 48" using Cons.prems(2) by (simp add: is_digit_def)
  have up: "m \<le> foldl (\<lambda>n c. n * 10 + (int (code c) - 48)) m cs" if "0 \<le> m" "list_all is_digit cs" for m cs
    using that
  proof (induction cs arbitrary: m)
    case (Cons d cs)
    have "0 \<le> int (code d) - 48" using Cons.prems(2) by (simp add: is_digit_def)
    then have "m \<le> m * 10 + (int (code d) - 48)" using Cons.prems(1) by simp
    also have "\<dots> \<le> foldl (\<lambda>n c. n * 10 + (int (code c) - 48)) (m * 10 + (int (code d) - 48)) cs"
      using Cons.IH [of "m * 10 + (int (code d) - 48)"] Cons.prems \<open>0 \<le> int (code d) - 48\<close> by simp
    finally show ?case by simp
  qed simp
  have "?y \<le> 2 ^ 63 div 10" using up [of ?y ds] Cons.prems c by simp
  moreover have "n \<le> ?y" using Cons.prems(1) c by simp
  ultimately show ?case using Cons.IH [of ?y] Cons.prems c by simp
qed simp

lemma takeWhile_digits: "list_all is_digit ds \<Longrightarrow> \<not> is_digit c \<Longrightarrow> takeWhile is_digit (ds @ c # r) = ds \<and> dropWhile is_digit (ds @ c # r) = c # r"
  by (induction ds) auto

lemma duration_sum_Nil [simp]: "duration_sum d [] = Some d"
  by (simp add: duration_sum.simps)

lemma read_seconds:
  assumes "0 \<le> n" "n \<le> 9223372036"
  shows "read_component (itoa n @ ''s'') = Some (n * second, [])"
proof -
  note digits = nat_digits_props [of "nat n"]
  have it: "itoa n = nat_digits (nat n)" using assms by (simp add: itoa_def)
  have hd: "not_unit (hd (itoa n @ ''s''))" using digits by (cases "nat_digits (nat n)") (auto simp: it not_unit_def)
  have tw: "takeWhile is_digit (itoa n @ ''s'') = itoa n" "dropWhile is_digit (itoa n @ ''s'') = ''s''"
    using takeWhile_digits [of "itoa n" "CHR ''s''" "[]"] digits by (auto simp: it is_digit_def)
  have "foldl (\<lambda>n c. n * 10 + (int (code c) - 48)) 0 (itoa n) = n" using digits assms(1) by (simp add: it digits_value_def)
  then have li: "leadingInt (itoa n @ ''s'') = Some (n, ''s'')"
    using foldl_leading [of 0 "itoa n"] digits assms unfolding leadingInt_def tw by (simp add: it)
  have u: "takeWhile (\<lambda>c. \<not> not_unit c) ''s'' = ''s''" "dropWhile (\<lambda>c. \<not> not_unit c) ''s'' = []" "unit_map ''s'' = Some second"
    by (simp_all add: not_unit_def is_digit_def unit_map_def)
  have "itoa n \<noteq> []" using digits by (auto simp: it)
  with hd assms show ?thesis by (simp add: read_component_def li u Let_def del: takeWhile.simps dropWhile.simps)
qed

text \<open>A whole number of seconds in an environment variable is read exactly: \<^verbatim>\<open>SUSPECT_TIMEOUT=4s\<close> gives four
  seconds, up to the largest duration there is.\<close>

theorem config_seconds_roundtrip:
  assumes "0 \<le> n" "n \<le> 9223372036" "getenv key = itoa n @ ''s''"
  shows "getEnvDuration getenv key fallback = n * second"
proof -
  have "list_all is_digit (itoa n)" using nat_digits_props [of "nat n"] assms(1) by (simp add: itoa_def)
  moreover have ne: "itoa n \<noteq> []" using assms(1) by (simp add: itoa_def)
  ultimately have "strip_sign (itoa n @ ''s'') = (False, itoa n @ ''s'')"
    by (cases "itoa n") (auto simp: strip_sign_def is_digit_def)
  moreover have "itoa n @ ''s'' \<noteq> ''0''" by (cases "itoa n") auto
  moreover have "duration_sum 0 (itoa n @ ''s'') = Some (n * second)"
    using read_seconds [OF assms(1,2)] assms by (subst duration_sum.simps) (simp add: Let_def)
  ultimately show ?thesis using assms by (simp add: getEnvDuration_def ParseDuration_def)
qed

theorem config_seconds_roundtrip_witness:
  "getEnvDuration (\<lambda>k. if k = ''FAIL_TIMEOUT'' then ''12s'' else []) ''FAIL_TIMEOUT'' (4 * second) = 12 * second"
proof -
  have "itoa 12 = ''12''" by (simp add: itoa_def nat_digits.simps [of 12] nat_digits.simps [of "Suc 0"] digit_char_def char_of_def bit_simps)
  then show ?thesis by (intro config_seconds_roundtrip) simp_all
qed

text \<open>The list a setting stands for.\<close>

fun join_char :: "char \<Rightarrow> string list \<Rightarrow> string" where
  "join_char sep [] = []"
| "join_char sep [p] = p"
| "join_char sep (p # q # ps) = p @ sep # join_char sep (q # ps)"

lemma split_char_nosep: "sep \<notin> set p \<Longrightarrow> split_char sep p = [p]"
  by (induction p) auto

lemma split_char_append: "sep \<notin> set p \<Longrightarrow> split_char sep (p @ sep # r) = p # split_char sep r"
  by (induction p) auto

lemma split_join: "ps \<noteq> [] \<Longrightarrow> \<forall>p\<in>set ps. sep \<notin> set p \<Longrightarrow> split_char sep (join_char sep ps) = ps"
  by (induction sep ps rule: join_char.induct) (simp_all add: split_char_nosep split_char_append)

text \<open>A comma-separated list of peers is read back as written, in order: for entries without commas or surrounding white
  space and not empty, the list of the configuration is the list that was joined.\<close>

theorem config_peers_roundtrip:
  assumes "\<forall>p\<in>set ps. p \<noteq> [] \<and> CHR '','' \<notin> set p \<and> TrimSpace p = p" and "nf_peers flags = Some (join_char (CHR '','') ps)"
  shows "nc_Peers (ParseFlags getenv flags) = ps"
proof (cases "ps = []")
  case False
  have "join_char (CHR '','') ps \<noteq> []" using False assms(1) by (cases ps; cases "tl ps") auto
  moreover have "map TrimSpace ps = ps" using assms(1) by (intro map_idI) blast
  moreover have "filter (\<lambda>p. p \<noteq> []) ps = ps" using assms(1) by (intro filter_True) blast
  ultimately show ?thesis using assms split_join [OF False, of "CHR '',''"] by (simp add: ParseFlags_def flag_or_def parse_list_def)
qed (simp add: ParseFlags_def flag_or_def parse_list_def assms)

definition demo_flags :: node_flags where
  "demo_flags = \<lparr>nf_id = None, nf_host_id = None, nf_host = None, nf_port = None, nf_peers = Some ''b=http://b,c=http://c'', nf_cleanup = None,
     nf_ping_timeout = None, nf_heartbeat = None, nf_suspect = None, nf_fail = None, nf_hotkey_window = None, nf_hotkey_threshold = None\<rparr>"

theorem config_peers_roundtrip_witness:
  "nc_Peers (ParseFlags (\<lambda>_. []) demo_flags) = [''b=http://b'', ''c=http://c'']"
proof (rule config_peers_roundtrip)
  have "TrimSpace ''b=http://b'' = ''b=http://b''" "TrimSpace ''c=http://c'' = ''c=http://c''" by code_simp+
  then show "\<forall>p\<in>set [''b=http://b'', ''c=http://c'']. p \<noteq> [] \<and> CHR '','' \<notin> set p \<and> TrimSpace p = p" by simp
qed (simp add: demo_flags_def)

end
