(* ===== verification/Deployment.thy ===== *)
theory Deployment
  imports Config Rebalance_Properties
begin

text \<open>
  Start-up of a node (\<^verbatim>\<open>backend/cmd/node/main.go\<close>) and the agreement of the processes of a cluster. \<open>node_server\<close> is the server
  \<^verbatim>\<open>main\<close> builds from flags and environment, \<open>startup_recovery\<close> the background goroutine that checks all peers and
  synchronises from every reachable one, in the arbitrary order in which the map of results is visited. The exchanges are
  arguments; other requests do not interleave with the recovery here.

  Shown: after start-up the node holds every key it owns that a reachable peer dumped, and gateway and nodes place every key on the same
  owners when they are configured with the same members and the same number of virtual nodes.
\<close>

section \<open>Definitions\<close>

definition node_server :: "(string \<Rightarrow> string) \<Rightarrow> node_flags \<Rightarrow> gtime \<Rightarrow> (string \<Rightarrow> gtime) \<Rightarrow> string list \<Rightarrow> 'l server" where
  "node_server getenv flags now clock ord =
     (let cfg = ParseFlags getenv flags in server_New clock ord (node_server_config cfg) (cache_New now))"

record startup_env =
  su_ping :: "nat \<Rightarrow> peer_env"
  su_finish :: "nat list"
  su_range :: "string list"
  su_sync :: "string \<Rightarrow> sync_env"
  su_clock :: "string \<Rightarrow> nat \<Rightarrow> gtime"

definition sync_reachable ::
  "startup_env \<Rightarrow> hash_ring \<Rightarrow> rebalance_manager \<Rightarrow> (string, peer_status) gomap \<Rightarrow> string \<Rightarrow> cache \<Rightarrow> cache" where
  "sync_reachable env ring mgr results addr c =
     (case map_of results addr of
        None \<Rightarrow> c
      | Some st \<Rightarrow>
          if ps_Reachable st then snd (SyncFromPeer (su_sync env addr) (su_clock env addr) ring mgr addr c) else c)"

definition startup_recovery :: "startup_env \<Rightarrow> node_config \<Rightarrow> 'l server \<Rightarrow> 'l server" where
  "startup_recovery env cfg s =
     (if nc_Peers cfg = [] then s
      else let (results, pm) = CheckAllPeers (su_ping env) (su_finish env) (sv_peerManager s)
           in s\<lparr>sv_peerManager := pm,
                sv_cache := fold (sync_reachable env (sv_hashRing s) (sv_rebalanceManager s) results) (su_range env) (sv_cache s)\<rparr>)"

section \<open>Recovery\<close>

text \<open>The items a peer answers a dump request with, if it does.\<close>

definition dump_reply :: "sync_env \<Rightarrow> string \<Rightarrow> dump_item list option" where
  "dump_reply env peer =
     (if se_newRequest env (peer @ ''/internal/dump'') \<noteq> None then None
      else case se_get env (peer @ ''/internal/dump'') of
             Inl err \<Rightarrow> None
           | Inr (status, body) \<Rightarrow>
               if status \<noteq> 200 then None else (case se_decode env body of Inl err \<Rightarrow> None | Inr items \<Rightarrow> Some items))"

lemma sync_dump_reply:
  "snd (SyncFromPeer env clock h mgr peer c) =
     (case dump_reply env peer of None \<Rightarrow> c | Some items \<Rightarrow> snd (IngestBulkKeys clock (adopted h (mg_selfNodeID mgr) items) c))"
proof (cases "dump_reply env peer")
  case None
  then have "\<exists>e. fst (SyncFromPeer env clock h mgr peer c) = Inl e"
    by (auto simp: dump_reply_def SyncFromPeer_def Let_def split: option.splits sum.splits if_splits)
  then show ?thesis using None sync_error_unchanged by auto
next
  case (Some items)
  then obtain body where "se_newRequest env (peer @ ''/internal/dump'') = None" "se_get env (peer @ ''/internal/dump'') = Inr (200, body)"
    "se_decode env body = Inr items"
    by (auto simp: dump_reply_def split: option.splits sum.splits if_splits)
  then show ?thesis by (simp add: Some sync_run)
qed

lemma sync_reachable_other:
  assumes "ring_exact h" "\<forall>items. dump_reply (su_sync env b) b = Some items \<longrightarrow> k \<notin> di_Key ` set items"
  shows "cache_view t (sync_reachable env h mgr results b c) k = cache_view t c k"
  using assms adopted_view_other [OF assms(1)] by (auto simp: sync_reachable_def sync_dump_reply split: option.splits)

lemma sync_fold_other:
  assumes "ring_exact h" "\<forall>b\<in>set bs. \<forall>items. dump_reply (su_sync env b) b = Some items \<longrightarrow> k \<notin> di_Key ` set items"
  shows "cache_view t (fold (sync_reachable env h mgr results) bs c) k = cache_view t c k"
  using assms(2) by (induction bs arbitrary: c) (simp_all add: sync_reachable_other [OF assms(1)])

text \<open>C14. A node that starts up recovers its keys: for every reachable peer whose dump has a key this node owns, and no
  later visited peer has it, the node ends with that value and version, flagged as a replica exactly when it is not the first owner, and
  with the lifetime of the dump counted from a clock reading of that synchronisation: a key dumped with \<open>n > 0\<close> seconds to live reads until they
  have passed, a key dumped with none never expires (below 292 years, where the nanoseconds fit).
  This holds whatever the node held before: versions are not compared, the last visited peer wins.\<close>

theorem startup_recovers_owned_keys:
  assumes ring: "ring_exact (sv_hashRing s)" and peers: "nc_Peers cfg \<noteq> []"
    and visit: "su_range env = before @ a # later"
    and up: "map_of (fst (CheckAllPeers (su_ping env) (su_finish env) (sv_peerManager s))) a = Some st" "ps_Reachable st"
    and dump: "dump_reply (su_sync env a) a = Some items" "distinct (map di_Key items)" "x \<in> set items" "di_Version x \<noteq> 0"
    and own: "mg_selfNodeID (sv_rebalanceManager s) \<in> set (take 2 (prefs (sv_hashRing s) (di_Key x)))"
    and last: "\<forall>b\<in>set later. \<forall>items'. dump_reply (su_sync env b) b = Some items' \<longrightarrow> di_Key x \<notin> di_Key ` set items'"
  shows "\<exists>i j. (\<forall>t. cache_view t (sv_cache (startup_recovery env cfg s)) (di_Key x) = (if item_IsExpired t i then None else Some i))
    \<and> it_Key i = di_Key x \<and> it_Value i = di_Value x \<and> it_Version i = di_Version x
    \<and> j < length items
    \<and> (di_TTLSeconds x \<le> 9223372036 \<longrightarrow>
        it_ExpiresAt i = (if 0 < di_TTLSeconds x then su_clock env a j + di_TTLSeconds x * second else 0))
    \<and> it_IsReplica i = (mg_selfNodeID (sv_rebalanceManager s) \<noteq> hd (prefs (sv_hashRing s) (di_Key x)))"
proof -
  let ?h = "sv_hashRing s" and ?mgr = "sv_rebalanceManager s"
  let ?res = "fst (CheckAllPeers (su_ping env) (su_finish env) (sv_peerManager s))"
  define c where "c = fold (sync_reachable env ?h ?mgr ?res) before (sv_cache s)"
  have "sv_cache (startup_recovery env cfg s) = fold (sync_reachable env ?h ?mgr ?res) later (sync_reachable env ?h ?mgr ?res a c)"
    using peers by (simp add: startup_recovery_def case_prod_unfold Let_def visit c_def)
  moreover have "sync_reachable env ?h ?mgr ?res a c = snd (IngestBulkKeys (su_clock env a) (adopted ?h (mg_selfNodeID ?mgr) items) c)"
    using up by (simp add: sync_reachable_def sync_dump_reply dump(1))
  moreover obtain i j where i: "\<forall>t. cache_view t (snd (IngestBulkKeys (su_clock env a) (adopted ?h (mg_selfNodeID ?mgr) items) c)) (di_Key x)
        = (if item_IsExpired t i then None else Some i)"
    and fields: "it_Key i = di_Key x" "it_Value i = di_Value x" "it_Version i = di_Version x"
      "it_IsReplica i = (mg_selfNodeID ?mgr \<noteq> hd (prefs ?h (di_Key x)))" "j < length (adopted ?h (mg_selfNodeID ?mgr) items)"
      "di_TTLSeconds x \<le> 9223372036 \<longrightarrow>
        it_ExpiresAt i = (if 0 < di_TTLSeconds x then su_clock env a j + di_TTLSeconds x * second else 0)"
    using adopted_view [OF ring dump(2-4) own, of "su_clock env a" c] by (elim exE conjE)
  moreover have "j < length items" using fields(5) adopted_length [of ?h "mg_selfNodeID ?mgr" items] by (rule order.strict_trans2)
  ultimately show ?thesis by (intro exI [of _ i] exI [of _ j]) (simp add: sync_fold_other [OF ring last])
qed

text \<open>The same dump from a reachable peer.\<close>

definition demo_up_env :: peer_env where
  "demo_up_env = demo_peer_env\<lparr>pv_do := (\<lambda>_. Inr (200, [])), pv_decodeHealth := (\<lambda>_. Inr
     \<lparr>ih_Status = ''ok'', ih_NodeID = ''A'', ih_State = ''ALIVE'', ih_Addr = ''http://a'', ih_PrimaryKeys = 1, ih_ReplicaKeys = 0, ih_HitCount = 0,
      ih_UptimeSeconds = 1\<rparr>)\<rparr>"

definition demo_startup :: startup_env where
  "demo_startup = \<lparr>su_ping = (\<lambda>_. demo_up_env), su_finish = [0], su_range = [''http://a''], su_sync = (\<lambda>_. demo_sync_env), su_clock = (\<lambda>_ _. 1)\<rparr>"

definition demo_node :: "unit server" where
  "demo_node = (server_New (\<lambda>_. 0) [] \<lparr>sc_NodeID = ''BB'', sc_Host = ''h'', sc_Port = 1, sc_Peers = [''A=http://a''], sc_VNodes = 1, sc_HeartbeatInterval = 0,
     sc_SuspectTimeout = 0, sc_FailTimeout = 0, sc_HotkeyWindow = 0, sc_HotkeyThreshold = 0\<rparr> (cache_New 0))\<lparr>sv_hashRing := demo_ring\<rparr>"

theorem startup_recovers_owned_keys_witness:
  "\<exists>i. (\<forall>t. cache_view t (sv_cache (startup_recovery demo_startup (ParseFlags (\<lambda>_. []) demo_flags) demo_node)) ''k''
       = (if item_IsExpired t i then None else Some i)) \<and> it_Value i = ''v'' \<and> it_Version i = 2 \<and> it_IsReplica i \<and> it_ExpiresAt i = 1 + 9 * second"
proof -
  let ?x = "\<lparr>di_Key = ''k'', di_Value = ''v'', di_TTLSeconds = 9, di_Version = 2, di_IsReplica = False\<rparr>"
  let ?cfg = "ParseFlags (\<lambda>_. []) demo_flags"
  have pm: "pm_peers (sv_peerManager demo_node) = [''http://a'']"
  proof -
    have "parse_peer ''A=http://a'' = (''A'', ''http://a'')" by code_simp
    then show ?thesis by (simp add: demo_node_def server_New_def Let_def NewPeerManager_def)
  qed
  have mgr: "mg_selfNodeID (sv_rebalanceManager demo_node) = ''BB''" by (simp add: demo_node_def server_New_def Let_def NewManager_def)
  have h: "sv_hashRing demo_node = demo_ring" by (simp add: demo_node_def)
  have cfg: "nc_Peers ?cfg \<noteq> []"
    by (simp add: ParseFlags_def demo_flags_def flag_or_def parse_list_def) (code_simp)
  have up: "ps_Reachable (check_peer demo_up_env ''http://a'')"
    by (simp add: check_peer_reachable demo_up_env_def demo_peer_env_def)
  have st: "map_of (fst (CheckAllPeers (su_ping demo_startup) (su_finish demo_startup) (sv_peerManager demo_node))) ''http://a''
    = Some (check_peer demo_up_env ''http://a'')"
    by (simp add: CheckAllPeers_def demo_startup_def pm store_status_def)
  have d: "dump_reply (su_sync demo_startup ''http://a'') ''http://a'' = Some demo_dump" "distinct (map di_Key demo_dump)" "?x \<in> set demo_dump"
    by (simp_all add: dump_reply_def demo_startup_def demo_sync_env_def demo_dump_def)
  show ?thesis
    using startup_recovers_owned_keys [where s = demo_node and x = ?x and before = "[]" and later = "[]", OF _ cfg _ st up d]
    by (simp add: h mgr demo_ring_exact demo_ring_prefs demo_startup_def split del: if_split) (elim ex_forward conjE, simp)
qed


section \<open>Placement\<close>

text \<open>Rings of the same members, virtual nodes and hash function place every key alike, in whatever order the members joined.\<close>

lemma prefs_same_members:
  assumes "ring_exact h" "ring_exact h'" "hr_hashFunc h' = hr_hashFunc h" "hr_vnodes h' = hr_vnodes h" "set (ring_ids h') = set (ring_ids h)"
  shows "prefs h' k = prefs h k"
proof -
  have ring: "hr_ring h' = hr_ring h"
    using assms by (intro sorted_distinct_set_unique) (simp_all add: ring_exact_sorted ring_exact_distinct ring_exact_set)
  have "ring_owner h' t = ring_owner h t" if t: "t \<in> set (hr_ring h)" for t
  proof -
    obtain n where "n \<in> set (ring_ids h)" "t \<in> set (vtokens (hr_hashFunc h) (hr_vnodes h) n)" using t ring_exact_set [OF assms(1)] by auto
    then have "map_of (hr_vnodeToNode h) t = Some n" "map_of (hr_vnodeToNode h') t = Some n" using assms by (auto simp: ring_exact_def)
    then show ?thesis by (simp add: gm_get_def)
  qed
  then show ?thesis unfolding prefs_def ring assms(3) by (intro arg_cong [where f = uniq] map_cong) simp_all
qed

text \<open>A list of members and their addresses that can join a ring one after the other.\<close>

definition joinable_all :: "hash_ring \<Rightarrow> (string \<times> string) list \<Rightarrow> bool" where
  "joinable_all h ms \<longleftrightarrow>
     distinct (ring_ids h @ map fst ms) \<and> [] \<notin> fst ` set ms \<and> collision_free (hr_hashFunc h) (hr_vnodes h) (ring_ids h @ map fst ms) \<and>
     snd ` set ms \<inter> (set (ring_ids h) \<union> fst ` set ms) = {}"

lemma collision_free_prefix: "collision_free hf vn (ns @ ms) \<Longrightarrow> collision_free hf vn ns"
  by (simp add: collision_free_def)

lemma join_all:
  assumes "ring_exact h" "joinable_all h ms"
  shows "ring_exact (fold (\<lambda>(n, a). ring_AddNode n a) ms h) \<and> ring_ids (fold (\<lambda>(n, a). ring_AddNode n a) ms h) = ring_ids h @ map fst ms
    \<and> hr_hashFunc (fold (\<lambda>(n, a). ring_AddNode n a) ms h) = hr_hashFunc h \<and> hr_vnodes (fold (\<lambda>(n, a). ring_AddNode n a) ms h) = hr_vnodes h"
  using assms
proof (induction ms arbitrary: h)
  case (Cons m ms)
  obtain n a where m: "m = (n, a)" by force
  have j: "n \<notin> set (ring_ids h)" "n \<noteq> ''''" "collision_free (hr_hashFunc h) (hr_vnodes h) (ring_ids h @ [n])" "a \<notin> set (ring_ids h)"
    using Cons.prems(2) collision_free_prefix [of _ _ "ring_ids h @ [n]" "map fst ms"] by (auto simp: joinable_all_def m)
  have add: "ring_AddNode n a h = ring_insert n a h" using j ring_exact_has [OF Cons.prems(1)] by (intro ring_AddNode_insert) auto
  have ids: "ring_ids (ring_insert n a h) = ring_ids h @ [n]" using j(1) by (simp add: gm_keys_put_fresh)
  have "ring_exact (ring_insert n a h)" by (rule ring_exact_insert [OF Cons.prems(1) j(1-3)])
  moreover have "joinable_all (ring_insert n a h) ms"
    using Cons.prems(2) unfolding joinable_all_def ids ring_insert_fields(1,2) by (auto simp: m)
  ultimately show ?case using Cons.IH [of "ring_insert n a h"] ids by (simp add: m add)
qed simp

lemma join_all_prefs:
  assumes "joinable_all (ring_New vn None) ms" "joinable_all (ring_New vn None) ns" "set (map fst ms) = set (map fst ns)"
  shows "prefs (fold (\<lambda>(n, a). ring_AddNode n a) ms (ring_New vn None)) k = prefs (fold (\<lambda>(n, a). ring_AddNode n a) ns (ring_New vn None)) k"
  using join_all [OF ring_exact_New assms(1)] join_all [OF ring_exact_New assms(2)] assms(3)
  by (intro prefs_same_members) (simp_all add: ring_New_def gm_keys_def)

lemma fold_join_node:
  assumes "\<forall>n\<in>set ns. CHR ''='' \<in> set n"
  shows "fst (fold join_node ns st) = fold (\<lambda>(n, a). ring_AddNode n a) (map parse_peer ns) (fst st)"
  using assms by (induction ns arbitrary: st) (simp_all add: join_node_def parse_peer_def Let_def case_prod_unfold)

lemma gateway_ring:
  "gw_hashRing (gateway_New clock oenv cfg) = fst (fold join_node (gf_Nodes cfg) (ring_New (if gf_VNodes cfg \<le> 0 then 50 else gf_VNodes cfg) None, []))"
  by (simp add: gateway_New_def gw_defaults_def Let_def case_prod_unfold)

lemma fold_parsed_get:
  "distinct (map fst ps) \<Longrightarrow> (n, a) \<in> set ps \<Longrightarrow> gm_get [] (fold (\<lambda>(p, b) m. gm_put p b m) ps m0) n = a"
proof (induction ps arbitrary: m0 rule: rev_induct)
  case (snoc p ps)
  then show ?case by (cases p) (force simp: gm_get_put)
qed simp

lemma server_ring:
  "sv_hashRing (server_New clock ord cfg c) =
     fold (\<lambda>(n, a). ring_AddNode n a)
       ((sc_NodeID cfg, self_addr cfg) # map (\<lambda>n. (n, gm_get [] (fold (\<lambda>(p, b) m. gm_put p b m) (map parse_peer (sc_Peers cfg)) []) n)) ord)
       (ring_New (if sc_VNodes cfg \<le> 0 then 50 else sc_VNodes cfg) None)"
  by (simp add: server_New_def Let_def fold_map comp_def)

lemma disjoint_part: "X \<subseteq> B \<union> C \<Longrightarrow> (D \<union> B \<union> C) \<inter> E = {} \<Longrightarrow> X \<inter> E = {}"
  by blast

lemma collision_free_mset: "mset ms = mset ns \<Longrightarrow> collision_free hf vn ms \<Longrightarrow> collision_free hf vn ns"
proof -
  assume a: "mset ms = mset ns" "collision_free hf vn ms"
  then have "mset (concat (map (vtokens hf vn) ms)) = mset (concat (map (vtokens hf vn) ns))"
    by (metis mset_concat mset_map sum_mset_sum_list)
  with a(2) show ?thesis unfolding collision_free_def by (metis mset_eq_imp_distinct_iff)
qed

text \<open>C7. Gateway and nodes agree on who owns what: when the node list of the gateway names the node and its peers, with no hash
  collision between their virtual nodes and no address that is also an id, and both sides use the same number of virtual nodes,
  the owners of every key, in order, are the same on both sides, in whatever order each of them put the members on its ring. So a
  write the gateway sends to a key's primary reaches a node that considers itself the primary.\<close>

theorem cluster_placement_agrees:
  assumes nodes: "\<forall>n\<in>set (gf_Nodes gcfg). CHR ''='' \<in> set n"
    and ids: "distinct (map (fst \<circ> parse_peer) (gf_Nodes gcfg))" "distinct (sc_NodeID cfg # map (fst \<circ> parse_peer) (sc_Peers cfg))"
      "set (map (fst \<circ> parse_peer) (gf_Nodes gcfg)) = set (sc_NodeID cfg # map (fst \<circ> parse_peer) (sc_Peers cfg))"
      "[] \<notin> set (map (fst \<circ> parse_peer) (gf_Nodes gcfg))"
    and addrs: "(set (map (snd \<circ> parse_peer) (gf_Nodes gcfg)) \<union> {self_addr cfg} \<union> set (map (snd \<circ> parse_peer) (sc_Peers cfg)))
      \<inter> set (map (fst \<circ> parse_peer) (gf_Nodes gcfg)) = {}"
    and vnodes: "(if gf_VNodes gcfg \<le> 0 then 50 else gf_VNodes gcfg) = vn" "(if sc_VNodes cfg \<le> 0 then 50 else sc_VNodes cfg) = vn"
    and collisions: "collision_free DefaultHashFunc vn (map (fst \<circ> parse_peer) (gf_Nodes gcfg))"
    and ord: "mset ord = mset (map (fst \<circ> parse_peer) (sc_Peers cfg))"
  shows "prefs (gw_hashRing (gateway_New clock oenv gcfg)) k = prefs (sv_hashRing (server_New clock' ord cfg c)) k"
proof -
  let ?gs = "map parse_peer (gf_Nodes gcfg)" and ?ps = "map parse_peer (sc_Peers cfg)"
  let ?addr = "gm_get [] (fold (\<lambda>(p, b) m. gm_put p b m) ?ps [])"
  let ?ms = "(sc_NodeID cfg, self_addr cfg) # map (\<lambda>n. (n, ?addr n)) ord"
  have new: "ring_ids (ring_New vn None) = []" "hr_hashFunc (ring_New vn None) = DefaultHashFunc" "hr_vnodes (ring_New vn None) = vn"
    using vnodes(1) by (auto simp: ring_New_def gm_keys_def split: if_splits)
  have fgs: "map fst ?gs = map (fst \<circ> parse_peer) (gf_Nodes gcfg)" and fms: "map fst ?ms = sc_NodeID cfg # ord" by (simp_all add: comp_def)
  have "mset (sc_NodeID cfg # ord) = mset (sc_NodeID cfg # map (fst \<circ> parse_peer) (sc_Peers cfg))" using ord by simp
  also have "\<dots> = mset (map (fst \<circ> parse_peer) (gf_Nodes gcfg))"
    using ids(1-3) by (intro set_eq_iff_mset_eq_distinct [THEN iffD1]) simp_all
  finally have ms: "mset (map fst ?ms) = mset (map fst ?gs)" by (simp only: fms fgs)
  have addr: "?addr n \<in> set (map (snd \<circ> parse_peer) (sc_Peers cfg))" if "n \<in> set ord" for n
  proof -
    have "n \<in> fst ` set ?ps" using that mset_eq_setD [OF ord] by auto
    then obtain a where "(n, a) \<in> set ?ps" by force
    moreover from this have "a \<in> snd ` set ?ps" using imageI [of "(n, a)" "set ?ps" snd] by (simp only: snd_conv)
    moreover have "distinct (map fst ?ps)" using ids(2) by simp
    ultimately show ?thesis by (simp add: fold_parsed_get image_image)
  qed
  have jg: "joinable_all (ring_New vn None) ?gs"
  proof -
    have "snd ` set ?gs \<inter> fst ` set ?gs = {}" using addrs unfolding set_map image_comp by (intro equals0I) blast
    moreover have "[] \<notin> fst ` set ?gs" using ids(4) by (simp add: image_comp)
    ultimately show ?thesis using ids(1) collisions unfolding joinable_all_def new append_Nil fgs by simp
  qed
  have jm: "joinable_all (ring_New vn None) ?ms"
    unfolding joinable_all_def new append_Nil
  proof (intro conjI)
    show "distinct (map fst ?ms)" using mset_eq_imp_distinct_iff [OF ms] ids(1) by (simp only: fgs)
    show "collision_free DefaultHashFunc vn (map fst ?ms)" by (rule collision_free_mset [OF ms [symmetric]]) (simp only: fgs collisions)
    have s: "fst ` set ?ms = set (map (fst \<circ> parse_peer) (gf_Nodes gcfg))" using mset_eq_setD [OF ms] by (simp only: fgs set_map)
    show "[] \<notin> fst ` set ?ms" unfolding s by (rule ids(4))
    have sub: "snd ` set ?ms \<subseteq> {self_addr cfg} \<union> set (map (snd \<circ> parse_peer) (sc_Peers cfg))" using addr by auto
    show "snd ` set ?ms \<inter> (set [] \<union> fst ` set ?ms) = {}" unfolding s list.set(1) Un_empty_left by (rule disjoint_part [OF sub addrs])
  qed
  have gw: "gw_hashRing (gateway_New clock oenv gcfg) = fold (\<lambda>(n, a). ring_AddNode n a) ?gs (ring_New vn None)"
    unfolding gateway_ring vnodes(1) by (simp add: fold_join_node [OF nodes])
  have sv: "sv_hashRing (server_New clock' ord cfg c) = fold (\<lambda>(n, a). ring_AddNode n a) ?ms (ring_New vn None)"
    unfolding server_ring vnodes(2) ..
  show ?thesis unfolding gw sv by (rule join_all_prefs [OF jg jm mset_eq_setD [OF ms, symmetric]])
qed

definition demo_gw_config :: gw_config where
  "demo_gw_config = \<lparr>gf_Port = 0, gf_Host = [], gf_Nodes = [''n=http://n''], gf_VNodes = 1, gf_HeartbeatInterval = 0, gf_SuspectTimeout = 0,
     gf_FailTimeout = 0, gf_RequestTimeout = 0, gf_SQLitePath = []\<rparr>"

definition demo_server_config :: server_config where
  "demo_server_config = \<lparr>sc_NodeID = ''n'', sc_Host = ''n'', sc_Port = 1, sc_Peers = [], sc_VNodes = 1, sc_HeartbeatInterval = 0, sc_SuspectTimeout = 0,
     sc_FailTimeout = 0, sc_HotkeyWindow = 0, sc_HotkeyThreshold = 0\<rparr>"

theorem cluster_placement_agrees_witness:
  "\<forall>k oenv. prefs (gw_hashRing (gateway_New (\<lambda>_. 0) oenv demo_gw_config)) k
     = prefs (sv_hashRing (server_New (\<lambda>_. 0) [] demo_server_config (cache_New 0))) k"
proof -
  have "parse_peer ''n=http://n'' = (''n'', ''http://n'')" by code_simp
  then show ?thesis
    by (intro allI cluster_placement_agrees [where vn = 1])
      (simp_all add: demo_gw_config_def demo_server_config_def self_addr_def collision_free_def vtokens_def)
qed

text \<open>The number of virtual nodes is a setting of the router only: \<^verbatim>\<open>cmd/node\<close> never sets it, so every node uses 50.\<close>

lemma ring_AddNode_vnodes [simp]: "hr_vnodes (ring_AddNode n a h) = hr_vnodes h"
  by (simp add: ring_AddNode_cases Let_def)

lemma fold_AddNode_vnodes: "hr_vnodes (fold (\<lambda>(n, a). ring_AddNode n a) ms h) = hr_vnodes h"
  by (induction ms arbitrary: h) (auto simp: case_prod_unfold)

lemma node_vnodes_fixed: "hr_vnodes (sv_hashRing (node_server getenv flags now clock ord)) = 50"
  by (simp add: node_server_def Let_def server_ring fold_AddNode_vnodes del: fold.simps) (simp add: node_server_config_def ring_New_def)

lemma router_vnodes_flag:
  assumes "rf_vnodes flags = Some v" "0 < v" "\<forall>n\<in>set (gf_Nodes (router_gateway_config getenv flags)). CHR ''='' \<in> set n"
  shows "hr_vnodes (gw_hashRing (gateway_New clock oenv (router_gateway_config getenv flags))) = v"
  using assms by (simp add: gateway_ring fold_join_node fold_AddNode_vnodes) (simp add: router_gateway_config_def flag_or_def ring_New_def)

end
