(* ===== verification/Chaos.thy ===== *)
theory Chaos
  imports Go_Double "HOL-Library.Multiset"
begin

text \<open>
  The chaos experiment (\<^verbatim>\<open>backend/internal/chaos/runner.go\<close>). The workers and the
  goroutine that injects the failures run concurrently on the counters, the channel of work items and the list of latencies: a
  state of the experiment is the record \<open>chaos_run\<close>, one atomic operation of a worker is \<open>worker_step\<close>, one of the injecting
  goroutine \<open>inject\<close>, and the inductive relation \<open>chaos_step\<close> lets any of them go next. The answers of the gateway and the clock
  are arbitrary in every step; the decoder of the answers is the argument \<open>dec\<close>. The field \<open>ch_sent\<close> logs the requests
  sent, which the code does not keep, and \<open>ch_hooks\<close> the calls of the process hook.

  Shown: every run ends, after a number of steps bounded by the configuration, with all workers done; the scorecard accounts for every
  request; the percentiles are read inside the list of latencies and are ordered. The counter of corruptions is never touched.
\<close>

section \<open>Definitions\<close>

subsection \<open>Configuration\<close>

abbreviation ScenarioPrimaryKill :: string where "ScenarioPrimaryKill \<equiv> ''primary_kill''"
abbreviation ScenarioNodeFlap :: string where "ScenarioNodeFlap \<equiv> ''node_flap''"
abbreviation ScenarioCascading :: string where "ScenarioCascading \<equiv> ''cascading_failure''"

record chaos_config =
  cc_GatewayURL :: string
  cc_Scenario :: string
  cc_TotalRequests :: int
  cc_Concurrency :: int
  cc_RequestDelay :: duration
  cc_ChaosDelay :: duration
  cc_NodeProcessHook :: bool

definition NewRunner :: "chaos_config \<Rightarrow> chaos_config" where
  "NewRunner cfg =
     cfg\<lparr>cc_GatewayURL := (if cc_GatewayURL cfg = [] then ''http://localhost:8000'' else cc_GatewayURL cfg),
         cc_TotalRequests := (if cc_TotalRequests cfg \<le> 0 then 50 else cc_TotalRequests cfg),
         cc_Concurrency := (if cc_Concurrency cfg \<le> 0 then 5 else cc_Concurrency cfg),
         cc_ChaosDelay := (if cc_ChaosDelay cfg \<le> 0 then 600 * millisecond else cc_ChaosDelay cfg)\<rparr>"

subsection \<open>Work items and requests\<close>

record work_item =
  wi_id :: int
  wi_key :: string
  wi_val :: string

definition work_item_of :: "int \<Rightarrow> work_item" where
  "work_item_of i = \<lparr>wi_id = i, wi_key = ''chaos:key:'' @ itoa (go_rem i 15), wi_val = ''val_ver_'' @ itoa i\<rparr>"

definition work_items :: "chaos_config \<Rightarrow> work_item list" where
  "work_items cfg = map (\<lambda>i. work_item_of (int i)) [0 ..< nat (cc_TotalRequests cfg)]"

datatype chaos_request = PostSet string string string int | GetKey string

definition chaos_set_request :: "chaos_config \<Rightarrow> work_item \<Rightarrow> chaos_request" where
  "chaos_set_request cfg item = PostSet (cc_GatewayURL cfg @ ''/api/set'') (wi_key item) (wi_val item) 60"

definition chaos_get_request :: "chaos_config \<Rightarrow> work_item \<Rightarrow> chaos_request" where
  "chaos_get_request cfg item = GetKey (cc_GatewayURL cfg @ ''/api/get?key='' @ wi_key item)"

text \<open>An answer: a transport error, or a status with a body.\<close>

type_synonym chaos_answer = "string + int \<times> string"

record chaos_body =
  cb_Status :: string
  cb_Value :: string
  cb_IsFailover :: bool

definition set_success :: "chaos_answer \<Rightarrow> bool" where
  "set_success r = (case r of Inl e \<Rightarrow> False | Inr (status, body) \<Rightarrow> status = 200)"

subsection \<open>The injected failures\<close>

datatype chaos_action = Sleep duration | RecordEvent string | Hook string string int

definition chaos_script :: "chaos_config \<Rightarrow> chaos_action list" where
  "chaos_script cfg =
     Sleep (cc_ChaosDelay cfg) #
     (if \<not> cc_NodeProcessHook cfg then []
      else if cc_Scenario cfg = ScenarioPrimaryKill then
        [RecordEvent ''CHAOS TRIGGER: Killing Node C (:8003) during active load'', Hook ''kill'' ''node-c'' 8003]
      else if cc_Scenario cfg = ScenarioNodeFlap then
        [RecordEvent ''CHAOS TRIGGER: Flapping Node C (Kill -> Revive)'', Hook ''kill'' ''node-c'' 8003, Sleep (400 * millisecond),
         Hook ''start'' ''node-c'' 8003, RecordEvent ''CHAOS TRIGGER: Revived Node C'']
      else if cc_Scenario cfg = ScenarioCascading then
        [RecordEvent ''CHAOS TRIGGER: Cascading kill (Node C then Node B)'', Hook ''kill'' ''node-c'' 8003, Sleep (300 * millisecond),
         Hook ''kill'' ''node-b'' 8002]
      else [])"

subsection \<open>Workers\<close>

text \<open>Where a worker stands in its loop: before receiving, before the post, before the read, before appending the latency,
  before counting, before counting a failover, and after the loop.\<close>

datatype worker =
    WReceive
  | WPost work_item gtime
  | WGet work_item gtime bool
  | WLatency int bool chaos_answer
  | WCount bool chaos_answer
  | WFailover
  | WDone

record chaos_run =
  ch_work :: "work_item list"
  ch_success :: int
  ch_failed :: int
  ch_failover :: int
  ch_corrupt :: int
  ch_latencies :: "int list"
  ch_events :: "(gtime \<times> string) list"
  ch_sent :: "chaos_request list"
  ch_hooks :: "(string \<times> string \<times> int) list"
  ch_workers :: "worker list"
  ch_script :: "chaos_action list"

fun worker_step :: "chaos_config \<Rightarrow> (string \<Rightarrow> chaos_body option) \<Rightarrow> gtime \<Rightarrow> chaos_answer \<Rightarrow> worker \<Rightarrow> chaos_run \<Rightarrow> (worker \<times> chaos_run) option" where
  "worker_step cfg dec t r WReceive s =
     (case ch_work s of
        [] \<Rightarrow> Some (WDone, s)
      | item # items \<Rightarrow> Some (WPost item t, s\<lparr>ch_work := items\<rparr>))"
| "worker_step cfg dec t r (WPost item t0) s =
     Some (WGet item t0 (set_success r), s\<lparr>ch_sent := ch_sent s @ [chaos_set_request cfg item]\<rparr>)"
| "worker_step cfg dec t r (WGet item t0 ok) s =
     Some (WLatency (dur_Milliseconds (time_sub t t0)) ok r, s\<lparr>ch_sent := ch_sent s @ [chaos_get_request cfg item]\<rparr>)"
| "worker_step cfg dec t r (WLatency lat ok g) s = Some (WCount ok g, s\<lparr>ch_latencies := ch_latencies s @ [lat]\<rparr>)"
| "worker_step cfg dec t r (WCount ok g) s =
     (case g of
        Inr (status, body) \<Rightarrow>
          if status = 200 then
            (case dec body of
               Some res \<Rightarrow>
                 if cb_Status res = ''hit''
                 then Some (if cb_IsFailover res then WFailover else WReceive, s\<lparr>ch_success := ch_success s + 1\<rparr>)
                 else Some (WReceive, s\<lparr>ch_failed := ch_failed s + 1\<rparr>)
             | None \<Rightarrow> Some (WReceive, s\<lparr>ch_failed := ch_failed s + 1\<rparr>))
          else if \<not> ok then Some (WReceive, s\<lparr>ch_failed := ch_failed s + 1\<rparr>)
          else Some (WReceive, s\<lparr>ch_failed := ch_failed s + 1\<rparr>)
      | Inl e \<Rightarrow>
          if \<not> ok then Some (WReceive, s\<lparr>ch_failed := ch_failed s + 1\<rparr>)
          else Some (WReceive, s\<lparr>ch_failed := ch_failed s + 1\<rparr>))"
| "worker_step cfg dec t r WFailover s = Some (WReceive, s\<lparr>ch_failover := ch_failover s + 1\<rparr>)"
| "worker_step cfg dec t r WDone s = None"

fun inject :: "gtime \<Rightarrow> chaos_action \<Rightarrow> chaos_run \<Rightarrow> chaos_run" where
  "inject t (Sleep d) s = s"
| "inject t (RecordEvent evt) s = s\<lparr>ch_events := ch_events s @ [(t, evt)]\<rparr>"
| "inject t (Hook action nodeID port) s = s\<lparr>ch_hooks := ch_hooks s @ [(action, nodeID, port)]\<rparr>"

definition chaos_start :: "chaos_config \<Rightarrow> gtime \<Rightarrow> chaos_run" where
  "chaos_start cfg t =
     \<lparr>ch_work = work_items cfg, ch_success = 0, ch_failed = 0, ch_failover = 0, ch_corrupt = 0, ch_latencies = [],
      ch_events = [(t, ''Started Chaos Experiment: '' @ cc_Scenario cfg @ '' with '' @ itoa (cc_TotalRequests cfg) @ '' requests across '' @
                       itoa (cc_Concurrency cfg) @ '' workers'')],
      ch_sent = [], ch_hooks = [], ch_workers = replicate (nat (cc_Concurrency cfg)) WReceive, ch_script = chaos_script cfg\<rparr>"

inductive chaos_step :: "chaos_config \<Rightarrow> (string \<Rightarrow> chaos_body option) \<Rightarrow> chaos_run \<Rightarrow> chaos_run \<Rightarrow> bool" for cfg dec where
  worker: "i < length (ch_workers s) \<Longrightarrow> worker_step cfg dec t r (ch_workers s ! i) s = Some (w, s')
    \<Longrightarrow> chaos_step cfg dec s (s'\<lparr>ch_workers := (ch_workers s)[i := w]\<rparr>)"
| inject: "ch_script s = a # as \<Longrightarrow> chaos_step cfg dec s ((inject t a s)\<lparr>ch_script := as\<rparr>)"

inductive_cases chaos_stepE: "chaos_step cfg dec s s'"

text \<open>\<^verbatim>\<open>wg.Wait\<close> returns when every worker has left its loop; it does not wait for the injecting goroutine.\<close>

definition waited :: "chaos_run \<Rightarrow> bool" where
  "waited s \<longleftrightarrow> list_all (\<lambda>w. w = WDone) (ch_workers s)"

subsection \<open>Scorecard\<close>

record scorecard =
  sco_Scenario :: string
  sco_TotalRequests :: int
  sco_SuccessfulRequests :: int
  sco_FailedRequests :: int
  sco_FailoverHits :: int
  sco_SuccessRate :: rat
  sco_DataCorruptions :: int
  sco_DurationMs :: int
  sco_ThroughputRPS :: rat
  sco_MinLatencyMs :: int
  sco_P50LatencyMs :: int
  sco_P95LatencyMs :: int
  sco_P99LatencyMs :: int
  sco_MaxLatencyMs :: int
  sco_ChaosEvents :: "(gtime \<times> string) list"
  sco_Status :: string

text \<open>An index of a percentile, and a read of the list that panics out of range.\<close>

definition percentile_index :: "rat \<Rightarrow> nat \<Rightarrow> int" where
  "percentile_index p n = int64_of_float (f64 (f64 (of_int (int n)) * f64 p))"

definition read_at :: "int list \<Rightarrow> int \<Rightarrow> int option" where
  "read_at xs i = (if 0 \<le> i \<and> i < int (length xs) then Some (xs ! nat i) else None)"

text \<open>Minimum, the three percentiles and maximum; \<open>None\<close> is a panic.\<close>

definition percentiles :: "int list \<Rightarrow> (int \<times> int \<times> int \<times> int \<times> int) option" where
  "percentiles latencies =
     (let l = sort latencies; n = length l
      in if n = 0 then Some (0, 0, 0, 0, 0)
         else case (read_at l 0, read_at l (int n - 1), read_at l (percentile_index (1 / 2) n), read_at l (percentile_index (95 / 100) n),
                    read_at l (percentile_index (99 / 100) n)) of
                (Some minLat, Some maxLat, Some p50, Some p95, Some p99) \<Rightarrow> Some (minLat, p50, p95, p99, maxLat)
              | _ \<Rightarrow> None)"

definition success_rate :: "int \<Rightarrow> int \<Rightarrow> rat" where
  "success_rate suc tot = (if 0 < tot then f64 (f64 (f64 (of_int suc) / f64 (of_int tot)) * 100) else 0)"

definition throughput :: "int \<Rightarrow> duration \<Rightarrow> rat" where
  "throughput tot d = (if 0 < dur_Seconds d then f64 (f64 (of_int tot) / dur_Seconds d) else 0)"

definition run_scorecard :: "chaos_config \<Rightarrow> duration \<Rightarrow> chaos_run \<Rightarrow> scorecard option" where
  "run_scorecard cfg d s =
     (case percentiles (ch_latencies s) of
        None \<Rightarrow> None
      | Some (minLat, p50, p95, p99, maxLat) \<Rightarrow>
          let tot = ch_success s + ch_failed s
          in Some \<lparr>sco_Scenario = cc_Scenario cfg, sco_TotalRequests = tot, sco_SuccessfulRequests = ch_success s,
                   sco_FailedRequests = ch_failed s, sco_FailoverHits = ch_failover s, sco_SuccessRate = success_rate (ch_success s) tot,
                   sco_DataCorruptions = ch_corrupt s, sco_DurationMs = dur_Milliseconds d, sco_ThroughputRPS = throughput tot d,
                   sco_MinLatencyMs = minLat, sco_P50LatencyMs = p50, sco_P95LatencyMs = p95, sco_P99LatencyMs = p99, sco_MaxLatencyMs = maxLat,
                   sco_ChaosEvents = ch_events s, sco_Status = ''COMPLETED''\<rparr>)"

section \<open>Steps\<close>

text \<open>Every operation of a worker is enabled unless it is done, and each brings it closer to the end.\<close>

primrec worker_rank :: "worker \<Rightarrow> nat" where
  "worker_rank WDone = 0"
| "worker_rank WReceive = 1"
| "worker_rank WFailover = 2"
| "worker_rank (WCount ok g) = 3"
| "worker_rank (WLatency lat ok g) = 4"
| "worker_rank (WGet item t0 ok) = 5"
| "worker_rank (WPost item t0) = 6"

definition remaining_steps :: "chaos_run \<Rightarrow> nat" where
  "remaining_steps s = 7 * length (ch_work s) + sum_list (map worker_rank (ch_workers s)) + length (ch_script s)"


text \<open>A sum over the workers, after one of them has moved.\<close>

lemma sum_list_update_nat:
  fixes g :: "'a \<Rightarrow> nat"
  shows "i < length xs \<Longrightarrow> sum_list (map g (xs[i := y])) + g (xs ! i) = sum_list (map g xs) + g y"
proof (induction xs arbitrary: i)
  case (Cons x xs)
  then show ?case by (cases i) auto
qed simp

lemma worker_step_rest: "worker_step cfg dec t r w s = Some (w', s') \<Longrightarrow> ch_workers s' = ch_workers s \<and> ch_script s' = ch_script s \<and> ch_corrupt s' = ch_corrupt s"
  by (cases w) (auto split: list.splits option.splits if_splits sum.splits prod.splits)

lemma worker_step_rank:
  "worker_step cfg dec t r w s = Some (w', s') \<Longrightarrow> 7 * length (ch_work s') + worker_rank w' < 7 * length (ch_work s) + worker_rank w"
  by (cases w) (auto split: list.splits option.splits if_splits sum.splits prod.splits)

lemma worker_step_enabled: "w \<noteq> WDone \<Longrightarrow> \<exists>w' s'. worker_step cfg dec t r w s = Some (w', s')"
  by (cases w) (auto split: list.splits option.splits if_splits sum.splits prod.splits)

lemma inject_rest [simp]:
  "ch_workers (inject t a s) = ch_workers s" "ch_work (inject t a s) = ch_work s" "ch_success (inject t a s) = ch_success s"
  "ch_failed (inject t a s) = ch_failed s" "ch_failover (inject t a s) = ch_failover s" "ch_corrupt (inject t a s) = ch_corrupt s"
  "ch_latencies (inject t a s) = ch_latencies s" "ch_sent (inject t a s) = ch_sent s"
  by (cases a; simp)+

lemma chaos_step_decreases: "chaos_step cfg dec s s' \<Longrightarrow> remaining_steps s' < remaining_steps s"
proof (induction rule: chaos_step.induct)
  case (worker i s t r w s')
  then show ?case
    using worker_step_rank [OF worker(2)] worker_step_rest [OF worker(2)] sum_list_update_nat [OF worker(1), of worker_rank w]
    by (simp add: remaining_steps_def)
qed (simp add: remaining_steps_def)

lemma chaos_step_enabled: "\<not> waited s \<Longrightarrow> \<exists>s'. chaos_step cfg dec s s'"
  using worker_step_enabled chaos_step.worker unfolding waited_def list_all_length by metis

lemma chaos_run_length: "(chaos_step cfg dec ^^ k) s s' \<Longrightarrow> k + remaining_steps s' \<le> remaining_steps s"
proof (induction k arbitrary: s')
  case (Suc k)
  then obtain s1 where "(chaos_step cfg dec ^^ k) s s1" "chaos_step cfg dec s1 s'" by auto
  then show ?case using Suc.IH [of s1] chaos_step_decreases [of cfg dec s1 s'] by simp
qed simp

section \<open>Accounting\<close>

text \<open>What each worker still has to do for the item it holds: append a latency, count the outcome, count a failover, send the write.\<close>

fun owes_latency :: "worker \<Rightarrow> nat" where
  "owes_latency (WPost item t0) = 1" | "owes_latency (WGet item t0 ok) = 1" | "owes_latency (WLatency lat ok g) = 1" | "owes_latency w = 0"

fun owes_count :: "worker \<Rightarrow> nat" where
  "owes_count (WCount ok g) = 1" | "owes_count w = owes_latency w"

fun owes_failover :: "worker \<Rightarrow> nat" where
  "owes_failover WFailover = 1" | "owes_failover w = 0"

fun held_items :: "worker \<Rightarrow> work_item multiset" where
  "held_items (WPost item t0) = {#item#}" | "held_items w = {#}"

definition sets_sent :: "chaos_run \<Rightarrow> chaos_request list" where
  "sets_sent s = filter (\<lambda>q. case q of PostSet _ _ _ _ \<Rightarrow> True | GetKey _ \<Rightarrow> False) (ch_sent s)"

definition accounts :: "chaos_config \<Rightarrow> chaos_run \<Rightarrow> bool" where
  "accounts cfg s \<longleftrightarrow>
     0 \<le> ch_success s \<and> 0 \<le> ch_failed s \<and> 0 \<le> ch_failover s \<and> ch_corrupt s = 0 \<and>
     ch_success s + ch_failed s + int (length (ch_work s) + sum_list (map owes_count (ch_workers s))) = int (length (work_items cfg)) \<and>
     length (ch_latencies s) + length (ch_work s) + sum_list (map owes_latency (ch_workers s)) = length (work_items cfg) \<and>
     ch_failover s + int (sum_list (map owes_failover (ch_workers s))) \<le> ch_success s \<and>
     (WDone \<in> set (ch_workers s) \<longrightarrow> ch_work s = []) \<and> length (ch_workers s) = nat (cc_Concurrency cfg)"

lemma worker_step_accounts:
  assumes "worker_step cfg dec t r w s = Some (w', s')"
  shows "int (owes_count w') + ch_success s' + ch_failed s' + int (length (ch_work s')) = int (owes_count w) + ch_success s + ch_failed s + int (length (ch_work s))"
    and "owes_latency w' + length (ch_latencies s') + length (ch_work s') = owes_latency w + length (ch_latencies s) + length (ch_work s)"
    and "ch_failover s' + int (owes_failover w') - ch_success s' \<le> ch_failover s + int (owes_failover w) - ch_success s"
    and "ch_success s \<le> ch_success s' \<and> ch_failed s \<le> ch_failed s' \<and> ch_failover s \<le> ch_failover s'"
    and "(w' = WDone \<longrightarrow> ch_work s' = []) \<and> (ch_work s = [] \<longrightarrow> ch_work s' = [])"
  using assms by (cases w; auto split: list.splits option.splits if_splits sum.splits prod.splits)+

lemma accounts_step: "chaos_step cfg dec s s' \<Longrightarrow> accounts cfg s \<Longrightarrow> accounts cfg s'"
proof (induction rule: chaos_step.induct)
  case (worker i s t r w s')
  note u = sum_list_update_nat [OF worker(1)]
  note st = worker_step_accounts [OF worker(2)] worker_step_rest [OF worker(2)]
  have done': "WDone \<in> set ((ch_workers s)[i := w]) \<Longrightarrow> ch_work s' = []"
    using worker(3) st(5) set_update_subset_insert [of "ch_workers s" i w] by (auto simp: accounts_def)
  show ?case
    using worker(3) st u [of owes_count w] u [of owes_latency w] u [of owes_failover w] done'
    unfolding accounts_def by (simp add: algebra_simps)
next
  case (inject s a as t)
  then show ?case by (simp add: accounts_def)
qed

lemma accounts_start: "accounts cfg (chaos_start cfg t)"
  by (auto simp: accounts_def chaos_start_def sum_list_replicate)

lemma accounts_reachable: "(chaos_step cfg dec)\<^sup>*\<^sup>* (chaos_start cfg t) s \<Longrightarrow> accounts cfg s"
  by (induction rule: rtranclp_induct) (auto intro: accounts_start accounts_step)

lemma waited_owes:
  assumes "waited s"
  shows "sum_list (map owes_count (ch_workers s)) = 0" "sum_list (map owes_latency (ch_workers s)) = 0" "sum_list (map owes_failover (ch_workers s)) = 0"
  using assms by (auto simp: waited_def list_all_iff)

lemma waited_accounts:
  assumes "waited s" "accounts cfg s" "0 < cc_Concurrency cfg"
  shows "ch_work s = []" "ch_success s + ch_failed s = int (length (work_items cfg))" "length (ch_latencies s) = length (work_items cfg)"
    "ch_failover s \<le> ch_success s"
proof -
  have "WDone \<in> set (ch_workers s)"
    using assms by (cases "ch_workers s") (auto simp: waited_def accounts_def)
  then show *: "ch_work s = []" using assms(2) by (simp add: accounts_def)
  show "ch_success s + ch_failed s = int (length (work_items cfg))" "length (ch_latencies s) = length (work_items cfg)"
    "ch_failover s \<le> ch_success s"
    using assms(2) * waited_owes [OF assms(1)] by (simp_all add: accounts_def)
qed

lemma NewRunner_positive: "0 < cc_Concurrency (NewRunner cfg)" "0 < cc_TotalRequests (NewRunner cfg)"
  by (simp_all add: NewRunner_def)

lemma length_work_items: "length (work_items cfg) = nat (cc_TotalRequests cfg)"
  by (simp add: work_items_def)


text \<open>Every item is written exactly once: its write has been sent, or it is in the channel, or a worker holds it.\<close>

definition sends_each :: "chaos_config \<Rightarrow> chaos_run \<Rightarrow> bool" where
  "sends_each cfg s \<longleftrightarrow>
     mset (sets_sent s) + image_mset (chaos_set_request cfg) (mset (ch_work s) + sum_list (map held_items (ch_workers s)))
       = image_mset (chaos_set_request cfg) (mset (work_items cfg))"

lemma sum_list_update_mset:
  "i < length xs \<Longrightarrow> sum_list (map g (xs[i := y])) + g (xs ! i) = sum_list (map g xs) + (g y :: 'b multiset)"
proof (induction xs arbitrary: i)
  case (Cons x xs)
  then show ?case by (cases i) (auto simp: ac_simps)
qed simp

lemma worker_step_sends:
  "worker_step cfg dec t r w s = Some (w', s') \<Longrightarrow>
     mset (sets_sent s') + image_mset (chaos_set_request cfg) (mset (ch_work s') + held_items w')
     = mset (sets_sent s) + image_mset (chaos_set_request cfg) (mset (ch_work s) + held_items w)"
  by (cases w) (auto simp: sets_sent_def chaos_set_request_def chaos_get_request_def split: list.splits option.splits if_splits sum.splits prod.splits)

lemma sends_each_step: "chaos_step cfg dec s s' \<Longrightarrow> sends_each cfg s \<Longrightarrow> sends_each cfg s'"
proof (induction rule: chaos_step.induct)
  case (worker i s t r w s')
  let ?f = "image_mset (chaos_set_request cfg)" and ?new = "sum_list (map held_items ((ch_workers s)[i := w]))"
  have "(mset (sets_sent s') + ?f (mset (ch_work s') + ?new)) + ?f (held_items (ch_workers s ! i))
    = (mset (sets_sent s') + ?f (mset (ch_work s') + held_items w)) + ?f (sum_list (map held_items (ch_workers s)))"
    using arg_cong [OF sum_list_update_mset [OF worker(1), of held_items w], of ?f] by (simp add: ac_simps)
  also have "\<dots> = (mset (sets_sent s) + ?f (mset (ch_work s) + sum_list (map held_items (ch_workers s)))) + ?f (held_items (ch_workers s ! i))"
    unfolding worker_step_sends [OF worker(2)] by (simp add: ac_simps)
  finally have "mset (sets_sent s') + ?f (mset (ch_work s') + ?new)
    = mset (sets_sent s) + ?f (mset (ch_work s) + sum_list (map held_items (ch_workers s)))" by (rule add_right_imp_eq)
  with worker(3) show ?case by (simp add: sends_each_def sets_sent_def)
next
  case (inject s a as t)
  then show ?case by (simp add: sends_each_def sets_sent_def)
qed

lemma sends_each_reachable: "(chaos_step cfg dec)\<^sup>*\<^sup>* (chaos_start cfg t) s \<Longrightarrow> sends_each cfg s"
proof (induction rule: rtranclp_induct)
  case base
  have "sum_list (map held_items (replicate n WReceive)) = {#}" for n by (induction n) simp_all
  then show ?case by (simp add: sends_each_def sets_sent_def chaos_start_def)
qed (rule sends_each_step)

lemma waited_held: "waited s \<Longrightarrow> sum_list (map held_items (ch_workers s)) = {#}"
proof -
  have "list_all (\<lambda>w. w = WDone) ws \<Longrightarrow> sum_list (map held_items ws) = {#}" for ws by (induction ws) simp_all
  then show "waited s \<Longrightarrow> ?thesis" by (simp add: waited_def)
qed

section \<open>Percentiles and rates\<close>

lemma percentile_bounds:
  assumes "0 \<le> p" "p \<le> of_int m * 2 powi (- 7)" "0 \<le> m" "m < 128" "0 < n" "n < 2 ^ 46"
  shows "0 \<le> percentile_index p n \<and> percentile_index p n < int n"
proof -
  have fp: "0 \<le> f64 p" "f64 p \<le> of_int m * 2 powi (- 7)"
    using assms f64_nonneg f64_mono [of p "of_int m * 2 powi (- 7)"] f64_exact [of m "- 7"] by simp_all
  have "n < 2 ^ 53" using assms(6) by simp
  then have "int n < 2 ^ 53" by (simp add: of_nat_less_iff [symmetric])
  then have fn: "f64 (of_int (int n)) = of_int (int n)" by (intro f64_of_int) simp_all
  have "int n < 2 ^ 46" using assms(6) by (simp add: of_nat_less_iff [symmetric])
  then have nm: "int n * m < 2 ^ 53" using mult_strict_mono [of "int n" "2 ^ 46" m 128] assms by simp
  have "f64 (of_int (int n) * f64 p) \<le> f64 (of_int (int n * m) * 2 powi (- 7))"
    using fp assms by (intro f64_mono) (simp_all add: mult.assoc mult_left_mono)
  also have "\<dots> = of_int (int n * m) * 2 powi (- 7)" using nm assms by (intro f64_exact) simp_all
  also have "\<dots> < of_int (int n)" using assms by (simp add: power_int_minus field_simps)
  finally have "f64 (f64 (of_int (int n)) * f64 p) < of_int (int n)" unfolding fn .
  moreover have "0 \<le> f64 (f64 (of_int (int n)) * f64 p)" unfolding fn using fp by (intro f64_nonneg) simp
  ultimately show ?thesis by (simp add: percentile_index_def int64_of_float_def floor_less_iff)
qed

lemma percentile_mono: "0 \<le> p \<Longrightarrow> p \<le> q \<Longrightarrow> percentile_index p n \<le> percentile_index q n"
proof -
  assume "0 \<le> p" "p \<le> q"
  then have "0 \<le> f64 p" "f64 p \<le> f64 q" "0 \<le> f64 (of_int (int n))" by (simp_all add: f64_nonneg f64_mono)
  then have "0 \<le> f64 (of_int (int n)) * f64 p" "f64 (of_int (int n)) * f64 p \<le> f64 (of_int (int n)) * f64 q" by (simp_all add: mult_left_mono)
  then have "0 \<le> f64 (f64 (of_int (int n)) * f64 p)" "f64 (f64 (of_int (int n)) * f64 p) \<le> f64 (f64 (of_int (int n)) * f64 q)"
    by (simp_all only: f64_nonneg f64_mono)
  then show ?thesis by (auto simp: percentile_index_def int64_of_float_def intro: floor_mono)
qed

lemma success_rate_bounds:
  assumes "0 \<le> suc" "suc \<le> tot" "tot < 2 ^ 53"
  shows "0 \<le> success_rate suc tot" "success_rate suc tot \<le> 100" "0 < tot \<Longrightarrow> suc = tot \<Longrightarrow> success_rate suc tot = 100"
proof -
  have f: "f64 (of_int suc) = of_int suc" "f64 (of_int tot) = of_int tot" "f64 1 = 1" "f64 100 = 100"
    using assms f64_of_int [of suc] f64_of_int [of tot] f64_of_int [of 1] f64_of_int [of 100] by simp_all
  have q: "0 \<le> f64 (of_int suc / of_int tot)" "f64 (of_int suc / of_int tot) \<le> 1" if "0 < tot"
    using that assms f64_nonneg [of "of_int suc / of_int tot"] f64_mono [of "of_int suc / of_int tot" 1] f by simp_all
  show "0 \<le> success_rate suc tot" using q(1) f by (auto simp: success_rate_def intro!: f64_nonneg)
  show "success_rate suc tot \<le> 100"
    using q f f64_mono [of "f64 (of_int suc / of_int tot) * 100" 100] by (auto simp: success_rate_def)
  show "0 < tot \<Longrightarrow> suc = tot \<Longrightarrow> success_rate suc tot = 100" using f by (simp add: success_rate_def)
qed

lemma percentiles_ordered:
  assumes "length latencies < 2 ^ 46" "latencies \<noteq> []"
  shows "\<exists>lo p50 p95 p99 hi. percentiles latencies = Some (lo, p50, p95, p99, hi) \<and> lo \<le> p50 \<and> p50 \<le> p95 \<and> p95 \<le> p99 \<and> p99 \<le> hi
    \<and> {lo, p50, p95, p99, hi} \<subseteq> set latencies \<and> (\<forall>x\<in>set latencies. lo \<le> x \<and> x \<le> hi)"
proof -
  define l where "l = sort latencies"
  let ?n = "length l"
  define i where "i p = percentile_index p ?n" for p
  have n: "0 < ?n" "?n < 2 ^ 46" and s: "sorted l" and st: "set l = set latencies" using assms by (simp_all add: l_def)
  have b: "0 \<le> i (1/2) \<and> i (1/2) < int ?n" "0 \<le> i (95/100) \<and> i (95/100) < int ?n" "0 \<le> i (99/100) \<and> i (99/100) < int ?n"
    unfolding i_def using n percentile_bounds [of "1/2" 127 ?n] percentile_bounds [of "95/100" 127 ?n] percentile_bounds [of "99/100" 127 ?n]
    by (simp_all add: power_int_minus)
  have m: "i (1/2) \<le> i (95/100)" "i (95/100) \<le> i (99/100)" unfolding i_def by (simp_all add: percentile_mono)
  have "percentiles latencies = Some (l ! 0, l ! nat (i (1/2)), l ! nat (i (95/100)), l ! nat (i (99/100)), l ! (?n - 1))"
    unfolding percentiles_def Let_def l_def [symmetric] i_def [symmetric] using n b by (simp add: read_at_def nat_diff_distrib)
  moreover have "l ! 0 \<le> l ! nat (i (1/2))" "l ! nat (i (1/2)) \<le> l ! nat (i (95/100))" "l ! nat (i (95/100)) \<le> l ! nat (i (99/100))"
    "l ! nat (i (99/100)) \<le> l ! (?n - 1)"
    using s n b m by (intro sorted_nth_mono; linarith)+
  moreover have "{l ! 0, l ! nat (i (1/2)), l ! nat (i (95/100)), l ! nat (i (99/100)), l ! (?n - 1)} \<subseteq> set latencies"
    unfolding st [symmetric] using n b by (auto intro!: nth_mem)
  moreover have "\<forall>x\<in>set latencies. l ! 0 \<le> x \<and> x \<le> l ! (?n - 1)"
    unfolding st [symmetric] using s by (auto simp: in_set_conv_nth intro!: sorted_nth_mono)
  ultimately show ?thesis by blast
qed


section \<open>Schedules\<close>

text \<open>A run given by its schedule: the worker that goes next, the time and the answer it sees.\<close>

fun run_schedule :: "chaos_config \<Rightarrow> (string \<Rightarrow> chaos_body option) \<Rightarrow> (nat \<times> gtime \<times> chaos_answer) list \<Rightarrow> chaos_run \<Rightarrow> chaos_run option" where
  "run_schedule cfg dec [] s = Some s"
| "run_schedule cfg dec ((i, t, r) # sched) s =
     (if i < length (ch_workers s)
      then (case worker_step cfg dec t r (ch_workers s ! i) s of
              None \<Rightarrow> None
            | Some (w, s') \<Rightarrow> run_schedule cfg dec sched (s'\<lparr>ch_workers := (ch_workers s)[i := w]\<rparr>))
      else None)"

lemma run_schedule_steps: "run_schedule cfg dec sched s = Some s' \<Longrightarrow> (chaos_step cfg dec ^^ length sched) s s'"
proof (induction cfg dec sched s rule: run_schedule.induct)
  case (2 cfg dec i t r sched s)
  then obtain w s1 where "i < length (ch_workers s)" "worker_step cfg dec t r (ch_workers s ! i) s = Some (w, s1)"
    "run_schedule cfg dec sched (s1\<lparr>ch_workers := (ch_workers s)[i := w]\<rparr>) = Some s'"
    by (auto split: if_splits option.splits)
  then show ?case using 2 chaos_step.worker by (auto intro!: relpowp_Suc_I2 simp del: relpowp.simps(2))
qed simp

lemmas run_schedule_reachable = relpowp_imp_rtranclp [OF run_schedule_steps]

text \<open>One worker and two items: a hit through the replica, then an unreachable gateway.\<close>

definition demo_chaos :: chaos_config where
  "demo_chaos = \<lparr>cc_GatewayURL = ''http://g'', cc_Scenario = ScenarioPrimaryKill, cc_TotalRequests = 2, cc_Concurrency = 1, cc_RequestDelay = 0,
     cc_ChaosDelay = 0, cc_NodeProcessHook = True\<rparr>"

definition demo_decode :: "string \<Rightarrow> chaos_body option" where
  "demo_decode b = (if b = ''hit'' then Some \<lparr>cb_Status = ''hit'', cb_Value = ''other'', cb_IsFailover = True\<rparr> else None)"

definition demo_schedule :: "(nat \<times> gtime \<times> chaos_answer) list" where
  "demo_schedule =
     map (\<lambda>(t, r). (0, t, r))
       [(0, Inl []), (1, Inr (200, [])), (5000000, Inr (200, ''hit'')), (6, Inl []), (7, Inl []), (8, Inl []),
        (10000000, Inl []), (11, Inl ''refused''), (12000000, Inl ''refused''), (13, Inl []), (14, Inl []), (15, Inl [])]"

definition demo_end :: chaos_run where
  "demo_end = the (run_schedule (NewRunner demo_chaos) demo_decode demo_schedule (chaos_start (NewRunner demo_chaos) 0))"

lemma demo_end_runs: "run_schedule (NewRunner demo_chaos) demo_decode demo_schedule (chaos_start (NewRunner demo_chaos) 0) = Some demo_end"
  unfolding demo_end_def by code_simp

lemma demo_end_waited: "waited demo_end" "length (ch_latencies demo_end) = 2"
  by code_simp+

section \<open>Properties\<close>

text \<open>C6. Every chaos experiment ends: whatever the gateway answers and however the workers and the injecting goroutine are
  scheduled, a run makes at most seven steps per request, one per worker and one per injected action, and as long as a worker is
  still in its loop a step is possible. So every maximal run reaches the point where \<^verbatim>\<open>wg.Wait\<close> returns.\<close>

theorem chaos_run_terminates:
  assumes "(chaos_step (NewRunner cfg) dec ^^ k) (chaos_start (NewRunner cfg) t) s"
  shows "k \<le> 7 * nat (cc_TotalRequests (NewRunner cfg)) + nat (cc_Concurrency (NewRunner cfg)) + length (chaos_script (NewRunner cfg))
    \<and> (waited s \<or> (\<exists>s'. chaos_step (NewRunner cfg) dec s s' \<and> remaining_steps s' < remaining_steps s))"
proof
  show "k \<le> 7 * nat (cc_TotalRequests (NewRunner cfg)) + nat (cc_Concurrency (NewRunner cfg)) + length (chaos_script (NewRunner cfg))"
    using chaos_run_length [OF assms] by (simp add: remaining_steps_def chaos_start_def length_work_items sum_list_replicate)
  show "waited s \<or> (\<exists>s'. chaos_step (NewRunner cfg) dec s s' \<and> remaining_steps s' < remaining_steps s)"
    using chaos_step_enabled chaos_step_decreases by blast
qed

theorem chaos_run_terminates_witness: "length demo_schedule \<le> 7 * 2 + 1 + 3"
  using chaos_run_terminates [OF run_schedule_steps [OF demo_end_runs]]
  by (simp add: NewRunner_def demo_chaos_def chaos_script_def)

text \<open>C28. When the workers are done every request is accounted for: the write of every item was sent exactly once, successes and
  failures add up to the configured number of requests, failovers are among the successes, and the rate is a percentage, which is 100
  when nothing failed.\<close>

theorem chaos_scorecard_accounts:
  assumes "(chaos_step (NewRunner cfg) dec)\<^sup>*\<^sup>* (chaos_start (NewRunner cfg) t) s" "waited s" "run_scorecard (NewRunner cfg) d s = Some sc"
    and "cc_TotalRequests cfg < 2 ^ 53"
  shows "sco_TotalRequests sc = cc_TotalRequests (NewRunner cfg)
    \<and> sco_SuccessfulRequests sc + sco_FailedRequests sc = sco_TotalRequests sc
    \<and> 0 \<le> sco_FailoverHits sc \<and> sco_FailoverHits sc \<le> sco_SuccessfulRequests sc
    \<and> 0 \<le> sco_SuccessRate sc \<and> sco_SuccessRate sc \<le> 100 \<and> (sco_FailedRequests sc = 0 \<longrightarrow> sco_SuccessRate sc = 100)
    \<and> mset (sets_sent s) = image_mset (chaos_set_request (NewRunner cfg)) (mset (work_items (NewRunner cfg)))"
proof -
  note acc = accounts_reachable [OF assms(1)]
  note w = waited_accounts [OF assms(2) acc NewRunner_positive(1)]
  have tot: "ch_success s + ch_failed s = cc_TotalRequests (NewRunner cfg)"
    using w(2) NewRunner_positive(2) [of cfg] by (simp add: length_work_items)
  have lt: "cc_TotalRequests (NewRunner cfg) < 2 ^ 53" using assms(4) by (simp add: NewRunner_def)
  have pos: "0 \<le> ch_success s" "0 \<le> ch_failed s" "0 \<le> ch_failover s" using acc by (simp_all add: accounts_def)
  have rate: "0 \<le> success_rate (ch_success s) (ch_success s + ch_failed s)" "success_rate (ch_success s) (ch_success s + ch_failed s) \<le> 100"
    "ch_failed s = 0 \<Longrightarrow> success_rate (ch_success s) (ch_success s + ch_failed s) = 100"
    using success_rate_bounds [of "ch_success s" "ch_success s + ch_failed s"] pos tot lt NewRunner_positive(2) [of cfg] by simp_all
  have "mset (sets_sent s) = image_mset (chaos_set_request (NewRunner cfg)) (mset (work_items (NewRunner cfg)))"
    using sends_each_reachable [OF assms(1)] w(1) waited_held [OF assms(2)] by (simp add: sends_each_def)
  with assms(3) tot pos rate w(4) show ?thesis
    by (auto simp: run_scorecard_def Let_def split: option.splits)
qed

theorem chaos_scorecard_accounts_witness:
  "\<exists>sc. run_scorecard (NewRunner demo_chaos) 20000000 demo_end = Some sc \<and> sco_TotalRequests sc = 2"
proof -
  obtain sc where c: "run_scorecard (NewRunner demo_chaos) 20000000 demo_end = Some sc"
    using percentiles_ordered [of "ch_latencies demo_end"] demo_end_waited(2) by (fastforce simp: run_scorecard_def Let_def)
  have "cc_TotalRequests demo_chaos < 2 ^ 53" by (simp add: demo_chaos_def)
  with chaos_scorecard_accounts [OF run_schedule_reachable [OF demo_end_runs] demo_end_waited(1) c]
  have "sco_TotalRequests sc = 2" by (simp add: NewRunner_def demo_chaos_def)
  with c show ?thesis by blast
qed

text \<open>C29. The scorecard is always produced: below \<open>2 ^ 46\<close> requests the percentile indices, computed in floating point, stay
  inside the sorted list, so no read of it panics, and the five figures are measured latencies in ascending order between the least
  and the greatest.\<close>

theorem chaos_percentiles_in_range:
  assumes "(chaos_step (NewRunner cfg) dec)\<^sup>*\<^sup>* (chaos_start (NewRunner cfg) t) s" "waited s" "cc_TotalRequests cfg < 2 ^ 46"
  shows "\<exists>sc. run_scorecard (NewRunner cfg) d s = Some sc
    \<and> sco_MinLatencyMs sc \<le> sco_P50LatencyMs sc \<and> sco_P50LatencyMs sc \<le> sco_P95LatencyMs sc
    \<and> sco_P95LatencyMs sc \<le> sco_P99LatencyMs sc \<and> sco_P99LatencyMs sc \<le> sco_MaxLatencyMs sc
    \<and> {sco_MinLatencyMs sc, sco_P50LatencyMs sc, sco_P95LatencyMs sc, sco_P99LatencyMs sc, sco_MaxLatencyMs sc} \<subseteq> set (ch_latencies s)
    \<and> (\<forall>x\<in>set (ch_latencies s). sco_MinLatencyMs sc \<le> x \<and> x \<le> sco_MaxLatencyMs sc)"
proof -
  have n: "length (ch_latencies s) = nat (cc_TotalRequests (NewRunner cfg))"
    using waited_accounts(3) [OF assms(2) accounts_reachable [OF assms(1)] NewRunner_positive(1)] by (simp add: length_work_items)
  have "cc_TotalRequests (NewRunner cfg) < 2 ^ 46" using assms(3) by (simp add: NewRunner_def)
  then have "length (ch_latencies s) < 2 ^ 46" "ch_latencies s \<noteq> []"
    using n NewRunner_positive(2) [of cfg] by (simp_all add: nat_less_iff length_0_conv [symmetric] del: length_0_conv)
  from percentiles_ordered [OF this] obtain lo p50 p95 p99 hi where
    p: "percentiles (ch_latencies s) = Some (lo, p50, p95, p99, hi)" "lo \<le> p50" "p50 \<le> p95" "p95 \<le> p99" "p99 \<le> hi"
    "{lo, p50, p95, p99, hi} \<subseteq> set (ch_latencies s)" "\<forall>x\<in>set (ch_latencies s). lo \<le> x \<and> x \<le> hi" by (elim exE conjE)
  from p(1) obtain sc where sc: "run_scorecard (NewRunner cfg) d s = Some sc"
    "sco_MinLatencyMs sc = lo" "sco_P50LatencyMs sc = p50" "sco_P95LatencyMs sc = p95" "sco_P99LatencyMs sc = p99" "sco_MaxLatencyMs sc = hi"
    by (simp add: run_scorecard_def Let_def)
  from p(2-7) show ?thesis by (intro exI [of _ sc]) (simp only: sc simp_thms)
qed

theorem chaos_percentiles_in_range_witness:
  "\<exists>sc. run_scorecard (NewRunner demo_chaos) 20000000 demo_end = Some sc \<and> sco_P50LatencyMs sc \<le> sco_P99LatencyMs sc"
proof -
  have "cc_TotalRequests demo_chaos < 2 ^ 46" by (simp add: demo_chaos_def)
  from chaos_percentiles_in_range [OF run_schedule_reachable [OF demo_end_runs] demo_end_waited(1) this, of 20000000]
  show ?thesis by (meson order_trans)
qed

text \<open>No experiment reports a corruption, although in the run above the value read back is not the value written; and a run may be
  over, with its scorecard made, before the injecting goroutine has taken its first step.\<close>

lemma chaos_corruption_never_counted:
  "(chaos_step cfg dec)\<^sup>*\<^sup>* (chaos_start cfg t) s \<Longrightarrow> run_scorecard cfg d s = Some sc \<Longrightarrow> sco_DataCorruptions sc = 0"
  using accounts_reachable [of cfg dec t s] by (auto simp: accounts_def run_scorecard_def Let_def split: option.splits)

lemma chaos_may_not_happen:
  "(chaos_step (NewRunner demo_chaos) demo_decode)\<^sup>*\<^sup>* (chaos_start (NewRunner demo_chaos) 0) demo_end \<and> waited demo_end
    \<and> ch_script demo_end = chaos_script (NewRunner demo_chaos) \<and> ch_hooks demo_end = []"
proof -
  have "ch_script demo_end = chaos_script (NewRunner demo_chaos)" "ch_hooks demo_end = []" by code_simp+
  then show ?thesis using run_schedule_reachable [OF demo_end_runs] demo_end_waited(1) by blast
qed

end
