(* ===== verification/Go_Url.thy ===== *)
theory Go_Url
  imports Go_Strings
begin

text \<open>
  What \<^verbatim>\<open>net/url\<close> and \<^verbatim>\<open>net/http\<close> do with the URLs the program builds with \<^verbatim>\<open>Sprintf\<close>: the fragment is cut off, the query is sent as
  it is written, and the other side splits it at \<^verbatim>\<open>&\<close> and \<^verbatim>\<open>=\<close> and decodes escapes. A URL with a control character or a malformed
  escape in its fragment is refused by \<^verbatim>\<open>NewRequest\<close>; one with a space in its query breaks the request line and is answered 400 by the
  HTTP server of the other side, before any handler runs. Scheme, host and path are not taken apart; headers have room for the URL.
\<close>

section \<open>Definitions\<close>

subsection \<open>Escapes\<close>

definition unhex :: "char \<Rightarrow> nat option" where
  "unhex c =
     (if is_digit c then Some (code c - 48)
      else if 97 \<le> code c \<and> code c \<le> 102 then Some (code c - 87)
      else if 65 \<le> code c \<and> code c \<le> 70 then Some (code c - 55) else None)"

text \<open>\<^verbatim>\<open>url.QueryUnescape\<close>, \<open>None\<close> for an error.\<close>

fun QueryUnescape :: "string \<Rightarrow> string option" where
  "QueryUnescape [] = Some []"
| "QueryUnescape (c # s) =
     (if c = CHR ''%'' then
        (case s of a # b # r \<Rightarrow>
           (case (unhex a, unhex b) of
              (Some m, Some n) \<Rightarrow> map_option (Cons (char_of (16 * m + n))) (QueryUnescape r)
            | _ \<Rightarrow> None)
         | _ \<Rightarrow> None)
      else map_option (Cons (if c = CHR ''+'' then CHR '' '' else c)) (QueryUnescape s))"

text \<open>\<^verbatim>\<open>url.QueryEscape\<close>, what the other client libraries apply to a key and the Go code does not.\<close>

definition unreserved :: "char \<Rightarrow> bool" where
  "unreserved c \<longleftrightarrow> is_digit c \<or> 65 \<le> code c \<and> code c \<le> 90 \<or> 97 \<le> code c \<and> code c \<le> 122 \<or> c \<in> {CHR ''-'', CHR ''_'', CHR ''.'', CHR ''~''}"

definition hex_digit :: "nat \<Rightarrow> char" where
  "hex_digit n = char_of (if n < 10 then 48 + n else 55 + n)"

definition escape_char :: "char \<Rightarrow> string" where
  "escape_char c =
     (if unreserved c then [c] else if c = CHR '' '' then ''+''
      else [CHR ''%'', hex_digit (code c div 16), hex_digit (code c mod 16)])"

definition QueryEscape :: "string \<Rightarrow> string" where
  "QueryEscape s = concat (map escape_char s)"

subsection \<open>Queries\<close>

text \<open>One part of a query; \<open>None\<close> when it is skipped.\<close>

definition query_part :: "string \<Rightarrow> (string \<times> string) option" where
  "query_part p =
     (if p = [] \<or> CHR '';'' \<in> set p then None
      else let (k, v) = split_at_char (CHR ''='') p
           in case (QueryUnescape k, QueryUnescape v) of (Some k', Some v') \<Rightarrow> Some (k', v') | _ \<Rightarrow> None)"

lemma split_shorter: "s \<noteq> [] \<Longrightarrow> (p, rest) = split_at_char c s \<Longrightarrow> length rest < length s"
  using length_dropWhile_le [of "\<lambda>x. x \<noteq> c" s] by (cases "dropWhile (\<lambda>x. x \<noteq> c) s") (auto simp: split_at_char_def)

text \<open>\<^verbatim>\<open>url.ParseQuery\<close> without its error, which \<^verbatim>\<open>r.URL.Query()\<close> drops.\<close>

function ParseQuery :: "string \<Rightarrow> (string \<times> string) list" where
  "ParseQuery s =
     (if s = [] then []
      else let (p, rest) = split_at_char (CHR ''&'') s
           in (case query_part p of Some kv \<Rightarrow> [kv] | None \<Rightarrow> []) @ ParseQuery rest)"
  by auto
termination
  by (relation "measure length") (use split_shorter in simp_all)

declare ParseQuery.simps [simp del]

definition Query_Get :: "(string \<times> string) list \<Rightarrow> string \<Rightarrow> string" where
  "Query_Get kvs name = (case map_of kvs name of Some v \<Rightarrow> v | None \<Rightarrow> [])"

subsection \<open>Sending\<close>

definition url_control :: "char \<Rightarrow> bool" where
  "url_control c \<longleftrightarrow> code c < 32 \<or> code c = 127"

definition RawQuery :: "string \<Rightarrow> string" where
  "RawQuery url = snd (split_at_char (CHR ''?'') (fst (split_at_char (CHR ''#'') url)))"

text \<open>What becomes of a request sent to a URL: no request, an answer 400 of the HTTP server, or a handler that sees the query.\<close>

datatype url_fate = UrlInvalid | UrlBadRequest | UrlQuery "(string \<times> string) list"

definition url_fate_of :: "string \<Rightarrow> url_fate" where
  "url_fate_of url =
     (let (u, frag) = split_at_char (CHR ''#'') url
      in if list_ex url_control u \<or> QueryUnescape frag = None then UrlInvalid
         else if CHR '' '' \<in> set (RawQuery url) then UrlBadRequest
         else UrlQuery (ParseQuery (RawQuery url)))"

text \<open>The characters of a key that travel through a URL as they are, and an address no part of which is query or fragment.\<close>

definition url_safe :: "char \<Rightarrow> bool" where
  "url_safe c \<longleftrightarrow> \<not> url_control c \<and> c \<notin> {CHR '' '', CHR ''&'', CHR ''#'', CHR ''%'', CHR ''+'', CHR '';''}"

definition plain_base :: "string \<Rightarrow> bool" where
  "plain_base b \<longleftrightarrow> list_all (\<lambda>c. \<not> url_control c \<and> c \<noteq> CHR ''#'' \<and> c \<noteq> CHR ''?'') b"

section \<open>Lemmas\<close>

subsection \<open>Escapes\<close>

lemma unhex_hex_digit [simp]: "n < 16 \<Longrightarrow> unhex (hex_digit n) = Some n"
  by (simp add: unhex_def hex_digit_def is_digit_def)

lemma unescape_safe: "list_all url_safe k \<Longrightarrow> QueryUnescape k = Some k"
  by (induction k) (auto simp: url_safe_def)

lemma unreserved_plain: "unreserved c \<Longrightarrow> c \<notin> {CHR ''%'', CHR ''+'', CHR '' '', CHR ''&'', CHR ''#'', CHR '';'', CHR ''?'', CHR ''=''} \<and> \<not> url_control c"
  by (auto simp: unreserved_def is_digit_def url_control_def)

lemma char_nibbles: "code c div 16 < 16" "code c mod 16 < 16"
proof -
  have "code c < 16 * 16" by simp
  then show "code c div 16 < 16" by (rule less_mult_imp_div_less)
qed simp

lemma unescape_escape_char: "QueryUnescape (escape_char c @ s) = map_option (Cons c) (QueryUnescape s)"
  using unreserved_plain [of c] char_nibbles [of c] by (simp add: escape_char_def)

lemma unescape_escape: "QueryUnescape (QueryEscape s) = Some s"
  by (induction s) (simp_all add: QueryEscape_def unescape_escape_char)

lemma hex_digit_plain: "n < 16 \<Longrightarrow> unreserved (hex_digit n)"
  by (auto simp: unreserved_def hex_digit_def is_digit_def)

lemma escape_chars:
  assumes "c \<in> set (QueryEscape s)" shows "c \<notin> {CHR '' '', CHR ''&'', CHR ''#'', CHR '';''} \<and> \<not> url_control c"
proof -
  obtain d where "c \<in> set (escape_char d)" using assms by (auto simp: QueryEscape_def)
  moreover have "code d div 16 < 16" "code d mod 16 < 16" using char_nibbles [of d] by (simp_all add: less_mult_imp_div_less)
  ultimately have "unreserved c \<or> c = CHR ''+'' \<or> c = CHR ''%''"
    using hex_digit_plain [of "code d div 16"] hex_digit_plain [of "code d mod 16"] by (auto simp: escape_char_def split: if_splits)
  then show ?thesis using unreserved_plain [of c] by (auto simp: url_control_def)
qed

subsection \<open>Queries\<close>

lemma split_none: "c \<notin> set s \<Longrightarrow> split_at_char c s = (s, [])"
  by (induction s) (auto simp: split_at_char_def)

lemma split_first: "c \<notin> set s \<Longrightarrow> split_at_char c (s @ c # r) = (s, r)"
  by (induction s) (auto simp: split_at_char_def)

text \<open>A value without separators is found under its name, whatever follows the next separator.\<close>

lemma query_first:
  assumes "CHR ''&'' \<notin> set v" "CHR '';'' \<notin> set v" "QueryUnescape v = Some w" "r = [] \<or> hd r = CHR ''&''"
  shows "Query_Get (ParseQuery (''key='' @ v @ r)) ''key'' = w"
proof -
  have part: "query_part (''key='' @ v) = Some (''key'', w)"
    using assms(2,3) split_first [of "CHR ''=''" "''key''" v] by (simp add: query_part_def)
  have "split_at_char (CHR ''&'') (''key='' @ v @ r) = (''key='' @ v, tl r)"
    using assms(1,4) split_none [of "CHR ''&''" "''key='' @ v"] split_first [of "CHR ''&''" "''key='' @ v" "tl r"] by (cases r) auto
  then have "ParseQuery (''key='' @ v @ r) = (''key'', w) # ParseQuery (tl r)"
    using part by (subst ParseQuery.simps) simp
  then show ?thesis by (simp add: Query_Get_def)
qed

subsection \<open>URLs\<close>

lemma base_split:
  assumes "plain_base b" "CHR ''#'' \<notin> set v" "CHR ''#'' \<notin> set p" "CHR ''?'' \<notin> set p" "r = [] \<or> hd r = CHR ''#''"
  shows "split_at_char (CHR ''#'') (b @ p @ ''?'' @ v @ r) = (b @ p @ ''?'' @ v, tl r)" "RawQuery (b @ p @ ''?'' @ v @ r) = v"
proof -
  have b: "CHR ''#'' \<notin> set b" "CHR ''?'' \<notin> set b" using assms(1) by (auto simp: plain_base_def list_all_iff)
  show eq: "split_at_char (CHR ''#'') (b @ p @ ''?'' @ v @ r) = (b @ p @ ''?'' @ v, tl r)"
    using assms b split_none [of "CHR ''#''" "b @ p @ ''?'' @ v"] split_first [of "CHR ''#''" "b @ p @ ''?'' @ v" "tl r"] by (cases r) auto
  show "RawQuery (b @ p @ ''?'' @ v @ r) = v"
    using split_first [of "CHR ''?''" "b @ p" v] assms(4) b(2) by (simp add: RawQuery_def eq [simplified])
qed

end
