(* ===== verification/Go_Client.thy ===== *)
theory Go_Client
  imports Go_Strings
begin

text \<open>
  The Go client of the gateway (\<^verbatim>\<open>src/sdk/go/shc.go\<close>): one definition per method. Building a request, the exchange, and the JSON encoder and
  decoder are the record \<open>sdk_env\<close>, an argument; the exchange returns the status and the body, of which the code reads the body only.
\<close>

section \<open>Definitions\<close>

record sdk_client =
  sk_host :: string
  sk_timeout :: duration

record sdk_set_request =
  ss_Key :: string
  ss_Value :: string
  ss_TTLSeconds :: int

record sdk_response =
  sx_Status :: string
  sx_Key :: string
  sx_Value :: string
  sx_Source :: string
  sx_ServedBy :: string
  sx_IsFailover :: bool
  sx_DBUpdated :: bool
  sx_Message :: string

record sdk_env =
  sn_marshal :: "sdk_set_request \<Rightarrow> string option"
  sn_newRequest :: "string \<Rightarrow> string \<Rightarrow> string option"
  sn_do :: "string \<Rightarrow> string \<Rightarrow> string \<Rightarrow> string + int \<times> string"
  sn_decode :: "string \<Rightarrow> string + sdk_response"

definition TrimSuffix_slash :: "string \<Rightarrow> string" where
  "TrimSuffix_slash s = (if s \<noteq> [] \<and> last s = CHR ''/'' then butlast s else s)"

definition sdk_New :: "string \<Rightarrow> sdk_client" where
  "sdk_New host = \<lparr>sk_host = TrimSuffix_slash host, sk_timeout = 1500 * millisecond\<rparr>"

text \<open>The part the three methods share: request, exchange, decoding.\<close>

definition sdk_call :: "sdk_env \<Rightarrow> string \<Rightarrow> string \<Rightarrow> string \<Rightarrow> string + sdk_response" where
  "sdk_call env method url body =
     (case sn_newRequest env method url of
        Some err \<Rightarrow> Inl err
      | None \<Rightarrow>
          (case sn_do env method url body of
             Inl err \<Rightarrow> Inl err
           | Inr (status, reply) \<Rightarrow> (case sn_decode env reply of Inl err \<Rightarrow> Inl err | Inr r \<Rightarrow> Inr r)))"

text \<open>The error of the encoder is dropped: the body is then empty.\<close>

definition sdk_Set :: "sdk_env \<Rightarrow> sdk_client \<Rightarrow> string \<Rightarrow> string \<Rightarrow> int \<Rightarrow> string + sdk_response" where
  "sdk_Set env c key val ttlSeconds =
     (let body = (case sn_marshal env \<lparr>ss_Key = key, ss_Value = val, ss_TTLSeconds = ttlSeconds\<rparr> of Some b \<Rightarrow> b | None \<Rightarrow> [])
      in sdk_call env ''POST'' (sk_host c @ ''/api/set'') body)"

definition sdk_Get :: "sdk_env \<Rightarrow> sdk_client \<Rightarrow> string \<Rightarrow> string + sdk_response" where
  "sdk_Get env c key = sdk_call env ''GET'' (sk_host c @ ''/api/get?key='' @ key) []"

definition sdk_Evict :: "sdk_env \<Rightarrow> sdk_client \<Rightarrow> string \<Rightarrow> string + sdk_response" where
  "sdk_Evict env c key = sdk_call env ''DELETE'' (sk_host c @ ''/api/delete?key='' @ key) []"

section \<open>Lemmas\<close>

text \<open>The status of the answer makes no difference: an error answer with a JSON body is returned like a success.\<close>

lemma sdk_ignores_status:
  assumes "\<And>m u b. rel_sum (\<lambda>_ _. True) (\<lambda>x y. snd x = snd y) (sn_do env m u b) (sn_do env' m u b)"
    and "sn_newRequest env' = sn_newRequest env" "sn_decode env' = sn_decode env" "sdk_call env m u b = Inr r"
  shows "sdk_call env' m u b = Inr r"
  using assms(1) [of m u b] assms(2-4) by (auto simp: sdk_call_def split: option.splits sum.splits elim!: rel_sum.cases)

text \<open>A host with and without a trailing slash give the same requests.\<close>

lemma sdk_New_slash: "h = [] \<or> last h \<noteq> CHR ''/'' \<Longrightarrow> sdk_New (h @ ''/'') = sdk_New h"
  by (auto simp: sdk_New_def TrimSuffix_slash_def)

end
