(* ===== verification/Url_Keys.thy ===== *)
theory Url_Keys
  imports Go_Url Go_Client Gateway_Properties Node_Properties
begin

text \<open>
  Keys in URLs: the client library asks the gateway and the gateway asks the nodes with the key written into the URL as it is. Here the
  requests of \<open>Go_Client\<close>, \<open>Gateway\<close>, \<open>Failover\<close> and \<open>Replicator\<close> meet the handlers of \<open>Gateway\<close> and \<open>Node_Server\<close> through the query
  parsing of \<open>Go_Url\<close>: which key a handler sees, what a client reads, and what happens to a key that contains a separator.
\<close>

declare map_of_eq_Some_iff [simp del]

section \<open>Definitions\<close>

text \<open>The request a handler gets when a method is sent to a URL without a body, if any handler gets one. \<^verbatim>\<open>FormValue\<close> then reads the query.\<close>

definition http_request :: "string \<Rightarrow> string \<Rightarrow> request option" where
  "http_request meth url =
     (case url_fate_of url of
        UrlQuery kvs \<Rightarrow> Some \<lparr>q_method = meth, q_query = Query_Get kvs, q_form = Query_Get kvs, q_body = []\<rparr>
      | _ \<Rightarrow> None)"

definition http_gw_request :: "string \<Rightarrow> string \<Rightarrow> gw_request option" where
  "http_gw_request meth url =
     (case url_fate_of url of
        UrlQuery kvs \<Rightarrow> Some \<lparr>gq_method = meth, gq_query = Query_Get kvs, gq_body = []\<rparr>
      | _ \<Rightarrow> None)"

text \<open>What the client library decodes from an answer to a read or a delete: the members of the JSON object that its struct names.\<close>

definition sdk_view :: "gw_body \<Rightarrow> sdk_response option" where
  "sdk_view b =
     (case b of
        GClient c \<Rightarrow>
          Some \<lparr>sx_Status = cr_Status c, sx_Key = cr_Key c, sx_Value = cr_Value c, sx_Source = [], sx_ServedBy = cr_ServedBy c,
                sx_IsFailover = cr_IsFailover c, sx_DBUpdated = False, sx_Message = cr_Message c\<rparr>
      | GCacheHit key val ttl ver servedBy isFailover lat \<Rightarrow>
          Some \<lparr>sx_Status = ''hit'', sx_Key = key, sx_Value = val, sx_Source = ''distributed_cache'', sx_ServedBy = servedBy,
                sx_IsFailover = isFailover, sx_DBUpdated = False, sx_Message = []\<rparr>
      | GDatabaseHit key val trip lat dbLat \<Rightarrow>
          Some \<lparr>sx_Status = ''hit'', sx_Key = key, sx_Value = val, sx_Source = ''backing_database'', sx_ServedBy = [],
                sx_IsFailover = False, sx_DBUpdated = False, sx_Message = []\<rparr>
      | GMiss key servedBy \<Rightarrow>
          Some \<lparr>sx_Status = ''miss'', sx_Key = key, sx_Value = [], sx_Source = [], sx_ServedBy = servedBy,
                sx_IsFailover = False, sx_DBUpdated = False, sx_Message = ''Key not found in cache or persistent database''\<rparr>
      | _ \<Rightarrow> None)"

text \<open>An exchange that delivers the answer of a handler: a node's to a read, the gateway's to the client library. The body that arrives is
  decoded to the members the receiver names.\<close>

definition delivers_get :: "read_env \<Rightarrow> nat \<Rightarrow> string \<Rightarrow> response \<Rightarrow> bool" where
  "delivers_get env n url resp \<longleftrightarrow>
     fe_newRequest env url = None
   \<and> (\<exists>body. fe_do env n url = Inr (fst resp, body)
        \<and> (\<forall>g. snd resp = BGet g \<longrightarrow>
             fe_decode env body =
               Inr \<lparr>ng_Status = gp_Status g, ng_Key = gp_Key g, ng_Value = gp_Value g, ng_TTLRemaining = gp_TTLRemaining g,
                    ng_Version = gp_Version g, ng_IsReplica = gp_IsReplica g, ng_NodeID = gp_NodeID g\<rparr>))"

definition delivers_sdk :: "sdk_env \<Rightarrow> string \<Rightarrow> gw_reply \<Rightarrow> bool" where
  "delivers_sdk env url reply \<longleftrightarrow>
     sn_newRequest env ''GET'' url = None
   \<and> (\<exists>body. sn_do env ''GET'' url [] = Inr (fst reply, body) \<and> (\<forall>r. sdk_view (snd reply) = Some r \<longrightarrow> sn_decode env body = Inr r))"

text \<open>The key a handler sees, and the keys that are seen as another: \<open>arrives_as K k\<close> says that \<open>K\<close>, written into a URL, is seen as \<open>k\<close>.\<close>

definition url_key :: "string \<Rightarrow> string option" where
  "url_key url = (case url_fate_of url of UrlQuery kvs \<Rightarrow> Some (Query_Get kvs ''key'') | _ \<Rightarrow> None)"

inductive arrives_as :: "string \<Rightarrow> string \<Rightarrow> bool" where
  same: "list_all url_safe k \<Longrightarrow> arrives_as k k"
| cut: "list_all url_safe k \<Longrightarrow> list_all url_safe rest \<Longrightarrow> sep \<in> {CHR ''&'', CHR ''#''} \<Longrightarrow> arrives_as (k @ sep # rest) k"
| escaped: "arrives_as (QueryEscape k) k"

section \<open>Lemmas\<close>

lemma safe_chars: "list_all url_safe k \<Longrightarrow> c \<in> set k \<Longrightarrow> c \<notin> {CHR '' '', CHR ''&'', CHR ''#'', CHR '';''} \<and> \<not> url_control c"
  by (auto simp: list_all_iff url_safe_def)

text \<open>A URL whose query is \<open>v\<close> and whose fragment is \<open>r\<close>.\<close>

lemma fate_split:
  assumes "plain_base b" "plain_base p" "\<forall>c\<in>set v. c \<notin> {CHR '' '', CHR ''#''} \<and> \<not> url_control c"
    "r = [] \<or> hd r = CHR ''#''" "QueryUnescape (tl r) \<noteq> None"
  shows "url_fate_of (b @ p @ ''?key='' @ v @ r) = UrlQuery (ParseQuery (''key='' @ v))"
proof -
  have p: "CHR ''#'' \<notin> set p" "CHR ''?'' \<notin> set p" using assms(2) by (auto simp: plain_base_def list_all_iff)
  have v: "CHR ''#'' \<notin> set (''key='' @ v)" "CHR '' '' \<notin> set v" using assms(3) by auto
  have ctl: "\<not> list_ex url_control (b @ p @ ''?'' @ ''key='' @ v)"
    using assms(1-3) by (auto simp: plain_base_def list_all_iff list_ex_iff url_control_def)
  note split = base_split [OF assms(1) v(1) p assms(4)]
  have "url_fate_of (b @ p @ ''?'' @ (''key='' @ v) @ r) = UrlQuery (ParseQuery (''key='' @ v))"
    unfolding url_fate_of_def split using ctl assms(5) v(2) by simp
  then show ?thesis by simp
qed

lemma arrives_split:
  assumes "arrives_as K k"
  shows "\<exists>v r. K = v @ r \<and> (\<forall>c\<in>set v. c \<notin> {CHR '' '', CHR ''#''} \<and> \<not> url_control c) \<and> (r = [] \<or> hd r = CHR ''#'')
    \<and> QueryUnescape (tl r) \<noteq> None \<and> Query_Get (ParseQuery (''key='' @ v)) ''key'' = k"
  using assms
proof cases
  case same
  then show ?thesis
    using query_first [of k k "[]"] safe_chars [of k] unescape_safe [of k] by (intro exI [of _ k] exI [of _ "[]"]) auto
next
  case escaped
  then show ?thesis
    using query_first [of K k "[]"] escape_chars [of _ k] unescape_escape [of k] by (intro exI [of _ K] exI [of _ "[]"]) auto
next
  case (cut rest sep)
  note k = unescape_safe [OF cut(2)] and rest = unescape_safe [OF cut(3)]
  show ?thesis
  proof (cases "sep = CHR ''&''")
    case True
    then show ?thesis
      using query_first [of k k "sep # rest"] cut(1) k safe_chars [OF cut(2)] safe_chars [OF cut(3)]
      by (intro exI [of _ K] exI [of _ "[]"]) (auto simp: url_control_def)
  next
    case False
    then show ?thesis
      using query_first [of k k "[]"] cut k rest safe_chars [OF cut(2)] by (intro exI [of _ k] exI [of _ "sep # rest"]) auto
  qed
qed

lemma arrives:
  assumes "plain_base b" "plain_base p" "arrives_as K k"
  shows "\<exists>kvs. url_fate_of (b @ p @ ''?key='' @ K) = UrlQuery kvs \<and> Query_Get kvs ''key'' = k"
  using arrives_split [OF assms(3)] fate_split [OF assms(1,2)] by (elim exE conjE) (rule exI, rule conjI, simp, simp)

text \<open>The requests behind the five URLs of the program.\<close>

lemma paths_plain:
  "plain_base ''/get''" "plain_base ''/delete''" "plain_base ''/api/get''" "plain_base ''/api/delete''" "plain_base ''/internal/replicate-delete''"
  by (simp_all add: plain_base_def url_control_def)

lemma http_arrives:
  assumes "plain_base b" "plain_base p" "arrives_as K k"
  shows "\<exists>q. http_request m (b @ p @ ''?key='' @ K) = Some q \<and> q_method q = m \<and> q_query q ''key'' = k"
    "\<exists>q. http_gw_request m (b @ p @ ''?key='' @ K) = Some q \<and> gq_method q = m \<and> gq_query q ''key'' = k"
  using arrives [OF assms] by (auto simp: http_request_def http_gw_request_def simp del: append.simps)

lemma node_get_arrives:
  "plain_base b \<Longrightarrow> arrives_as K k \<Longrightarrow> \<exists>q. http_request m (b @ ''/get?key='' @ K) = Some q \<and> q_method q = m \<and> q_query q ''key'' = k"
  using http_arrives(1) [OF _ paths_plain(1), of b K k m] by simp

lemma node_delete_arrives:
  "plain_base b \<Longrightarrow> arrives_as K k \<Longrightarrow> \<exists>q. http_request m (b @ ''/delete?key='' @ K) = Some q \<and> q_method q = m \<and> q_query q ''key'' = k"
  using http_arrives(1) [OF _ paths_plain(2), of b K k m] by simp

lemma replica_delete_arrives:
  "plain_base b \<Longrightarrow> arrives_as K k \<Longrightarrow> \<exists>q. http_request m (b @ ''/internal/replicate-delete?key='' @ K) = Some q \<and> q_method q = m \<and> q_query q ''key'' = k"
  using http_arrives(1) [OF _ paths_plain(5), of b K k m] by simp

lemma api_get_arrives:
  "plain_base b \<Longrightarrow> arrives_as K k \<Longrightarrow> \<exists>q. http_gw_request m (b @ ''/api/get?key='' @ K) = Some q \<and> gq_method q = m \<and> gq_query q ''key'' = k"
  using http_arrives(2) [OF _ paths_plain(3), of b K k m] by simp

lemma api_delete_arrives:
  "plain_base b \<Longrightarrow> arrives_as K k \<Longrightarrow> \<exists>q. http_gw_request m (b @ ''/api/delete?key='' @ K) = Some q \<and> gq_method q = m \<and> gq_query q ''key'' = k"
  using http_arrives(2) [OF _ paths_plain(4), of b K k m] by simp

text \<open>A key with a space stops at the HTTP server: no handler sees such a request.\<close>

lemma spaced_key_refused:
  assumes "plain_base b" "plain_base p" "\<forall>c\<in>set key. c \<noteq> CHR ''#'' \<and> \<not> url_control c" "CHR '' '' \<in> set key"
  shows "url_fate_of (b @ p @ ''?key='' @ key) = UrlBadRequest"
proof -
  have p: "CHR ''#'' \<notin> set p" "CHR ''?'' \<notin> set p" using assms(2) by (auto simp: plain_base_def list_all_iff)
  have v: "CHR ''#'' \<notin> set (''key='' @ key)" using assms(3) by auto
  have ctl: "\<not> list_ex url_control (b @ p @ ''?'' @ ''key='' @ key)"
    using assms(1-3) by (auto simp: plain_base_def list_all_iff list_ex_iff url_control_def)
  note split = base_split [OF assms(1) v p, of "[]", unfolded append_Nil2]
  have "url_fate_of (b @ p @ ''?'' @ (''key='' @ key)) = UrlBadRequest"
    unfolding url_fate_of_def using ctl assms(4) split by simp
  then show ?thesis by simp
qed

text \<open>What the message that deletes a key on its replica drops there, when the key arrives as another.\<close>

lemma replica_delete_drops:
  assumes "plain_base addr" "arrives_as K k" "k \<noteq> []"
  shows "\<exists>nq. http_request ''DELETE'' (addr @ ''/internal/replicate-delete?key='' @ K) = Some nq
    \<and> (\<forall>t k'. cache_view t (sv_cache (snd (handleInternalReplicateDelete nq s))) k' = (if k' = k then None else cache_view t (sv_cache s) k'))"
  using replica_delete_arrives [OF assms(1,2), of "''DELETE''"] assms(3)
  by (auto simp: handleInternalReplicateDelete_def Let_def view_delete)

lemma delivers_get_read:
  assumes "delivers_get env n (addr @ ''/get?key='' @ key) (200, BGet g)" "gp_Status g = ''hit''"
  shows "\<exists>res. readFromNode env n addr key = Inr res \<and> ng_Value res = gp_Value g \<and> ng_Version res = gp_Version g"
  using assms by (auto simp: delivers_get_def readFromNode_def Let_def)

text \<open>A gateway asked for \<open>K\<close>, whose URL the primary sees as \<open>k\<close>, hands out the entry of \<open>k\<close>.\<close>

lemma gateway_get_arrives:
  assumes arr: "arrives_as K k" "TrimSpace k \<noteq> []" "K \<noteq> []" and addr: "plain_base (nt_Addr (ring_target (gw_hashRing g) p))"
    and get: "gq_method rq = ''GET''" "gq_query rq ''key'' = K"
    and ring: "ring_exact (gw_hashRing g)" "prefs (gw_hashRing g) K = p # q # rest"
    and alive: "GetNodeState p (gw_healthMonitor g) = (StateAlive, True)"
    and held: "cache_view (gc_get t) (sv_cache s) k = Some i" "it_Value i \<noteq> []"
    and node: "\<And>query nq. http_request ''GET'' (nt_Addr (ring_target (gw_hashRing g) p) @ ''/get?'' @ query) = Some nq \<Longrightarrow>
        delivers_get (ge_read env) 0 (nt_Addr (ring_target (gw_hashRing g) p) @ ''/get?'' @ query) (fst (handleGet t nq s))"
  shows "\<exists>ttl lat. fst (handleAPIGet env rq g) = (200, GCacheHit K (it_Value i) ttl (it_Version i) p False lat)"
proof -
  obtain nq where nq: "http_request ''GET'' (nt_Addr (ring_target (gw_hashRing g) p) @ ''/get?key='' @ K) = Some nq"
    "q_method nq = ''GET''" "q_query nq ''key'' = k"
    using node_get_arrives [OF addr arr(1)] by auto
  obtain pl where pl: "fst (handleGet t nq s) = (200, BGet pl)" "gp_Status pl = ''hit''" "gp_Value pl = it_Value i" "gp_Version pl = it_Version i"
    using handleGet_hit [OF nq(2), of t s i] nq(3) arr(2) held(1) by auto
  have "delivers_get (ge_read env) 0 (nt_Addr (ring_target (gw_hashRing g) p) @ ''/get?key='' @ K) (200, BGet pl)"
    using node [of "''key='' @ K" nq] nq(1) pl(1) by simp
  from delivers_get_read [OF this pl(2)] obtain res where
    res: "readFromNode (ge_read env) 0 (nt_Addr (ring_target (gw_hashRing g) p)) K = Inr res" "ng_Value res = it_Value i" "ng_Version res = it_Version i"
    unfolding pl(3,4) by auto
  show ?thesis
    using gateway_get_primary [OF get arr(3) ring alive res(1)] res(2,3) held(2) by auto
qed

text \<open>A network in which a node answers reads and a gateway answers the client, each with what its handler makes of the URL.\<close>

abbreviation demo_get_times :: get_clock where
  "demo_get_times \<equiv> \<lparr>gc_get = 3, gc_evict = 3, gc_access = 3, gc_promote = 3, gc_reply = 3\<rparr>"

definition demo_url_env :: "string server \<Rightarrow> read_env" where
  "demo_url_env s =
     (let answer = (\<lambda>url. case http_request ''GET'' url of Some q \<Rightarrow> fst (handleGet demo_get_times q s) | None \<Rightarrow> (400, BText []))
      in \<lparr>fe_newRequest = (\<lambda>_. None), fe_do = (\<lambda>_ url. Inr (fst (answer url), url)),
          fe_decode = (\<lambda>url. case snd (answer url) of
             BGet g \<Rightarrow> Inr \<lparr>ng_Status = gp_Status g, ng_Key = gp_Key g, ng_Value = gp_Value g, ng_TTLRemaining = gp_TTLRemaining g,
                            ng_Version = gp_Version g, ng_IsReplica = gp_IsReplica g, ng_NodeID = gp_NodeID g\<rparr>
           | _ \<Rightarrow> Inl ''other''),
          fe_start = 0, fe_end = 0\<rparr>)"

definition demo_sdk_env :: "(string, 'c) gw_env \<Rightarrow> (string, 'c) gateway \<Rightarrow> sdk_env" where
  "demo_sdk_env env g =
     (let answer = (\<lambda>url. case http_gw_request ''GET'' url of Some q \<Rightarrow> fst (handleAPIGet env q g) | None \<Rightarrow> (400, GText []))
      in \<lparr>sn_marshal = (\<lambda>_. None), sn_newRequest = (\<lambda>_ _. None), sn_do = (\<lambda>_ url _. Inr (fst (answer url), url)),
          sn_decode = (\<lambda>url. case sdk_view (snd (answer url)) of Some r \<Rightarrow> Inr r | None \<Rightarrow> Inl ''other'')\<rparr>)"

lemma demo_delivers:
  "http_request ''GET'' url = Some nq \<Longrightarrow> delivers_get (demo_url_env s) n url (fst (handleGet demo_get_times nq s))"
  "http_gw_request ''GET'' url = Some gq \<Longrightarrow> delivers_sdk (demo_sdk_env env g) url (fst (handleAPIGet env gq g))"
  by (simp_all add: delivers_get_def demo_url_env_def delivers_sdk_def demo_sdk_env_def Let_def)

definition demo_holder :: "string server" where
  "demo_holder = demo_server ''A'' (snd (cache_Set 1 ''k'' ''v'' 0 (cache_New 0)))"

lemma demo_holder_view:
  "cache_view 3 (sv_cache demo_holder) ''k'' =
     Some \<lparr>it_Key = ''k'', it_Value = ''v'', it_CreatedAt = 1, it_ExpiresAt = 0, it_Version = 1, it_IsReplica = False\<rparr>"
  by (simp add: demo_holder_def cache_Set_def view_set set_item Let_def item_IsExpired_def cache_New_def)

abbreviation demo_asked_gw :: "(string, (int, trip_row) gomap) gateway" where
  "demo_asked_gw \<equiv> demo_gw\<lparr>gw_healthMonitor := demo_watch\<rparr>"

abbreviation demo_asked_env :: "(string, (int, trip_row) gomap) gw_env" where
  "demo_asked_env \<equiv> (demo_gw_env demo_set_k (\<lambda>_. True) (demo_url_env demo_holder))\<lparr>ge_delete := (\<lambda>_ _. Inr 200)\<rparr>"

lemma demo_asked:
  "plain_base (nt_Addr (ring_target (gw_hashRing demo_asked_gw) ''A''))" "plain_base ''http://g''" "ge_read demo_asked_env = demo_url_env demo_holder"
  "ring_exact (gw_hashRing demo_asked_gw)" "prefs (gw_hashRing demo_asked_gw) ''k'' = [''A'', ''BB'', ''CCC'']"
  "GetNodeState ''A'' (gw_healthMonitor demo_asked_gw) = (StateAlive, True)"
  by (simp_all add: demo_ring_addrs plain_base_def url_control_def demo_gw_env_def demo_ring_exact demo_ring_prefs demo_watch_alive)

section \<open>Properties\<close>

text \<open>C26. From the client library to the memory of a node and back: for a key made of characters that need no escape, \<open>Get\<close> of the
  client returns the value of the live entry the primary of the key holds, served by that node, whenever the primary is alive and the two
  exchanges deliver what was sent: the gateway and the node each read out of the URL the key that was put into it.\<close>

theorem client_reads_node_value:
  assumes key: "list_all url_safe key" "TrimSpace key \<noteq> []"
    and base: "plain_base (sk_host c)" "plain_base (nt_Addr (ring_target (gw_hashRing g) p))"
    and ring: "ring_exact (gw_hashRing g)" "prefs (gw_hashRing g) key = p # q # rest"
    and alive: "GetNodeState p (gw_healthMonitor g) = (StateAlive, True)"
    and held: "cache_view (gc_get t) (sv_cache s) key = Some i" "it_Value i \<noteq> []"
    and gateway: "\<And>query gq. http_gw_request ''GET'' (sk_host c @ ''/api/get?'' @ query) = Some gq \<Longrightarrow>
        delivers_sdk senv (sk_host c @ ''/api/get?'' @ query) (fst (handleAPIGet env gq g))"
    and node: "\<And>query nq. http_request ''GET'' (nt_Addr (ring_target (gw_hashRing g) p) @ ''/get?'' @ query) = Some nq \<Longrightarrow>
        delivers_get (ge_read env) 0 (nt_Addr (ring_target (gw_hashRing g) p) @ ''/get?'' @ query) (fst (handleGet t nq s))"
  shows "\<exists>r. sdk_Get senv c key = Inr r \<and> sx_Status r = ''hit'' \<and> sx_Key r = key \<and> sx_Value r = it_Value i \<and> sx_ServedBy r = p
    \<and> \<not> sx_IsFailover r"
proof -
  have arr: "arrives_as key key" "key \<noteq> []" using key by (auto intro: arrives_as.same simp: trim_k)
  obtain gq where gq: "http_gw_request ''GET'' (sk_host c @ ''/api/get?key='' @ key) = Some gq" "gq_method gq = ''GET''" "gq_query gq ''key'' = key"
    using api_get_arrives [OF base(1) arr(1)] by auto
  obtain ttl lat where "fst (handleAPIGet env gq g) = (200, GCacheHit key (it_Value i) ttl (it_Version i) p False lat)"
    using gateway_get_arrives [OF arr(1) key(2) arr(2) base(2) gq(2,3) ring alive held node] by auto
  with gateway [of "''key='' @ key" gq] gq(1) have "delivers_sdk senv (sk_host c @ ''/api/get?key='' @ key)
      (200, GCacheHit key (it_Value i) ttl (it_Version i) p False lat)" by simp
  then show ?thesis by (auto simp: delivers_sdk_def sdk_Get_def sdk_call_def sdk_view_def)
qed

theorem client_reads_node_value_witness:
  "\<exists>r. sdk_Get (demo_sdk_env demo_asked_env demo_asked_gw) (sdk_New ''http://g/'') ''k'' = Inr r \<and> sx_Status r = ''hit'' \<and> sx_Value r = ''v''
     \<and> sx_ServedBy r = ''A''"
proof -
  let ?c = "sdk_New ''http://g/''"
  have base: "plain_base (sk_host ?c)" using demo_asked(2) by (simp add: sdk_New_def TrimSuffix_slash_def)
  have key: "list_all url_safe ''k''" "TrimSpace ''k'' \<noteq> []" by (simp_all add: url_safe_def url_control_def trim_k)
  have held: "cache_view (gc_get demo_get_times) (sv_cache demo_holder) ''k'' =
      Some \<lparr>it_Key = ''k'', it_Value = ''v'', it_CreatedAt = 1, it_ExpiresAt = 0, it_Version = 1, it_IsReplica = False\<rparr>"
    using demo_holder_view by simp
  show ?thesis
    using client_reads_node_value [OF key base demo_asked(1) demo_asked(4-6) held _ demo_delivers(2), of demo_asked_env] demo_delivers(1)
    by (auto simp: demo_asked(3))
qed

text \<open>C33. A key that contains \<^verbatim>\<open>&\<close> or \<^verbatim>\<open>#\<close> cannot be read or deleted through the gateway, and asking for it hits another key.
  A client that escapes the key gets it to the gateway intact; the gateway writes it into the URL of the node unescaped, and the node sees
  only the part before the separator. A read of the long key answers with the value of the short one under the name of the long one, and a
  delete is acknowledged for the long key while the primary drops the short one and keeps the long one.\<close>

theorem separator_key_hits_other_key:
  assumes key: "key = k @ sep # suf" "sep \<in> {CHR ''&'', CHR ''#''}" "list_all url_safe k" "list_all url_safe suf" "TrimSpace k \<noteq> []"
    and base: "plain_base host" "plain_base addr" "addr = nt_Addr (ring_target (gw_hashRing g) p)"
    and ring: "ring_exact (gw_hashRing g)" "prefs (gw_hashRing g) key = p # q # rest"
    and read: "http_gw_request ''GET'' (host @ ''/api/get?key='' @ QueryEscape key) = Some rq"
      "GetNodeState p (gw_healthMonitor g) = (StateAlive, True)" "cache_view (gc_get t) (sv_cache s) k = Some i" "it_Value i \<noteq> []"
      "\<And>query nq. http_request ''GET'' (addr @ ''/get?'' @ query) = Some nq \<Longrightarrow>
        delivers_get (ge_read env) 0 (addr @ ''/get?'' @ query) (fst (handleGet t nq s))"
    and delete: "http_gw_request ''DELETE'' (host @ ''/api/delete?key='' @ QueryEscape key) = Some dq"
      "ge_newRequest env (addr @ ''/delete?key='' @ key)" "ge_delete env 0 (addr @ ''/delete?key='' @ key) = Inr status"
  shows "(\<exists>ttl lat. fst (handleAPIGet env rq g) = (200, GCacheHit key (it_Value i) ttl (it_Version i) p False lat))
    \<and> (\<exists>cr. handleAPIDelete env dq g = ((200, GClient cr), [addr @ ''/delete?key='' @ key]) \<and> cr_Status cr = ''deleted'' \<and> cr_Key cr = key)
    \<and> (\<exists>nq. http_request ''DELETE'' (addr @ ''/delete?key='' @ key) = Some nq
         \<and> (\<forall>t' k'. cache_view t' (sv_cache (snd (snd (handleDelete cd nq s)))) k' = (if k' = k then None else cache_view t' (sv_cache s) k')))"
proof (intro conjI)
  have arr: "arrives_as key k" "key \<noteq> []" "k \<noteq> []" using key by (auto intro: arrives_as.cut simp: trim_k)
  have rq: "gq_method rq = ''GET''" "gq_query rq ''key'' = key" and dq: "gq_method dq = ''DELETE''" "gq_query dq ''key'' = key"
    using api_get_arrives [OF base(1) arrives_as.escaped [of key], of "''GET''"] api_delete_arrives [OF base(1) arrives_as.escaped [of key], of "''DELETE''"]
      read(1) delete(1) by auto
  show "\<exists>ttl lat. fst (handleAPIGet env rq g) = (200, GCacheHit key (it_Value i) ttl (it_Version i) p False lat)"
    using gateway_get_arrives [OF arr(1) key(5) arr(2) base(2) [unfolded base(3)] rq ring read(2-4) read(5) [unfolded base(3)]] by blast
  show "\<exists>cr. handleAPIDelete env dq g = ((200, GClient cr), [addr @ ''/delete?key='' @ key]) \<and> cr_Status cr = ''deleted'' \<and> cr_Key cr = key"
    using dq arr(2) gw_two_nodes [OF ring] delete(2,3) base(3) by (simp add: handleAPIDelete_def Let_def)
  obtain nq where "http_request ''DELETE'' (addr @ ''/delete?key='' @ key) = Some nq" "q_method nq = ''DELETE''" "q_query nq ''key'' = k"
    using node_delete_arrives [OF base(2) arr(1)] by auto
  then show "\<exists>nq. http_request ''DELETE'' (addr @ ''/delete?key='' @ key) = Some nq
      \<and> (\<forall>t' k'. cache_view t' (sv_cache (snd (snd (handleDelete cd nq s)))) k' = (if k' = k then None else cache_view t' (sv_cache s) k'))"
    using key(5) arr(3) by (intro exI [of _ nq]) (simp add: handleDelete_def Let_def case_prod_unfold view_delete)
qed

theorem separator_key_hits_other_key_witness:
  "\<exists>rq ttl lat. http_gw_request ''GET'' (''http://g'' @ ''/api/get?key='' @ QueryEscape ''k&x'') = Some rq
     \<and> fst (handleAPIGet demo_asked_env rq demo_asked_gw) = (200, GCacheHit ''k&x'' ''v'' ttl 1 ''A'' False lat)"
proof -
  let ?K = "''k&x''" and ?a = "nt_Addr (ring_target (gw_hashRing demo_asked_gw) ''A'')"
  have key: "?K = ''k'' @ CHR ''&'' # ''x''" "CHR ''&'' \<in> {CHR ''&'', CHR ''#''}" "list_all url_safe ''k''" "list_all url_safe ''x''" "TrimSpace ''k'' \<noteq> []"
    by (simp_all add: url_safe_def url_control_def trim_k)
  have prefs: "prefs (gw_hashRing demo_asked_gw) ?K = [''A'', ''BB'', ''CCC'']"
    by (simp add: demo_ring_eq prefs_def clockwise_def demo_hash_def gm_get_def)
  obtain rq dq where rq: "http_gw_request ''GET'' (''http://g'' @ ''/api/get?key='' @ QueryEscape ?K) = Some rq"
    and dq: "http_gw_request ''DELETE'' (''http://g'' @ ''/api/delete?key='' @ QueryEscape ?K) = Some dq"
    using api_get_arrives [OF demo_asked(2) arrives_as.escaped [of ?K]] api_delete_arrives [OF demo_asked(2) arrives_as.escaped [of ?K]] by blast
  have held: "cache_view (gc_get demo_get_times) (sv_cache demo_holder) ''k'' =
      Some \<lparr>it_Key = ''k'', it_Value = ''v'', it_CreatedAt = 1, it_ExpiresAt = 0, it_Version = 1, it_IsReplica = False\<rparr>"
    using demo_holder_view by simp
  have del: "ge_newRequest demo_asked_env u" "ge_delete demo_asked_env 0 u = Inr 200" for u by (simp_all add: demo_gw_env_def)
  show ?thesis
    using separator_key_hits_other_key [OF key demo_asked(2) demo_asked(1) refl demo_asked(4) prefs rq demo_asked(6) held _ _ dq del(1) del(2)] demo_delivers(1) rq by (auto simp: demo_asked(3))
qed

end
