(* ===== verification/Reachability.thy ===== *)
theory Reachability
  imports SHC_Prelude
begin

text \<open>
  Transition systems: the states that can be reached from an initial one, and the contract (a locale) under which a
  predicate holds in all of them. \<open>Cluster_Run\<close> interprets it on the steps of a running cluster.
\<close>

section \<open>Definitions\<close>

definition reachable :: "('s \<Rightarrow> bool) \<Rightarrow> ('s \<Rightarrow> 's \<Rightarrow> bool) \<Rightarrow> 's \<Rightarrow> bool" where
  "reachable start step s \<longleftrightarrow> (\<exists>s0. start s0 \<and> step\<^sup>*\<^sup>* s0 s)"

lemma reachable_start: "start s \<Longrightarrow> reachable start step s"
  unfolding reachable_def by blast

lemma reachable_step: "reachable start step s \<Longrightarrow> step s s' \<Longrightarrow> reachable start step s'"
  unfolding reachable_def by (meson rtranclp.rtrancl_into_rtrancl)

lemma reachable_steps: "reachable start step s \<Longrightarrow> step\<^sup>*\<^sup>* s s' \<Longrightarrow> reachable start step s'"
  unfolding reachable_def by (meson rtranclp_trans)

section \<open>The contract\<close>

text \<open>A predicate that holds at the start and that every step keeps; \<open>grows\<close> relates the states of a run, such as a history
  that only gets longer.\<close>

locale invariant_system =
  fixes start :: "'s \<Rightarrow> bool" and step :: "'s \<Rightarrow> 's \<Rightarrow> bool" and inv :: "'s \<Rightarrow> bool" and grows :: "'s \<Rightarrow> 's \<Rightarrow> bool"
  assumes start_inv: "start s \<Longrightarrow> inv s"
    and step_inv: "inv s \<Longrightarrow> step s s' \<Longrightarrow> inv s'"
    and grows_refl: "grows s s"
    and grows_step: "grows s0 s \<Longrightarrow> step s s' \<Longrightarrow> grows s0 s'"
begin

lemma run_inv: "step\<^sup>*\<^sup>* s s' \<Longrightarrow> inv s \<Longrightarrow> inv s'"
  by (induction rule: rtranclp_induct) (auto intro: step_inv)

lemma reachable_inv: "reachable start step s \<Longrightarrow> inv s"
  unfolding reachable_def using run_inv start_inv by blast

lemma run_grows: "step\<^sup>*\<^sup>* s s' \<Longrightarrow> grows s s'"
  by (induction rule: rtranclp_induct) (auto intro: grows_refl grows_step)

end

end
