(* ===== verification/Cluster_Run.thy ===== *)
theory Cluster_Run
  imports Reachability Node_Properties Deployment
begin

text \<open>
  A running cluster: any number of nodes (each a \<open>server\<close> of \<open>Node_Server\<close>, found by its address), the messages they have sent
  each other, and, for the statements only, the writes that nodes have accepted.

  \<^item> A step is one request that a node serves, one run of the recovery of \<open>Deployment\<close>, one round of the clean-up worker or late
    eviction of a read, the end of one exchange of the replicator, a change of what a node believes of the health of the
    others, or a crash and restart with an empty cache.
  \<^item> Messages are never removed, and a step may take any of them: they can be lost, delivered twice, late, out of order and to the
    wrong node. Crashes come at any time.
  \<^item> Assumed of the network is that the bodies of \<^verbatim>\<open>/internal/replicate\<close> and \<^verbatim>\<open>/internal/sync/bulk\<close>, the hits of routed reads and the dumps of the
    recovery are messages some node has sent (\<open>delivered\<close>, \<open>recovers_from\<close>); the requests of clients and of the gateway are arbitrary.
\<close>

section \<open>Definitions\<close>

datatype message =
    MReplicate string replicate_payload
  | MHit get_response
  | MDump "dump_item list"
  | MBulk string bulk_sync_payload

record 'l cluster =
  cl_nodes :: "string \<Rightarrow> 'l server"
  cl_net :: "message list"
  cl_written :: "(string \<times> string) list"

text \<open>The keys and values a message carries, and those a reply shows to its reader.\<close>

definition item_pair :: "dump_item \<Rightarrow> string \<times> string" where
  "item_pair i = (di_Key i, di_Value i)"

fun carried :: "message \<Rightarrow> (string \<times> string) list" where
  "carried (MReplicate addr p) = [(rp_Key p, rp_Value p)]"
| "carried (MHit g) = [(gp_Key g, gp_Value g)]"
| "carried (MDump items) = map item_pair items"
| "carried (MBulk addr p) = map item_pair (bp_Items p)"

fun shown :: "resp_body \<Rightarrow> (string \<times> string) list" where
  "shown (BGet g) = (if gp_Status g = ''hit'' then [(gp_Key g, gp_Value g)] else [])"
| "shown (BRead rr) = [(rr_Key rr, rr_Value rr)]"
| "shown (BDump nodeID n items) = map item_pair items"
| "shown _ = []"

text \<open>The messages of one request: what the goroutines of the handler post, the reply where another node may read it, and the bulk
  transfer a rebalance posts.\<close>

fun out_message :: "outgoing \<Rightarrow> message list" where
  "out_message (OutSet addr k v ttl ver) = [MReplicate addr (repl_payload k v ttl ver)]"
| "out_message (OutDelete addr k) = []"

fun reply_message :: "resp_body \<Rightarrow> message list" where
  "reply_message (BGet g) = (if gp_Status g = ''hit'' then [MHit g] else [])"
| "reply_message (BDump nodeID n items) = [MDump items]"
| "reply_message _ = []"

definition bulk_message :: "'l serve_env \<Rightarrow> request \<Rightarrow> 'l server \<Rightarrow> message list" where
  "bulk_message e q s =
     (case cd_node (se_codec e) (q_body q) of
        None \<Rightarrow> []
      | Some (nodeID, addr) \<Rightarrow>
          if q_method q \<noteq> ''POST'' \<or> nodeID = [] \<or> addr = [] \<or> se_newRequest (se_sync e) (addr @ ''/internal/sync/bulk'') \<noteq> None then []
          else let payload = fst (rebalance_payload (se_rebalanceClock e) (se_order e) nodeID (sv_rebalanceManager s)
                     (ring_AddNode nodeID addr (sv_hashRing s)) (sv_cache s))
               in if bp_Items payload = [] then [] else [MBulk addr payload])"

definition sent :: "'l serve_env \<Rightarrow> string \<Rightarrow> request \<Rightarrow> 'l server \<Rightarrow> response \<Rightarrow> outgoing list \<Rightarrow> message list" where
  "sent e path q s resp outs =
     concat (map out_message outs) @ reply_message (snd resp) @ (if path = ''/internal/rebalance'' then bulk_message e q s else [])"

text \<open>The write a node accepts: the one it answers with \<^verbatim>\<open>stored\<close>.\<close>

definition accepted :: "'l serve_env \<Rightarrow> string \<Rightarrow> request \<Rightarrow> response \<Rightarrow> (string \<times> string) list" where
  "accepted e path q resp =
     (case snd resp of
        BSet ack \<Rightarrow> if path = ''/set'' then [(sr_Key (set_request_of (se_codec e) q), sr_Value (set_request_of (se_codec e) q))] else []
      | _ \<Rightarrow> [])"

definition cluster_serve :: "string \<Rightarrow> 'l serve_env \<Rightarrow> string \<Rightarrow> request \<Rightarrow> 'l cluster \<Rightarrow> response \<times> 'l cluster" where
  "cluster_serve a e path q cl =
     (let (resp, outs, s') = enableCORS e path q (cl_nodes cl a)
      in (resp, \<lparr>cl_nodes = (cl_nodes cl)(a := s'), cl_net = sent e path q (cl_nodes cl a) resp outs @ cl_net cl,
                 cl_written = accepted e path q resp @ cl_written cl\<rparr>))"

definition cluster_update :: "string \<Rightarrow> ('l server \<Rightarrow> 'l server) \<Rightarrow> 'l cluster \<Rightarrow> 'l cluster" where
  "cluster_update a f cl = cl\<lparr>cl_nodes := (cl_nodes cl)(a := f (cl_nodes cl a))\<rparr>"

text \<open>What the network may deliver.\<close>

definition delivered :: "'l serve_env \<Rightarrow> string \<Rightarrow> request \<Rightarrow> message list \<Rightarrow> bool" where
  "delivered e path q net \<longleftrightarrow>
     (path = ''/internal/replicate'' \<longrightarrow>
        (\<forall>req. cd_replicate (se_codec e) (q_body q) = Inr req \<longrightarrow> (\<exists>addr p. MReplicate addr p \<in> set net \<and> req = request_of_payload p)))
   \<and> (path = ''/internal/sync/bulk'' \<longrightarrow>
        (\<forall>p. cd_bulk (se_codec e) (q_body q) = Inr p \<longrightarrow> (\<exists>addr. MBulk addr p \<in> set net)))
   \<and> (path = ''/route/get'' \<longrightarrow>
        (\<forall>n addr key res. readFromNode (se_read e) n addr key = Inr res \<longrightarrow> (\<exists>g. MHit g \<in> set net \<and> wire_reply (200, BGet g) = Inr res)))"

definition recovers_from :: "startup_env \<Rightarrow> message list \<Rightarrow> bool" where
  "recovers_from env net \<longleftrightarrow> (\<forall>addr items. dump_reply (su_sync env addr) addr = Some items \<longrightarrow> MDump items \<in> set net)"

definition fresh_node :: "'l server \<Rightarrow> bool" where
  "fresh_node s \<longleftrightarrow> c_items (sv_cache s) = []"

definition cluster_start :: "'l cluster \<Rightarrow> bool" where
  "cluster_start cl \<longleftrightarrow> (\<forall>a. fresh_node (cl_nodes cl a)) \<and> cl_net cl = [] \<and> cl_written cl = []"

inductive cluster_step :: "'l cluster \<Rightarrow> 'l cluster \<Rightarrow> bool" where
  serve: "delivered e path q (cl_net cl) \<Longrightarrow> cluster_step cl (snd (cluster_serve a e path q cl))"
| recover: "recovers_from env (cl_net cl) \<Longrightarrow> cluster_step cl (cluster_update a (startup_recovery env cfg) cl)"
| clean: "cluster_step cl (cluster_update a (\<lambda>s. s\<lparr>sv_cache := cache_purgeExpired now (sv_cache s)\<rparr>) cl)"
| evict: "cluster_step cl (cluster_update a (\<lambda>s. s\<lparr>sv_cache := cache_Get_evict now key (sv_cache s)\<rparr>) cl)"
| replicated: "cluster_step cl (cluster_update a (run_outgoing renv out) cl)"
| believe: "cluster_step cl (cluster_update a (\<lambda>s. s\<lparr>sv_healthMonitor := mon\<rparr>) cl)"
| restart: "fresh_node s0 \<Longrightarrow> cluster_step cl (cluster_update a (\<lambda>_. s0) cl)"

inductive_cases cluster_stepE: "cluster_step cl cl'"

abbreviation cluster_reachable :: "'l cluster \<Rightarrow> bool" where
  "cluster_reachable \<equiv> reachable cluster_start cluster_step"

text \<open>Everything held or in transit was written.\<close>

definition holds :: "(string \<times> string) set \<Rightarrow> cache \<Rightarrow> bool" where
  "holds W c \<longleftrightarrow> (\<forall>p\<in>set (c_items c). it_Key (snd p) = fst p \<and> (fst p, it_Value (snd p)) \<in> W)"

definition cluster_honest :: "'l cluster \<Rightarrow> bool" where
  "cluster_honest cl \<longleftrightarrow>
     (\<forall>a. holds (set (cl_written cl)) (sv_cache (cl_nodes cl a))) \<and> (\<forall>m\<in>set (cl_net cl). set (carried m) \<subseteq> set (cl_written cl))"


section \<open>What a cache holds\<close>

declare map_of_eq_Some_iff [simp del]

lemma holds_mono: "holds W c \<Longrightarrow> W \<subseteq> V \<Longrightarrow> holds V c"
  by (auto simp: holds_def)

lemma holds_sub: "holds W c \<Longrightarrow> set (c_items c') \<subseteq> set (c_items c) \<Longrightarrow> holds W c'"
  by (auto simp: holds_def)

lemma holds_entry: "holds W c \<Longrightarrow> map_of (c_items c) k = Some i \<Longrightarrow> it_Key i = k \<and> (k, it_Value i) \<in> W"
  by (force simp: holds_def dest: map_of_SomeD)

lemma gm_put_sub: "set (gm_put k v m) \<subseteq> insert (k, v) (set m)"
  by (induction m) auto

lemma gm_del_sub: "set (gm_del k m) \<subseteq> set m"
  by (auto simp: AList.delete_eq)

lemma holds_set: "holds W c \<Longrightarrow> (k, v) \<in> W \<Longrightarrow> holds W (snd (cache_SetWithMetadata now k v ttl ver rep c))"
  using gm_put_sub [of k "fst (cache_SetWithMetadata now k v ttl ver rep c)" "c_items c"]
  by (fastforce simp: holds_def set_state set_item)

lemma holds_get: "holds W c \<Longrightarrow> holds W (snd (cache_Get t1 t2 k c))"
  by (erule holds_sub) (auto simp: get_items dest: subsetD [OF gm_del_sub] split: option.splits if_splits)

lemma holds_evict: "holds W c \<Longrightarrow> holds W (cache_Get_evict now k c)"
  by (erule holds_sub) (auto simp: evict_items dest: subsetD [OF gm_del_sub] split: option.splits if_splits)

lemma holds_delete: "holds W c \<Longrightarrow> holds W (snd (cache_Delete k c))"
  by (erule holds_sub) (auto simp: delete_items dest: subsetD [OF gm_del_sub] split: if_splits)

lemma holds_purge: "holds W c \<Longrightarrow> holds W (cache_purgeExpired now c)"
  by (erule holds_sub) (auto simp: cache_purgeExpired_def purge_items_aux)

lemma holds_found: "holds W c \<Longrightarrow> fst (cache_Get t1 t2 k c) = Some i \<Longrightarrow> it_Key i = k \<and> (k, it_Value i) \<in> W"
  using holds_entry by (auto simp: get_result view_Some_iff)

lemma holds_ingest: "holds W c \<Longrightarrow> item_pair ` set is \<subseteq> W \<Longrightarrow> holds W (snd (ingest_items clock is n c))"
  by (induction "is" arbitrary: n c) (auto simp: item_pair_def intro!: holds_set)

lemmas holds_ops = holds_set holds_get holds_evict holds_delete holds_purge

text \<open>The loops that visit keys: the cache keeps what it holds, and what is listed was held.\<close>

lemma pair_of_item: "item_pair (dump_item_of now rep i) = (it_Key i, it_Value i)"
  by (simp add: item_pair_def dump_item_of_def)

lemma holds_dump:
  "holds W (snd s) \<Longrightarrow> item_pair ` set (fst s) \<subseteq> W \<Longrightarrow>
     holds W (snd (fold (dump_key clock) ks s)) \<and> item_pair ` set (fst (fold (dump_key clock) ks s)) \<subseteq> W"
proof (induction ks arbitrary: s)
  case (Cons k ks)
  have "holds W (snd (dump_key clock k s)) \<and> item_pair ` set (fst (dump_key clock k s)) \<subseteq> W"
    using Cons.prems holds_found [OF Cons.prems(1)]
    by (auto simp: dump_key_def case_prod_unfold Let_def holds_get pair_of_item split: option.splits)
  with Cons.IH show ?case by simp
qed simp

lemma holds_migrate:
  "holds W (snd s) \<Longrightarrow> item_pair ` set (fst s) \<subseteq> W \<Longrightarrow>
     holds W (snd (fold (migrate_key clock h n) ks s)) \<and> item_pair ` set (fst (fold (migrate_key clock h n) ks s)) \<subseteq> W"
proof (induction ks arbitrary: s)
  case (Cons k ks)
  have "holds W (snd (migrate_key clock h n k s)) \<and> item_pair ` set (fst (migrate_key clock h n k s)) \<subseteq> W"
    using Cons.prems holds_found [OF Cons.prems(1)]
    by (auto simp: migrate_key_def case_prod_unfold Let_def holds_get pair_of_item split: option.splits sum.splits list.splits)
  with Cons.IH show ?case by simp
qed simp

lemma holds_own: "holds W (snd (snd st)) \<Longrightarrow> holds W (snd (snd (fold (own_key clock) ks st)))"
proof (induction ks arbitrary: st)
  case (Cons k ks)
  have "snd (snd (own_key clock k st)) = snd (cache_Get (kc_get (clock k)) (kc_evict (clock k)) k (snd (snd st)))"
    by (simp add: own_key_def case_prod_unfold Let_def split: option.splits)
  with Cons show ?case by (simp add: holds_get)
qed simp

lemma adopted_pairs: "item_pair ` set (adopted h self is) \<subseteq> item_pair ` set is"
  by (auto simp: adopted_mem item_pair_def)

lemma holds_recovery:
  assumes "holds W (sv_cache s)" "\<forall>addr items. dump_reply (su_sync env addr) addr = Some items \<longrightarrow> item_pair ` set items \<subseteq> W"
  shows "holds W (sv_cache (startup_recovery env cfg s))"
proof -
  have "holds W (fold (sync_reachable env h mgr results) addrs c)" if "holds W c" for h mgr results addrs c
    using that
  proof (induction addrs arbitrary: c)
    case (Cons a addrs)
    have "holds W (sync_reachable env h mgr results a c)"
      using Cons.prems assms(2) adopted_pairs holds_ingest
      by (fastforce simp: sync_reachable_def sync_dump_reply IngestBulkKeys_def split: option.splits)
    with Cons.IH show ?case by simp
  qed simp
  then show ?thesis using assms(1) by (simp add: startup_recovery_def case_prod_unfold Let_def)
qed


section \<open>What a request can show and send\<close>

text \<open>The cache keeps what it holds, and neither the goroutines nor the reply carry anything else.\<close>

definition honest_result :: "(string \<times> string) set \<Rightarrow> response \<times> outgoing list \<times> 'l server \<Rightarrow> bool" where
  "honest_result W r \<longleftrightarrow>
     holds W (sv_cache (snd (snd r))) \<and> list_all (\<lambda>out. \<forall>m\<in>set (out_message out). set (carried m) \<subseteq> W) (fst (snd r))
     \<and> set (shown (snd (fst r))) \<subseteq> W"

lemma payload_pair: "carried (MReplicate addr (repl_payload k v ttl ver)) = [(k, v)]"
  by (simp add: repl_payload_def Let_def)

lemma honest_quiet: "holds W (sv_cache s) \<Longrightarrow> shown (snd r) = [] \<Longrightarrow> honest_result W (quiet s r)"
  by (simp add: honest_result_def quiet_def)

lemma honest_silent: "honest_result W (silent p) \<longleftrightarrow> holds W (sv_cache (snd p)) \<and> set (shown (snd (fst p))) \<subseteq> W"
  by (simp add: honest_result_def silent_def)

lemma shown_status [simp]:
  "shown (snd (not_allowed txt)) = []"
  "shown (snd (handleHealth now q s)) = []" "shown (snd (handleStats now q s)) = []" "shown (snd (handleCluster now q s)) = []"
  "shown (snd (handleInternalHealth now q s)) = []" "shown (snd (handleInternalStats now q s)) = []"
  "shown (snd (handleDebugRebalanceStats q s)) = []" "shown (snd (handleDebugRing ord q s)) = []" "shown (snd (handleDebugLocate q s)) = []"
  by (simp_all add: not_allowed_def handleHealth_def handleStats_def handleCluster_def handleInternalHealth_def handleInternalStats_def
      handleDebugRebalanceStats_def handleDebugRing_def handleDebugLocate_def Let_def split: sum.split list.split ring_error.split)

lemma honest_handleSet:
  assumes "holds W (sv_cache s)"
    and "\<forall>r. fst (handleSet cd now q s) = (200, BSet r) \<longrightarrow> (sr_Key (set_request_of cd q), sr_Value (set_request_of cd q)) \<in> W"
  shows "honest_result W (handleSet cd now q s)"
  using assms payload_pair
  by (auto simp: handleSet_def Let_def case_prod_unfold honest_result_def set_item holds_set split: sum.splits list.splits if_splits)

lemma third_node:
  "(\<And>t. Q (f t)) \<Longrightarrow> list_all Q (case r of Inr (t1 # t2 # t3 # ts) \<Rightarrow> (if P t3 then [f t3] else []) | _ \<Rightarrow> [])"
  by (auto split: sum.splits list.splits if_splits)

lemma honest_handleGet: "holds W (sv_cache s) \<Longrightarrow> honest_result W (handleGet t q s)"
proof (cases "fst (cache_Get (gc_get t) (gc_evict t) (q_query q ''key'') (sv_cache s))")
  case None
  then show "holds W (sv_cache s) \<Longrightarrow> honest_result W (handleGet t q s)"
    by (simp add: handleGet_def Let_def case_prod_unfold honest_result_def holds_get)
next
  case (Some i)
  assume h: "holds W (sv_cache s)"
  have "it_Key i = q_query q ''key''" "(it_Key i, it_Value i) \<in> W" using holds_found [OF h Some] by auto
  then show "honest_result W (handleGet t q s)"
    using h payload_pair
    by (simp add: handleGet_def Let_def case_prod_unfold honest_result_def holds_get Some third_node)
qed

lemma honest_handleDelete: "holds W (sv_cache s) \<Longrightarrow> honest_result W (handleDelete cd q s)"
  by (auto simp: handleDelete_def Let_def case_prod_unfold honest_result_def holds_delete split: sum.splits list.splits if_splits)


lemma RouteGet_from_read:
  "fst (RouteGet env h mon mon' key r) = Inr rr \<Longrightarrow>
     \<exists>n addr res. readFromNode env n addr key = Inr res \<and> rr_Key rr = ng_Key res \<and> rr_Value rr = ng_Value res"
  by (auto simp: RouteGet_def Let_def case_prod_unfold read_result_of_def split: sum.splits list.splits if_splits) blast+

lemma honest_handleRouteGet:
  assumes "holds W (sv_cache s)" "\<forall>n addr key res. readFromNode env n addr key = Inr res \<longrightarrow> (ng_Key res, ng_Value res) \<in> W"
  shows "honest_result W (silent (handleRouteGet env q mon' s))"
proof (cases "fst (RouteGet env (sv_hashRing s) (sv_healthMonitor s) mon' (q_query q ''key'') (sv_failoverRouter s))")
  case (Inl e)
  then show ?thesis using assms(1) by (simp add: honest_silent handleRouteGet_def Let_def case_prod_unfold)
next
  case (Inr rr)
  obtain n addr res where "readFromNode env n addr (q_query q ''key'') = Inr res" "rr_Key rr = ng_Key res" "rr_Value rr = ng_Value res"
    using RouteGet_from_read [OF Inr] by auto
  then have "(rr_Key rr, rr_Value rr) \<in> W" using assms(2) by simp
  with Inr show ?thesis using assms(1) by (simp add: honest_silent handleRouteGet_def Let_def case_prod_unfold)
qed

lemma honest_handleInternalReplicate:
  assumes "holds W (sv_cache s)" "\<forall>req. cd_replicate cd (q_body q) = Inr req \<longrightarrow> (sr_Key req, sr_Value req) \<in> W"
  shows "honest_result W (silent (handleInternalReplicate cd now q s))"
  using assms by (simp add: honest_silent handleInternalReplicate_def Let_def case_prod_unfold holds_set split: sum.split)

lemma honest_handleInternalReplicateDelete:
  "holds W (sv_cache s) \<Longrightarrow> honest_result W (silent (handleInternalReplicateDelete q s))"
  by (simp add: honest_silent handleInternalReplicateDelete_def Let_def holds_delete)

lemma honest_handleHotKeys: "holds W (sv_cache s) \<Longrightarrow> honest_result W (silent (handleHotKeys now ord q s))"
  by (simp add: honest_silent handleHotKeys_def case_prod_unfold Let_def)

lemma honest_handleInternalDump: "holds W (sv_cache s) \<Longrightarrow> honest_result W (silent (handleInternalDump now ord clock q s))"
  using holds_dump [of W "([], sv_cache s)" clock "cache_Keys now ord (sv_cache s)"]
  by (simp add: honest_silent handleInternalDump_def DumpLocalKeys_def case_prod_unfold Let_def)

lemma honest_handleInternalSyncBulk:
  assumes "holds W (sv_cache s)" "\<forall>p. cd_bulk cd (q_body q) = Inr p \<longrightarrow> item_pair ` set (bp_Items p) \<subseteq> W"
  shows "honest_result W (silent (handleInternalSyncBulk cd clock q s))"
  using assms by (simp add: honest_silent handleInternalSyncBulk_def IngestBulkKeys_def case_prod_unfold Let_def holds_ingest split: sum.split)

lemma holds_rebalance: "holds W c \<Longrightarrow> holds W (snd (snd (snd (RebalanceForNewNode env clock ord n a mgr h c))))"
  using holds_migrate [of W "([], c)"]
  by (simp add: RebalanceForNewNode_def collect_migration_def Let_def case_prod_unfold split: option.split)

lemma honest_handleInternalRebalance:
  "holds W (sv_cache s) \<Longrightarrow> honest_result W (silent (handleInternalRebalance cd env clock ord q s))"
  by (simp add: honest_silent handleInternalRebalance_def Let_def case_prod_unfold holds_rebalance split: sum.split option.split)

lemma honest_handleInternalPeers: "holds W (sv_cache s) \<Longrightarrow> honest_result W (silent (handleInternalPeers env ord ord2 q s))"
  by (simp add: honest_silent handleInternalPeers_def Let_def case_prod_unfold)

lemma honest_handleDebugOwnedKeys: "holds W (sv_cache s) \<Longrightarrow> honest_result W (silent (handleDebugOwnedKeys now ord clock q s))"
  by (simp add: honest_silent handleDebugOwnedKeys_def Let_def case_prod_unfold holds_own)

lemmas honest_handlers = honest_handleSet honest_handleGet honest_handleDelete honest_handleRouteGet honest_handleInternalReplicate
  honest_handleInternalReplicateDelete honest_handleHotKeys honest_handleInternalDump honest_handleInternalSyncBulk honest_handleInternalRebalance
  honest_handleInternalPeers honest_handleDebugOwnedKeys


lemma honest_serve:
  assumes "holds W (sv_cache s)"
    and "path = ''/set'' \<longrightarrow> (\<forall>r. fst (enableCORS e path q s) = (200, BSet r) \<longrightarrow>
      (sr_Key (set_request_of (se_codec e) q), sr_Value (set_request_of (se_codec e) q)) \<in> W)"
    and "path = ''/internal/replicate'' \<longrightarrow> (\<forall>req. cd_replicate (se_codec e) (q_body q) = Inr req \<longrightarrow> (sr_Key req, sr_Value req) \<in> W)"
    and "path = ''/internal/sync/bulk'' \<longrightarrow> (\<forall>p. cd_bulk (se_codec e) (q_body q) = Inr p \<longrightarrow> item_pair ` set (bp_Items p) \<subseteq> W)"
    and "path = ''/route/get'' \<longrightarrow> (\<forall>n addr key res. readFromNode (se_read e) n addr key = Inr res \<longrightarrow> (ng_Key res, ng_Value res) \<in> W)"
  shows "honest_result W (enableCORS e path q s)"
proof (cases "q_method q = ''OPTIONS''")
  case True
  then show ?thesis using assms(1) by (simp add: enableCORS_def honest_result_def)
next
  case options: False
  show ?thesis
  proof (cases "routes e path q s")
    case None
    then show ?thesis using assms(1) options by (simp add: enableCORS_def honest_result_def)
  next
    case (Some r)
    then have r: "enableCORS e path q s = r" using options by (simp add: enableCORS_def)
    have set: "path = ''/set'' \<Longrightarrow> enableCORS e path q s = handleSet (se_codec e) (se_now e) q s"
      using options by (simp add: enableCORS_def routes_def)
    show ?thesis
    proof (cases "path = ''/set''")
      case True
      then show ?thesis using assms(1,2) set by (simp add: honest_handleSet)
    next
      case False
      then show ?thesis
        using Some assms(1,3-5) unfolding r routes_def
        by (auto simp: honest_handlers honest_quiet split: if_split_asm)
    qed
  qed
qed


section \<open>The invariant\<close>

lemma serve_parts:
  assumes "cluster_serve a e path q cl = (resp, cl')"
  obtains outs s' where "enableCORS e path q (cl_nodes cl a) = (resp, outs, s')" "cl_nodes cl' = (cl_nodes cl)(a := s')"
    "cl_net cl' = sent e path q (cl_nodes cl a) resp outs @ cl_net cl" "cl_written cl' = accepted e path q resp @ cl_written cl"
  using assms by (cases "enableCORS e path q (cl_nodes cl a)") (auto simp: cluster_serve_def Let_def)

lemma bulk_message_pairs:
  assumes "holds W (sv_cache s)" "m \<in> set (bulk_message e q s)"
  shows "set (carried m) \<subseteq> W"
proof -
  have "item_pair x \<in> W" if "x \<in> set (fst (collect_migration clock h n ks (sv_cache s)))" for clock h n ks x
    using holds_migrate [of W "([], sv_cache s)" clock h n ks] assms(1) that by (auto simp: collect_migration_def)
  with assms(2) show ?thesis by (auto simp: bulk_message_def Let_def split: option.splits if_splits)
qed

lemma reply_message_pairs: "m \<in> set (reply_message b) \<Longrightarrow> set (carried m) \<subseteq> set (shown b)"
  by (cases b) (auto split: if_splits)

lemma delivered_pairs:
  assumes "delivered e path q net" "\<forall>m\<in>set net. set (carried m) \<subseteq> W"
  shows "path = ''/internal/replicate'' \<longrightarrow> (\<forall>req. cd_replicate (se_codec e) (q_body q) = Inr req \<longrightarrow> (sr_Key req, sr_Value req) \<in> W)"
    and "path = ''/internal/sync/bulk'' \<longrightarrow> (\<forall>p. cd_bulk (se_codec e) (q_body q) = Inr p \<longrightarrow> item_pair ` set (bp_Items p) \<subseteq> W)"
    and "path = ''/route/get'' \<longrightarrow> (\<forall>n addr key res. readFromNode (se_read e) n addr key = Inr res \<longrightarrow> (ng_Key res, ng_Value res) \<in> W)"
proof -
  note d = assms(1) [unfolded delivered_def]
  show "path = ''/internal/replicate'' \<longrightarrow> (\<forall>req. cd_replicate (se_codec e) (q_body q) = Inr req \<longrightarrow> (sr_Key req, sr_Value req) \<in> W)"
    using d [THEN conjunct1] assms(2) by (fastforce simp: request_of_payload_def)
  show "path = ''/internal/sync/bulk'' \<longrightarrow> (\<forall>p. cd_bulk (se_codec e) (q_body q) = Inr p \<longrightarrow> item_pair ` set (bp_Items p) \<subseteq> W)"
    using d [THEN conjunct2, THEN conjunct1] assms(2) by fastforce
  show "path = ''/route/get'' \<longrightarrow> (\<forall>n addr key res. readFromNode (se_read e) n addr key = Inr res \<longrightarrow> (ng_Key res, ng_Value res) \<in> W)"
  proof (intro impI allI)
    fix n addr key res
    assume "path = ''/route/get''" "readFromNode (se_read e) n addr key = Inr res"
    then obtain g where g: "MHit g \<in> set net" "wire_reply (200, BGet g) = Inr res" using d [THEN conjunct2, THEN conjunct2] by blast
    then have "ng_Key res = gp_Key g" "ng_Value res = gp_Value g" by (auto simp: wire_reply_def split: if_splits)
    with g(1) assms(2) show "(ng_Key res, ng_Value res) \<in> W" by fastforce
  qed
qed

lemma serve_honest:
  assumes honest: "cluster_honest cl" and net: "delivered e path q (cl_net cl)" and run: "cluster_serve a e path q cl = (resp, cl')"
  shows "cluster_honest cl' \<and> set (shown (snd resp)) \<subseteq> set (cl_written cl')"
proof -
  obtain outs s' where r: "enableCORS e path q (cl_nodes cl a) = (resp, outs, s')" and n: "cl_nodes cl' = (cl_nodes cl)(a := s')"
    and m: "cl_net cl' = sent e path q (cl_nodes cl a) resp outs @ cl_net cl" and w: "cl_written cl' = accepted e path q resp @ cl_written cl"
    by (rule serve_parts [OF run])
  let ?W = "set (cl_written cl')"
  have sub: "set (cl_written cl) \<subseteq> ?W" using w by simp
  have h: "holds ?W (sv_cache (cl_nodes cl b))" for b
    using honest sub holds_mono unfolding cluster_honest_def by blast
  have old: "\<forall>m\<in>set (cl_net cl). set (carried m) \<subseteq> ?W" using honest sub unfolding cluster_honest_def by blast
  have acc: "path = ''/set'' \<longrightarrow> (\<forall>r. fst (enableCORS e path q (cl_nodes cl a)) = (200, BSet r) \<longrightarrow>
      (sr_Key (set_request_of (se_codec e) q), sr_Value (set_request_of (se_codec e) q)) \<in> ?W)"
    using r w by (auto simp: accepted_def)
  have res: "honest_result ?W (resp, outs, s')"
    using honest_serve [OF h acc delivered_pairs [OF net old]] r by simp
  have "set (carried x) \<subseteq> ?W" if "x \<in> set (sent e path q (cl_nodes cl a) resp outs)" for x
  proof -
    from that consider out where "out \<in> set outs" "x \<in> set (out_message out)" | "x \<in> set (reply_message (snd resp))"
      | "x \<in> set (bulk_message e q (cl_nodes cl a))" by (auto simp: sent_def split: if_splits)
    then show ?thesis
    proof cases
      case 1
      then show ?thesis using res by (auto simp: honest_result_def list_all_iff)
    next
      case 2
      then show ?thesis using res reply_message_pairs unfolding honest_result_def by fastforce
    next
      case 3
      then show ?thesis by (rule bulk_message_pairs [OF h])
    qed
  qed
  then show ?thesis using old h n m res by (auto simp: cluster_honest_def honest_result_def)
qed

lemma update_honest:
  assumes "cluster_honest cl" "holds (set (cl_written cl)) (sv_cache (f (cl_nodes cl a)))"
  shows "cluster_honest (cluster_update a f cl)"
  using assms by (simp add: cluster_honest_def cluster_update_def)

lemma step_honest: "cluster_step cl cl' \<Longrightarrow> cluster_honest cl \<Longrightarrow> cluster_honest cl'"
proof (induction rule: cluster_step.induct)
  case (serve e path q cl a)
  then show ?case using serve_honest [of cl e path q a] by (metis prod.collapse)
next
  case (recover env cl a cfg)
  have "item_pair ` set items \<subseteq> set (cl_written cl)" if "dump_reply (su_sync env addr) addr = Some items" for addr items
    using recover that unfolding recovers_from_def cluster_honest_def by fastforce
  with recover show ?case by (intro update_honest holds_recovery) (simp_all add: cluster_honest_def)
next
  case (replicated cl a renv out)
  then show ?case by (intro update_honest) (simp_all add: cluster_honest_def run_outgoing_def split: outgoing.split)
next
  case (restart s0 cl a)
  then show ?case by (intro update_honest) (simp_all add: fresh_node_def holds_def)
qed (simp_all add: cluster_honest_def cluster_update_def holds_ops)

lemma step_written: "cluster_step cl cl' \<Longrightarrow> set (cl_written cl) \<subseteq> set (cl_written cl') \<and> set (cl_net cl) \<subseteq> set (cl_net cl')"
  by (induction rule: cluster_step.induct) (auto simp: cluster_serve_def cluster_update_def Let_def case_prod_unfold)

interpretation cluster: invariant_system cluster_start cluster_step cluster_honest
  "\<lambda>cl cl'. set (cl_written cl) \<subseteq> set (cl_written cl') \<and> set (cl_net cl) \<subseteq> set (cl_net cl')"
proof
  show "cluster_honest cl" if "cluster_start cl" for cl :: "'l cluster"
    using that by (auto simp: cluster_start_def cluster_honest_def fresh_node_def holds_def)
qed (blast dest: step_honest step_written)+


text \<open>The bulk message is what a rebalance posts: its outcome depends on the network only through that exchange.\<close>

lemma rebalance_posts:
  assumes "cd_node (se_codec e) (q_body q) = Some (n, a)" and "se_newRequest env' = se_newRequest (se_sync e)"
    and "\<forall>addr p. MBulk addr p \<in> set (bulk_message e q s) \<longrightarrow>
      se_post env' (addr @ ''/internal/sync/bulk'') p = se_post (se_sync e) (addr @ ''/internal/sync/bulk'') p"
  shows "handleInternalRebalance (se_codec e) env' (se_rebalanceClock e) (se_order e) q s
    = handleInternalRebalance (se_codec e) (se_sync e) (se_rebalanceClock e) (se_order e) q s"
proof -
  let ?url = "a @ ''/internal/sync/bulk''" and ?clock = "se_rebalanceClock e"
  let ?is = "fst (collect_migration (bc_key ?clock) (ring_AddNode n a (sv_hashRing s)) n (cache_Keys (bc_keys ?clock) (se_order e) (sv_cache s)) (sv_cache s))"
  let ?p = "\<lparr>bp_SourceNode = mg_selfNodeID (sv_rebalanceManager s), bp_Items = ?is\<rparr>"
  have same: "RebalanceForNewNode env' ?clock (se_order e) n a (sv_rebalanceManager s) (sv_hashRing s) (sv_cache s)
      = RebalanceForNewNode (se_sync e) ?clock (se_order e) n a (sv_rebalanceManager s) (sv_hashRing s) (sv_cache s)"
    if q: "q_method q = ''POST''" "n \<noteq> []" "a \<noteq> []"
  proof (cases "?is = [] \<or> se_newRequest (se_sync e) ?url \<noteq> None")
    case True
    then show ?thesis by (auto simp: RebalanceForNewNode_def Let_def case_prod_unfold assms(2))
  next
    case False
    then have "MBulk a ?p \<in> set (bulk_message e q s)" using q assms(1) by (simp add: bulk_message_def Let_def)
    then have "se_post env' ?url ?p = se_post (se_sync e) ?url ?p" using assms(3) by blast
    with False show ?thesis by (simp add: RebalanceForNewNode_def Let_def case_prod_unfold assms(2))
  qed
  show ?thesis by (simp add: handleInternalRebalance_def assms(1) same)
qed

section \<open>Only written values are served\<close>

lemma shown_not_accepted: "shown (snd resp) \<noteq> [] \<Longrightarrow> accepted e path q resp = []"
  by (auto simp: accepted_def split: resp_body.splits)

lemma get_hit_key:
  assumes "holds W (sv_cache s)" "fst (handleGet t q s) = (n, BGet g)" "gp_Status g = ''hit''"
  shows "gp_Key g = q_query q ''key''"
  using assms holds_found [OF assms(1), of "gc_get t" "gc_evict t" "q_query q ''key''"]
  by (auto simp: handleGet_def Let_def case_prod_unfold not_allowed_def split: option.splits if_splits)

text \<open>C2. A cluster never serves a value nobody wrote: whatever the nodes, their crashes and restarts, and however replication, recovery,
  rebalancing and hot-key messages are lost, duplicated, delayed or misdirected, a hit of any node, a routed read and a dump show, for
  each key, a value that some write a node accepted gave to that very key; a hit is for the key that was asked; and so is
  every entry that is live anywhere.\<close>

theorem cluster_serves_written_values:
  assumes reach: "cluster_reachable cl" and net: "delivered e path q (cl_net cl)" and run: "cluster_serve a e path q cl = (resp, cl')"
  shows "set (shown (snd resp)) \<subseteq> set (cl_written cl)
    \<and> (\<forall>n g. path = ''/get'' \<and> resp = (n, BGet g) \<and> gp_Status g = ''hit'' \<longrightarrow> gp_Key g = q_query q ''key'')
    \<and> (\<forall>b t k i. cache_view t (sv_cache (cl_nodes cl' b)) k = Some i \<longrightarrow> (k, it_Value i) \<in> set (cl_written cl'))"
proof (intro conjI allI impI)
  have honest: "cluster_honest cl" by (rule cluster.reachable_inv [OF reach])
  note served = serve_honest [OF honest net run]
  obtain outs s' where r: "enableCORS e path q (cl_nodes cl a) = (resp, outs, s')" and w: "cl_written cl' = accepted e path q resp @ cl_written cl"
    by (rule serve_parts [OF run])
  show "set (shown (snd resp)) \<subseteq> set (cl_written cl)"
    using served w shown_not_accepted [of resp e path q] by (cases "shown (snd resp) = []") simp_all
  show "gp_Key g = q_query q ''key''" if hit: "path = ''/get'' \<and> resp = (n, BGet g) \<and> gp_Status g = ''hit''" for n g
  proof (rule get_hit_key)
    show "holds (set (cl_written cl)) (sv_cache (cl_nodes cl a))" using honest by (simp add: cluster_honest_def)
    show "fst (handleGet (se_getClock e) q (cl_nodes cl a)) = (n, BGet g)" "gp_Status g = ''hit''"
      using r hit by (auto simp: enableCORS_def routes_def split: if_splits)
  qed
  show "(k, it_Value i) \<in> set (cl_written cl')" if "cache_view t (sv_cache (cl_nodes cl' b)) k = Some i" for b t k i
    using that served holds_entry unfolding cluster_honest_def view_Some_iff by blast
qed

definition demo_cluster :: "string cluster" where
  "demo_cluster = \<lparr>cl_nodes = (\<lambda>_. demo_server ''A'' (cache_New 0)), cl_net = [], cl_written = []\<rparr>"

lemma demo_cluster_start: "cluster_start demo_cluster"
  by (simp add: cluster_start_def demo_cluster_def fresh_node_def cache_New_def)

definition demo_serve_env :: "string serve_env \<Rightarrow> string serve_env" where
  "demo_serve_env e = e\<lparr>se_codec := demo_codec demo_req, se_now := 5,
     se_getClock := \<lparr>gc_get = 9, gc_evict = 9, gc_access = 9, gc_promote = 9, gc_reply = 9\<rparr>\<rparr>"

lemma demo_serve_env_clock: "gc_get (se_getClock (demo_serve_env e)) = 9"
  by (simp add: demo_serve_env_def)

lemma demo_set_served:
  "cluster_serve ''a'' (demo_serve_env e) ''/set'' (demo_request ''POST'' ''k'') demo_cluster =
     (let s = demo_server ''A'' (cache_New 0); r = handleSet (demo_codec demo_req) 5 (demo_request ''POST'' ''k'') s
      in (fst r, \<lparr>cl_nodes = (\<lambda>_. s)(''a'' := snd (snd r)), cl_net = sent (demo_serve_env e) ''/set'' (demo_request ''POST'' ''k'') s (fst r) (fst (snd r)),
           cl_written = [(''k'', ''v'')]\<rparr>))"
proof -
  have "TrimSpace (sr_Key demo_req) \<noteq> []" by (simp add: demo_req_def trim_k)
  then have "\<exists>ack. fst (handleSet (demo_codec demo_req) 5 (demo_request ''POST'' ''k'') (demo_server ''A'' (cache_New 0))) = (200, BSet ack)"
    using handleSet_eq [of "demo_server ''A'' (cache_New 0)" "demo_request ''POST'' ''k''" demo_req "demo_codec demo_req" 5]
    by (simp add: demo_ring_exact demo_set_request) (simp add: demo_request_def)
  moreover have "q_method (demo_request ''POST'' ''k'') = ''POST''" by (simp add: demo_request_def)
  moreover have "sr_Key demo_req = ''k''" "sr_Value demo_req = ''v''" by (simp_all add: demo_req_def)
  ultimately show ?thesis
    by (auto simp: cluster_serve_def enableCORS_def routes_def demo_serve_env_def demo_cluster_def accepted_def case_prod_unfold Let_def
        demo_set_request)
qed

theorem cluster_serves_written_values_witness:
  "\<forall>e. let cl = snd (cluster_serve ''a'' (demo_serve_env e) ''/set'' (demo_request ''POST'' ''k'') demo_cluster) in
     \<exists>g. fst (cluster_serve ''a'' (demo_serve_env e) ''/get'' (demo_request ''GET'' ''k'') cl) = (200, BGet g)
       \<and> gp_Key g = ''k'' \<and> (gp_Key g, gp_Value g) \<in> set (cl_written cl) \<and> cl_written cl = [(''k'', ''v'')]"
proof -
  let ?rq = "demo_request ''POST'' ''k''" and ?get = "demo_request ''GET'' ''k''"
  let ?s = "snd (snd (handleSet (demo_codec demo_req) 5 ?rq (demo_server ''A'' (cache_New 0))))"
  have key: "TrimSpace (sr_Key demo_req) \<noteq> []" by (simp add: demo_req_def trim_k)
  have cache: "sv_cache ?s = snd (set_result 5 demo_req (demo_server ''A'' (cache_New 0)))"
    using handleSet_eq [of "demo_server ''A'' (cache_New 0)" ?rq demo_req "demo_codec demo_req" 5] key
    by (simp add: demo_ring_exact demo_set_request) (simp add: demo_request_def)
  have view: "cache_view 9 (sv_cache ?s) (q_query ?get ''key'') = Some (fst (set_result 5 demo_req (demo_server ''A'' (cache_New 0))))"
    unfolding cache by (simp add: demo_request_def demo_req_def view_set Let_def set_item item_IsExpired_def ingest_ttl_whole)
  have "\<exists>g. fst (cluster_serve ''a'' (demo_serve_env e) ''/get'' ?get cl) = (200, BGet g) \<and> gp_Key g = ''k''
      \<and> (gp_Key g, gp_Value g) \<in> set (cl_written cl) \<and> cl_written cl = [(''k'', ''v'')]"
    if cl: "cl = snd (cluster_serve ''a'' (demo_serve_env e) ''/set'' ?rq demo_cluster)" for e cl
  proof -
    have net: "delivered (demo_serve_env e) ''/set'' ?rq (cl_net demo_cluster)" "delivered (demo_serve_env e) ''/get'' ?get (cl_net cl)"
      by (simp_all add: delivered_def)
    have reach: "cluster_reachable cl"
    proof (rule reachable_step [where s = demo_cluster])
      show "cluster_reachable demo_cluster" by (rule reachable_start) (rule demo_cluster_start)
      show "cluster_step demo_cluster cl" unfolding cl by (rule cluster_step.serve) (rule net(1))
    qed
    have node: "cl_nodes cl ''a'' = ?s" "cl_written cl = [(''k'', ''v'')]" by (simp_all add: cl demo_set_served Let_def)
    obtain resp cl' where run: "cluster_serve ''a'' (demo_serve_env e) ''/get'' ?get cl = (resp, cl')" by fastforce
    have "resp = fst (handleGet (se_getClock (demo_serve_env e)) ?get ?s)"
      using run node(1) by (auto simp: cluster_serve_def enableCORS_def routes_def demo_serve_env_def demo_request_def case_prod_unfold Let_def)
    then obtain g where g: "resp = (200, BGet g)" "gp_Status g = ''hit''"
      using handleGet_hit [OF _ _ view [folded demo_serve_env_clock [of e]]] by (auto simp: demo_request_def trim_k)
    with cluster_serves_written_values [OF reach net(2) run] node(2) run show ?thesis by (auto simp: demo_request_def)
  qed
  then show ?thesis by (simp add: Let_def)
qed


section \<open>Growth\<close>

text \<open>C27. A node that joins is handed the keys it becomes the primary of: \<^verbatim>\<open>POST /internal/rebalance\<close> at a node whose listed live keys
  include one whose primary the new node becomes sends one bulk message to the new node's address, and when
  \<^verbatim>\<open>POST /internal/sync/bulk\<close> delivers it there, whatever that node held before, the key reads there as the same value
  and version, flagged primary, with the remaining lifetime cut to whole seconds (for ever when less than a second was left).\<close>

theorem scale_out_hands_over:
  fixes so :: "'l server"
  assumes old: "cache_wf (sv_cache so)" "range_order (c_items (sv_cache so)) (se_order e)"
    and ring: "ring_exact (sv_hashRing so)" "ring_ids (sv_hashRing so) \<noteq> []" "ring_joinable (sv_hashRing so) n" "n = a \<or> \<not> ring_has (sv_hashRing so) a"
    and call: "q_method q = ''POST''" "cd_node (se_codec e) (q_body q) = Some (n, a)" "n \<noteq> []" "a \<noteq> []" "se_newRequest (se_sync e) (a @ ''/internal/sync/bulk'') = None"
      "handleInternalRebalance (se_codec e) (se_sync e) (se_rebalanceClock e) (se_order e) q so = (resp, so')"
    and key: "k \<in> set (cache_Keys (bc_keys (se_rebalanceClock e)) (se_order e) (sv_cache so))"
      "cache_view (kc_get (bc_key (se_rebalanceClock e) k)) (sv_cache so) k = Some i" "hd (prefs (sv_hashRing so') k) = n"
      "it_Version i \<noteq> 0" "it_ExpiresAt i - kc_ttl (bc_key (se_rebalanceClock e) k) < 2 ^ 23 * second"
  shows "\<exists>p. bulk_message e q so = [MBulk a p]
    \<and> (\<forall>cd clock q2 (sn :: 'l server). q_method q2 = ''POST'' \<and> cd_bulk cd (q_body q2) = Inr p \<longrightarrow>
        (\<exists>j i'. (\<forall>t. cache_view t (sv_cache (snd (handleInternalSyncBulk cd clock q2 sn))) k = (if item_IsExpired t i' then None else Some i'))
          \<and> it_Key i' = k \<and> it_Value i' = it_Value i \<and> it_Version i' = it_Version i \<and> it_IsReplica i' = False
          \<and> it_ExpiresAt i' =
              (let left = it_ExpiresAt i - kc_ttl (bc_key (se_rebalanceClock e) k)
               in if it_ExpiresAt i = 0 \<or> left < second then 0 else clock j + left div second * second)))"
proof -
  let ?c = "sv_cache so" and ?h = "ring_AddNode n a (sv_hashRing so)" and ?clock = "bc_key (se_rebalanceClock e)"
  let ?ks = "cache_Keys (bc_keys (se_rebalanceClock e)) (se_order e) ?c"
  let ?is = "concat (map (migrated ?clock ?c) (filter (\<lambda>k. hd (prefs ?h k) = n) ?ks))"
  let ?p = "\<lparr>bp_SourceNode = mg_selfNodeID (sv_rebalanceManager so), bp_Items = ?is\<rparr>"
  have eq: "?h = ring_insert n a (sv_hashRing so)"
    using ring(3,4) ring_exact_has [OF ring(1), of n] by (intro ring_AddNode_insert) (auto simp: ring_joinable_def)
  have ex: "ring_exact ?h" unfolding eq by (rule ringp.valid_join [OF ring(1,3)])
  have ne: "ring_ids ?h \<noteq> []" unfolding eq by (rule ring_ids_ne [OF ringp.members_join [OF ring(1,3)]])
  have d: "distinct ?ks" by (rule Keys_distinct [OF old(2)])
  have items: "fst (collect_migration ?clock ?h n ?ks ?c) = ?is"
    unfolding collect_migration_def migrate_fold [OF ex ne d] by simp
  have "sv_hashRing so' = ?h"
    using call by (auto simp: handleInternalRebalance_def RebalanceForNewNode_def Let_def case_prod_unfold split: option.splits sum.splits)
  then have mine: "hd (prefs ?h k) = n" using key(3) by simp
  have x: "dump_item_of (kc_ttl (?clock k)) False i \<in> set ?is"
    using key(1,2) mine by (auto simp: migrated_def intro!: bexI [of _ k])
  have dist: "distinct (map di_Key ?is)" unfolding migrated_keys [OF old(1)] by (intro distinct_filter d)
  have "bulk_message e q so = [MBulk a \<lparr>bp_SourceNode = mg_selfNodeID (sv_rebalanceManager so), bp_Items = is\<rparr>]"
    if "fst (collect_migration ?clock ?h n ?ks ?c) = is" "x \<in> set is" for "is" x
    using call(1-5) that by (auto simp: bulk_message_def Let_def)
  from this [OF items x] have "bulk_message e q so = [MBulk a ?p]" .
  moreover have "snd (handleInternalSyncBulk cd clock q2 sn) = sn\<lparr>sv_cache := snd (IngestBulkKeys clock ?is (sv_cache sn))\<rparr>"
    if "q_method q2 = ''POST''" "cd_bulk cd (q_body q2) = Inr ?p" for cd clock q2 and sn :: "'l server"
    using that by (simp add: handleInternalSyncBulk_def Let_def case_prod_unfold)
  ultimately show ?thesis
    using ingest_dumped [OF dist x view_key [OF old(1) key(2)] key(4,5)] by (intro exI [of _ ?p]) simp
qed


text \<open>The node A tells the new node of the concrete ring about the key that moves to it.\<close>

definition demo_join_env :: "string serve_env \<Rightarrow> string serve_env" where
  "demo_join_env e = e\<lparr>se_codec := (demo_codec demo_req)\<lparr>cd_node := (\<lambda>_. Some (''DDDD'', ''http://d''))\<rparr>, se_rebalanceClock := demo_clock,
     se_order := [''k'', ''0123456789ab''], se_sync := demo_sync_env\<rparr>"

theorem scale_out_hands_over_witness:
  "\<forall>e. \<exists>p. bulk_message (demo_join_env e) (demo_request ''POST'' []) (demo_server ''A'' demo_moving) = [MBulk ''http://d'' p]
     \<and> (\<exists>i'. cache_view 5 (sv_cache (snd (handleInternalSyncBulk ((demo_codec demo_req)\<lparr>cd_bulk := (\<lambda>_. Inr p)\<rparr>) (\<lambda>_. 1) (demo_request ''POST'' [])
           (demo_server ''DDDD'' (cache_New 0))))) ''0123456789ab'' = Some i'
         \<and> it_Value i' = ''v'')"
proof
  fix e
  let ?k = "''0123456789ab''" and ?so = "demo_server ''A'' demo_moving" and ?e = "demo_join_env e" and ?q = "demo_request ''POST'' []"
  let ?i = "\<lparr>it_Key = ?k, it_Value = ''v'', it_CreatedAt = 0, it_ExpiresAt = 0, it_Version = 1, it_IsReplica = False\<rparr>"
  have env: "cd_node (se_codec ?e) (q_body ?q) = Some (''DDDD'', ''http://d'')" "se_order ?e = [''k'', ?k]" "se_rebalanceClock ?e = demo_clock"
    "q_method ?q = ''POST''" "se_newRequest (se_sync ?e) (''http://d'' @ ''/internal/sync/bulk'') = None"
    by (simp_all add: demo_join_env_def demo_request_def demo_sync_env_def)
  have old: "cache_wf (sv_cache ?so)" "range_order (c_items (sv_cache ?so)) (se_order ?e)" by (simp_all add: demo_moving_wf env)
  have ring: "ring_exact (sv_hashRing ?so)" "ring_ids (sv_hashRing ?so) \<noteq> []" "ring_joinable (sv_hashRing ?so) ''DDDD''"
    "''DDDD'' = ''http://d'' \<or> \<not> ring_has (sv_hashRing ?so) ''http://d''"
    by (simp_all add: demo_ring_exact demo_ring_joinable) (simp_all add: demo_ring_eq gm_keys_def gm_get_def)
  have ne: "''DDDD'' \<noteq> ([] :: string)" "''http://d'' \<noteq> ([] :: string)" by simp_all
  obtain resp so' where run: "handleInternalRebalance (se_codec ?e) (se_sync ?e) (se_rebalanceClock ?e) (se_order ?e) ?q ?so = (resp, so')" by fastforce
  have "sv_hashRing so' = ring_AddNode ''DDDD'' ''http://d'' demo_ring"
    using run env(1,4) by (auto simp: handleInternalRebalance_def RebalanceForNewNode_def Let_def case_prod_unfold split: option.splits sum.splits)
  then have mine: "hd (prefs (sv_hashRing so') ?k) = ''DDDD''" by (simp add: demo_grown_prefs)
  have key: "?k \<in> set (cache_Keys (bc_keys (se_rebalanceClock ?e)) (se_order ?e) (sv_cache ?so))"
    "cache_view (kc_get (bc_key (se_rebalanceClock ?e) ?k)) (sv_cache ?so) ?k = Some ?i" "it_Version ?i \<noteq> 0"
    "it_ExpiresAt ?i - kc_ttl (bc_key (se_rebalanceClock ?e) ?k) < 2 ^ 23 * second"
    by (simp_all add: env cache_Keys_def demo_moving_def demo_clock_def cache_view_def item_IsExpired_def)
  obtain p where p: "bulk_message ?e ?q ?so = [MBulk ''http://d'' p]"
    and h: "\<forall>cd clock q2 (sn :: string server). q_method q2 = ''POST'' \<and> cd_bulk cd (q_body q2) = Inr p \<longrightarrow>
        (\<exists>j i'. (\<forall>t. cache_view t (sv_cache (snd (handleInternalSyncBulk cd clock q2 sn))) ?k = (if item_IsExpired t i' then None else Some i'))
          \<and> it_Key i' = ?k \<and> it_Value i' = it_Value ?i \<and> it_Version i' = it_Version ?i \<and> it_IsReplica i' = False
          \<and> it_ExpiresAt i' =
              (let left = it_ExpiresAt ?i - kc_ttl (bc_key (se_rebalanceClock ?e) ?k)
               in if it_ExpiresAt ?i = 0 \<or> left < second then 0 else clock j + left div second * second))"
    using scale_out_hands_over [OF old ring env(4,1) ne env(5) run key(1,2) mine key(3,4)] by (elim exE conjE)
  have "\<exists>i'. cache_view 5 (sv_cache (snd (handleInternalSyncBulk ((demo_codec demo_req)\<lparr>cd_bulk := (\<lambda>_. Inr p)\<rparr>) (\<lambda>_. 1) ?q
           (demo_server ''DDDD'' (cache_New 0))))) ?k = Some i' \<and> it_Value i' = ''v''"
    using h [rule_format, of ?q "(demo_codec demo_req)\<lparr>cd_bulk := (\<lambda>_. Inr p)\<rparr>" "\<lambda>_. 1" "demo_server ''DDDD'' (cache_New 0)"] env(4)
    by (auto simp: item_IsExpired_def)
  with p show "\<exists>p. bulk_message ?e ?q ?so = [MBulk ''http://d'' p]
     \<and> (\<exists>i'. cache_view 5 (sv_cache (snd (handleInternalSyncBulk ((demo_codec demo_req)\<lparr>cd_bulk := (\<lambda>_. Inr p)\<rparr>) (\<lambda>_. 1) ?q
           (demo_server ''DDDD'' (cache_New 0))))) ?k = Some i' \<and> it_Value i' = ''v'')" by blast
qed

end
