(* ===== verification/Processes.thy ===== *)
theory Processes
  imports Reachability Node_Properties Gateway_Properties Deployment Chaos
begin

text \<open>
  The processes of a deployment, from \<^verbatim>\<open>main\<close> to exit: a cache node (\<^verbatim>\<open>backend/cmd/node/main.go\<close>), the unified router
  (\<^verbatim>\<open>backend/cmd/router/main.go\<close>) and the chaos command (\<^verbatim>\<open>backend/cmd/chaos/main.go\<close>).

  \<^item> A node or router process is its server and, once it has ended, its exit code; what its goroutines meet one after the other (requests,
    outcomes of heartbeats, ticks of the clean-up, the recovery, the end of \<^verbatim>\<open>ListenAndServe\<close>, a signal) is a list of events.
    \<^verbatim>\<open>log.Fatalf\<close> ends the process with code 1 without running the deferred calls.
  \<^item> The chaos command is its flags, the commands its process hook starts (the path function of the platform is an argument) and the
    lines it prints, with the formatting of \<^verbatim>\<open>%.2f\<close> written out.

  Shown: from start to exit no sequence of events corrupts a node or a router; both stop what they started when they are told to,
  and nothing happens after the exit; and what the chaos command prints.
\<close>

section \<open>Definitions\<close>

datatype listen_result = ErrServerClosed | ListenErr string

subsection \<open>Node\<close>

record 'l node_process =
  np_server :: "'l server"
  np_exit :: "int option"

datatype 'l node_event =
    NodeRequest "'l serve_env" string request
  | NodeBeat "'l mon_op"
  | NodeClean gtime
  | NodeRecover startup_env
  | NodeReplicated repl_env outgoing
  | NodeListen listen_result
  | NodeSignal

definition node_main_start :: "(string \<Rightarrow> string) \<Rightarrow> node_flags \<Rightarrow> gtime \<Rightarrow> (string \<Rightarrow> gtime) \<Rightarrow> string list \<Rightarrow> 'l node_process" where
  "node_main_start getenv flags now clock ord = \<lparr>np_server = node_server getenv flags now clock ord, np_exit = None\<rparr>"

text \<open>\<^verbatim>\<open>Start\<close> returns why it stopped listening; only an error other than the one \<^verbatim>\<open>Close\<close> causes is fatal.\<close>

definition node_listen :: "listen_result \<Rightarrow> 'l node_process \<Rightarrow> 'l node_process" where
  "node_listen r p = (if r \<noteq> ErrServerClosed then p\<lparr>np_exit := Some 1\<rparr> else p)"

text \<open>After the signal: the server is closed (an error is only logged), then the deferred close of the cache runs.\<close>

definition node_shutdown :: "'l node_process \<Rightarrow> 'l node_process" where
  "node_shutdown p =
     (let s = server_Close (np_server p)
      in p\<lparr>np_server := s\<lparr>sv_cache := cache_Close (sv_cache s)\<rparr>, np_exit := Some 0\<rparr>)"

definition node_main_step :: "node_config \<Rightarrow> 'l node_event \<Rightarrow> 'l node_process \<Rightarrow> 'l node_process" where
  "node_main_step cfg ev p =
     (if np_exit p \<noteq> None then p
      else let s = np_server p
           in case ev of
                NodeRequest e path q \<Rightarrow> p\<lparr>np_server := snd (snd (enableCORS e path q s))\<rparr>
              | NodeBeat b \<Rightarrow> p\<lparr>np_server := s\<lparr>sv_healthMonitor := snd (mon_apply b (sv_healthMonitor s))\<rparr>\<rparr>
              | NodeClean now \<Rightarrow> p\<lparr>np_server := s\<lparr>sv_cache := cache_purgeExpired now (sv_cache s)\<rparr>\<rparr>
              | NodeRecover env \<Rightarrow> p\<lparr>np_server := startup_recovery env cfg s\<rparr>
              | NodeReplicated env out \<Rightarrow> p\<lparr>np_server := run_outgoing env out s\<rparr>
              | NodeListen r \<Rightarrow> node_listen r p
              | NodeSignal \<Rightarrow> node_shutdown p)"

subsection \<open>Router\<close>

record ('l, 'c) router_process =
  rp_gateway :: "('l, 'c) gateway"
  rp_exit :: "int option"

datatype ('l, 'c) router_event =
    RouterRequest "('l, 'c) gw_env" string gw_request
  | RouterBeat "'l mon_op"
  | RouterListen listen_result
  | RouterSignal "'c db_env"

definition router_main_start ::
  "(string \<Rightarrow> string) \<Rightarrow> router_flags \<Rightarrow> (string \<Rightarrow> gtime) \<Rightarrow> 'c open_env \<Rightarrow> ('l, 'c) router_process" where
  "router_main_start getenv flags clock oenv =
     \<lparr>rp_gateway = gateway_New clock oenv (router_gateway_config getenv flags), rp_exit = None\<rparr>"

text \<open>\<^verbatim>\<open>main\<close> returns when \<^verbatim>\<open>Start\<close> does, with the error \<^verbatim>\<open>Server closed\<close> or fatally with another one.\<close>

definition router_listen :: "listen_result \<Rightarrow> ('l, 'c) router_process \<Rightarrow> ('l, 'c) router_process" where
  "router_listen r p = p\<lparr>rp_exit := Some (if r \<noteq> ErrServerClosed then 1 else 0)\<rparr>"

definition router_shutdown :: "'c db_env \<Rightarrow> ('l, 'c) router_process \<Rightarrow> ('l, 'c) router_process" where
  "router_shutdown env p = p\<lparr>rp_gateway := gateway_Close env (rp_gateway p), rp_exit := Some 0\<rparr>"

definition router_main_step :: "('l, 'c) router_event \<Rightarrow> ('l, 'c) router_process \<Rightarrow> ('l, 'c) router_process" where
  "router_main_step ev p =
     (if rp_exit p \<noteq> None then p
      else let g = rp_gateway p
           in case ev of
                RouterRequest env path q \<Rightarrow> p\<lparr>rp_gateway := snd (snd (snd (gw_enableCORS env path q g)))\<rparr>
              | RouterBeat b \<Rightarrow> p\<lparr>rp_gateway := g\<lparr>gw_healthMonitor := snd (mon_apply b (gw_healthMonitor g))\<rparr>\<rparr>
              | RouterListen r \<Rightarrow> router_listen r p
              | RouterSignal env \<Rightarrow> router_shutdown env p)"

subsection \<open>Chaos command\<close>

record chaos_flags =
  cf_gateway :: "string option"
  cf_scenario :: "string option"
  cf_requests :: "int option"
  cf_concurrency :: "int option"
  cf_chaos_delay :: "duration option"
  cf_req_delay :: "duration option"

definition chaos_main_config :: "chaos_flags \<Rightarrow> chaos_config" where
  "chaos_main_config flags =
     \<lparr>cc_GatewayURL = flag_or (cf_gateway flags) ''http://localhost:8000'', cc_Scenario = flag_or (cf_scenario flags) ''primary_kill'',
      cc_TotalRequests = flag_or (cf_requests flags) 50, cc_Concurrency = flag_or (cf_concurrency flags) 5,
      cc_RequestDelay = flag_or (cf_req_delay flags) (30 * millisecond), cc_ChaosDelay = flag_or (cf_chaos_delay flags) (800 * millisecond),
      cc_NodeProcessHook = True\<rparr>"

text \<open>The command the process hook runs, if any; \<open>join\<close> is \<^verbatim>\<open>filepath.Join\<close> of the platform, \<open>rootDir\<close> the working directory.\<close>

definition node_args :: "string \<Rightarrow> string" where
  "node_args nodeID =
     (if nodeID = ''node-a'' then ''-id node-a -port 8001 -peers node-b=http://localhost:8002,node-c=http://localhost:8003''
      else if nodeID = ''node-b'' then ''-id node-b -port 8002 -peers node-a=http://localhost:8001,node-c=http://localhost:8003''
      else if nodeID = ''node-c'' then ''-id node-c -port 8003 -peers node-a=http://localhost:8001,node-b=http://localhost:8002''
      else [])"

definition process_hook :: "(string list \<Rightarrow> string) \<Rightarrow> string \<Rightarrow> string \<Rightarrow> string \<Rightarrow> int \<Rightarrow> string list option" where
  "process_hook join rootDir action nodeID port =
     (if action = ''kill''
      then Some [''powershell.exe'', ''-ExecutionPolicy'', ''Bypass'', ''-File'', join [rootDir, ''kill_node.ps1''], nodeID]
      else if action = ''start''
      then Some [''powershell.exe'', ''-Command'',
             ''Start-Process -FilePath '' @ [CHR 0x27] @ join [rootDir, ''backend'', ''node.exe''] @ [CHR 0x27] @
             '' -ArgumentList '' @ [CHR 0x27] @ node_args nodeID @ [CHR 0x27]]
      else None)"

text \<open>\<^verbatim>\<open>%.<d>f\<close>, for at least one decimal: the exact value, rounded to the nearest decimal, ties to even.\<close>

definition format_fixed :: "nat \<Rightarrow> rat \<Rightarrow> string" where
  "format_fixed d x =
     (let n = round_even (\<bar>x\<bar> * 10 ^ d); frac = itoa (n mod 10 ^ d)
      in (if x < 0 then ''-'' else []) @ itoa (n div 10 ^ d) @ ''.'' @ replicate (d - length frac) (CHR ''0'') @ frac)"

definition heavy_rule :: string where "heavy_rule = replicate 65 (CHR ''='')"
definition light_rule :: string where "light_rule = replicate 65 (CHR ''-'')"

text \<open>The dash of the titles, in UTF-8.\<close>

definition em_dash :: string where "em_dash = [CHR 0xE2, CHR 0x80, CHR 0x94]"

definition chaos_banner :: "chaos_flags \<Rightarrow> string list" where
  "chaos_banner flags =
     (let cfg = chaos_main_config flags
      in [heavy_rule, ''  SELF-HEALING DISTRIBUTED CACHE '' @ em_dash @ '' CHAOS ENGINEERING SUITE'', heavy_rule,
          ''  Target Gateway : '' @ cc_GatewayURL cfg, ''  Scenario       : '' @ cc_Scenario cfg,
          ''  Requests       : '' @ itoa (cc_TotalRequests cfg) @ '' | Concurrency: '' @ itoa (cc_Concurrency cfg) @ '' workers'',
          heavy_rule, ''Running chaos experiment...''])"

definition verdict_line :: "scorecard \<Rightarrow> string" where
  "verdict_line sc =
     (if 95 \<le> sco_SuccessRate sc then ''  [VERDICT] EXCELLENT RESILIENCE '' @ em_dash @ '' ZERO DOWNTIME MAINTAINED!''
      else if 80 \<le> sco_SuccessRate sc then ''  [VERDICT] ACCEPTABLE FAULT TOLERANCE''
      else ''  [VERDICT] RESILIENCE GOAL NOT MET'')"

definition chaos_report :: "(gtime \<times> string \<Rightarrow> string) \<Rightarrow> scorecard \<Rightarrow> string list" where
  "chaos_report event sc =
     [[], heavy_rule, replicate 21 (CHR '' '') @ ''RESILIENCE SCORECARD'' @ replicate 24 (CHR '' ''), heavy_rule,
      ''  Total Requests Sent    : '' @ itoa (sco_TotalRequests sc),
      ''  Successful Operations  : '' @ itoa (sco_SuccessfulRequests sc),
      ''  Failed Operations      : '' @ itoa (sco_FailedRequests sc),
      ''  Failover Read Hits     : '' @ itoa (sco_FailoverHits sc),
      ''  Overall Success Rate   : '' @ format_fixed 2 (sco_SuccessRate sc) @ ''%'',
      ''  Data Corruptions       : '' @ itoa (sco_DataCorruptions sc),
      ''  Total Duration         : '' @ itoa (sco_DurationMs sc) @ '' ms'',
      ''  Throughput             : '' @ format_fixed 1 (sco_ThroughputRPS sc) @ '' req/sec'',
      light_rule, ''  Latency Metrics:'',
      ''    Min Latency          : '' @ itoa (sco_MinLatencyMs sc) @ '' ms'',
      ''    P50 (Median) Latency : '' @ itoa (sco_P50LatencyMs sc) @ '' ms'',
      ''    P95 Latency          : '' @ itoa (sco_P95LatencyMs sc) @ '' ms'',
      ''    P99 Latency          : '' @ itoa (sco_P99LatencyMs sc) @ '' ms'',
      ''    Max Latency          : '' @ itoa (sco_MaxLatencyMs sc) @ '' ms'',
      light_rule, ''  Chaos Timeline Events:'']
     @ map (\<lambda>evt. ''    '' @ event evt) (sco_ChaosEvents sc)
     @ [heavy_rule, verdict_line sc, heavy_rule]"

text \<open>What the command prints when the experiment has ended in the state \<open>s\<close> after the time \<open>d\<close>; \<open>Run\<close> returns no error.\<close>

definition chaos_main :: "(gtime \<times> string \<Rightarrow> string) \<Rightarrow> chaos_flags \<Rightarrow> duration \<Rightarrow> chaos_run \<Rightarrow> string list option" where
  "chaos_main event flags d s =
     map_option (\<lambda>sc. chaos_banner flags @ chaos_report event sc) (run_scorecard (NewRunner (chaos_main_config flags)) d s)"

section \<open>A node from start to exit\<close>

declare map_of_eq_Some_iff [simp del]

lemma wf_recovery: "cache_wf (sv_cache s) \<Longrightarrow> cache_wf (sv_cache (startup_recovery env cfg s))"
proof -
  have "cache_wf (fold (sync_reachable env h mgr results) addrs c)" if "cache_wf c" for h mgr results addrs c
    using that
    by (induction addrs arbitrary: c) (simp_all add: sync_reachable_def sync_dump_reply IngestBulkKeys_def wf_ingest split: option.split)
  then show "cache_wf (sv_cache s) \<Longrightarrow> ?thesis" by (simp add: startup_recovery_def case_prod_unfold Let_def)
qed

lemma recovery_rest [simp]:
  "sv_hashRing (startup_recovery env cfg s) = sv_hashRing s" "sv_healthMonitor (startup_recovery env cfg s) = sv_healthMonitor s"
  by (simp_all add: startup_recovery_def case_prod_unfold Let_def)

lemma run_outgoing_rest [simp]:
  "sv_cache (run_outgoing env out s) = sv_cache s" "sv_hashRing (run_outgoing env out s) = sv_hashRing s"
  "sv_healthMonitor (run_outgoing env out s) = sv_healthMonitor s"
  by (simp_all add: run_outgoing_def split: outgoing.split)

lemma wf_purge: "cache_wf c \<Longrightarrow> cache_wf (cache_purgeExpired now c)"
  using wf_step [of c "OpPurge now"] by simp

lemma wf_close: "cache_wf c \<Longrightarrow> cache_wf (cache_Close c)"
  by (simp add: cache_wf_def cache_Close_def)

lemma mon_wf_stop: "mon_wf m \<Longrightarrow> mon_wf (monitor_Stop m)"
  by (simp add: mon_wf_def monitor_Stop_def)

definition node_process_inv :: "'l node_process \<Rightarrow> bool" where
  "node_process_inv p \<longleftrightarrow> server_inv (np_server p)
     \<and> (np_exit p = Some 0 \<longrightarrow> m_stopped (sv_healthMonitor (np_server p)) \<and> c_stopCleanup (sv_cache (np_server p)))"

lemma shutdown_inv:
  assumes "server_inv (np_server p)"
  shows "node_process_inv (node_shutdown p)"
  using assms unfolding node_process_inv_def node_shutdown_def Let_def server_inv_def
  by (simp add: wf_close mon_wf_stop server_Close_def) (simp add: monitor_Stop_def cache_Close_def)

lemma fold_AddNode_wf: "ring_wf h \<Longrightarrow> \<forall>m\<in>set ms. fst m \<noteq> [] \<Longrightarrow> ring_wf (fold (\<lambda>(n, a). ring_AddNode n a) ms h)"
  by (induction ms arbitrary: h) (auto simp: ring_wf_AddNode)

lemma server_New_inv:
  assumes "sc_NodeID cfg \<noteq> []" "\<forall>n\<in>set ord. n \<noteq> []" "cache_wf c"
  shows "server_inv (server_New clock ord cfg c :: 'l server)"
proof -
  let ?s = "server_New clock ord cfg c :: 'l server"
  have "ring_wf (sv_hashRing ?s)"
    unfolding server_ring by (rule fold_AddNode_wf [OF ring_wf_New]) (use assms in auto)
  moreover have "sv_cache ?s = c" by (simp add: server_New_def Let_def)
  moreover have "mon_wf (sv_healthMonitor ?s)" by (simp add: server_New_def Let_def NewMonitor_alive)
  ultimately show ?thesis using assms(3) by (simp add: server_inv_def)
qed

lemma getFirstEnv_nonempty: "fallback \<noteq> [] \<Longrightarrow> getFirstEnv getenv ks fallback \<noteq> []"
  by (induction ks) simp_all

definition node_main_started :: "(string \<Rightarrow> string) \<Rightarrow> node_flags \<Rightarrow> 'l node_process \<Rightarrow> bool" where
  "node_main_started getenv flags p \<longleftrightarrow>
     nf_id flags \<noteq> Some [] \<and> (\<exists>now clock ord. (\<forall>n\<in>set ord. n \<noteq> []) \<and> p = node_main_start getenv flags now clock ord)"

text \<open>A node process keeps its contract: it is well-formed at every moment, and stays as it was once it has ended.\<close>

interpretation node_process: invariant_system "node_main_started getenv flags" "\<lambda>p p'. \<exists>ev. p' = node_main_step (ParseFlags getenv flags) ev p"
  node_process_inv "\<lambda>p p'. np_exit p \<noteq> None \<longrightarrow> p' = p" for getenv flags
proof
  show "node_process_inv p" if started: "node_main_started getenv flags p" for p :: "'l node_process"
  proof -
    obtain now clock ord where p: "p = node_main_start getenv flags now clock ord" and ids: "\<forall>n\<in>set ord. n \<noteq> []" "nf_id flags \<noteq> Some []"
      using started unfolding node_main_started_def by blast
    have "nc_NodeID (ParseFlags getenv flags) \<noteq> []"
      using ids(2) getFirstEnv_nonempty [of "''node-a''" getenv "[''NODE_ID'', ''CACHE_NODE_ID'']"]
      by (auto simp: ParseFlags_def flag_or_def simp del: getFirstEnv.simps split: option.split)
    then show ?thesis
      by (simp add: p node_main_start_def node_server_def node_process_inv_def Let_def node_server_config_def server_New_inv [OF _ ids(1) wf_New])
  qed
  show "node_process_inv p'" if inv: "node_process_inv p" and step: "\<exists>ev. p' = node_main_step (ParseFlags getenv flags) ev p"
    for p p' :: "'l node_process"
  proof -
    obtain ev where p': "p' = node_main_step (ParseFlags getenv flags) ev p" using step by blast
    have s: "server_inv (np_server p)" using inv by (simp add: node_process_inv_def)
    show ?thesis
    proof (cases "np_exit p = None")
      case True
      then show ?thesis
        using s server_request_keeps_invariant [OF s] shutdown_inv [OF s]
        by (cases ev) (simp_all add: p' node_main_step_def node_listen_def node_process_inv_def server_inv_def Let_def apply_wf wf_purge wf_recovery)
    qed (use inv p' in \<open>auto simp: node_main_step_def\<close>)
  qed
qed (auto simp: node_main_step_def)

lemma fold_run: "(\<lambda>p p'. \<exists>ev. p' = f ev p)\<^sup>*\<^sup>* p (fold f evs p)"
proof (induction evs arbitrary: p)
  case (Cons ev evs)
  have "(\<lambda>p p'. \<exists>ev. p' = f ev p) p (f ev p)" by blast
  with Cons.IH [of "f ev p"] show ?case by (simp add: converse_rtranclp_into_rtranclp)
qed simp

text \<open>C20. A node process never corrupts its state and stops cleanly: from the flags and the environment it starts with (with ids that are not
  empty), whatever requests, heartbeats, clean-ups, recoveries and ends of replication exchanges it meets, in any order, cache, ring and
  membership stay well-formed; when it has exited with code 0 the heartbeats and the clean-up worker have been told to stop; and once it has
  exited nothing changes it any more.\<close>

theorem node_lifetime_invariant:
  assumes "nf_id flags \<noteq> Some []" "\<forall>n\<in>set ord. n \<noteq> []"
    and "p = fold (node_main_step (ParseFlags getenv flags)) evs (node_main_start getenv flags now clock ord)"
  shows "server_inv (np_server p)
    \<and> (np_exit p = Some 0 \<longrightarrow> m_stopped (sv_healthMonitor (np_server p)) \<and> c_stopCleanup (sv_cache (np_server p)))
    \<and> (np_exit p \<noteq> None \<longrightarrow> fold (node_main_step (ParseFlags getenv flags)) evs' p = p)"
proof -
  have "node_main_started getenv flags (node_main_start getenv flags now clock ord)" using assms(1,2) by (auto simp: node_main_started_def)
  then have "node_process_inv p"
    using node_process.run_inv [OF fold_run] node_process.start_inv unfolding assms(3) by blast
  moreover have "np_exit p \<noteq> None \<longrightarrow> fold (node_main_step (ParseFlags getenv flags)) evs' p = p"
    by (rule node_process.run_grows [OF fold_run])
  ultimately show ?thesis by (simp add: node_process_inv_def)
qed

theorem node_lifetime_invariant_witness:
  "\<forall>e :: string serve_env. let p = fold (node_main_step (ParseFlags (\<lambda>_. []) demo_flags)) [NodeClean 3, NodeRequest e ''/set'' (demo_request ''POST'' ''k''), NodeSignal]
       (node_main_start (\<lambda>_. []) demo_flags 0 (\<lambda>_. 0) [''b'', ''c''])
     in server_inv (np_server p) \<and> np_exit p = Some 0 \<and> m_stopped (sv_healthMonitor (np_server p)) \<and> node_main_step (ParseFlags (\<lambda>_. []) demo_flags) (NodeClean 9) p = p"
proof
  fix e :: "string serve_env"
  let ?cfg = "ParseFlags (\<lambda>_. []) demo_flags"
  let ?start = "node_main_start (\<lambda>_. []) demo_flags 0 (\<lambda>_. 0) [''b'', ''c'']"
  define p where "p = fold (node_main_step ?cfg) [NodeClean 3, NodeRequest e ''/set'' (demo_request ''POST'' ''k''), NodeSignal] ?start"
  have "np_exit (node_main_step ?cfg NodeSignal q) = Some 0" if "np_exit q = None" for q :: "string node_process"
    using that by (simp add: node_main_step_def node_shutdown_def Let_def)
  then have "np_exit p = Some 0" by (simp add: p_def) (simp add: node_main_step_def node_main_start_def Let_def)
  moreover have "nf_id demo_flags \<noteq> Some []" "\<forall>n\<in>set [''b'', ''c'']. n \<noteq> []" by (simp_all add: demo_flags_def)
  ultimately show "let p = fold (node_main_step ?cfg) [NodeClean 3, NodeRequest e ''/set'' (demo_request ''POST'' ''k''), NodeSignal] ?start
     in server_inv (np_server p) \<and> np_exit p = Some 0 \<and> m_stopped (sv_healthMonitor (np_server p)) \<and> node_main_step ?cfg (NodeClean 9) p = p"
    using node_lifetime_invariant [OF _ _ p_def, of "[NodeClean 9]"] unfolding p_def [symmetric] Let_def by simp
qed


section \<open>A router from start to exit\<close>

lemma join_node_wf: "ring_wf (fst st) \<Longrightarrow> TrimSpace (fst (split_at_char (CHR ''='') n)) \<noteq> [] \<Longrightarrow> ring_wf (fst (join_node n st))"
  by (auto simp: join_node_def Let_def case_prod_unfold ring_wf_AddNode)

lemma fold_join_node_wf:
  "ring_wf (fst st) \<Longrightarrow> \<forall>n\<in>set ns. TrimSpace (fst (split_at_char (CHR ''='') n)) \<noteq> [] \<Longrightarrow> ring_wf (fst (fold join_node ns st))"
  by (induction ns arbitrary: st) (auto simp: join_node_wf)

lemma gateway_New_inv:
  assumes "\<forall>n\<in>set (gf_Nodes cfg). TrimSpace (fst (split_at_char (CHR ''='') n)) \<noteq> []"
  shows "gw_inv (gateway_New clock oenv cfg :: ('l, 'c) gateway)"
proof -
  let ?g = "gateway_New clock oenv cfg :: ('l, 'c) gateway"
  have "ring_wf (gw_hashRing ?g)" unfolding gateway_ring using assms by (simp add: fold_join_node_wf ring_wf_New)
  moreover have "mon_wf (gw_healthMonitor ?g)" by (simp add: gateway_New_def Let_def case_prod_unfold NewMonitor_alive)
  moreover have "gw_db ?g \<noteq> None" by (simp add: gateway_New_def Let_def case_prod_unfold)
  moreover have "gw_failover ?g = NewRouter (gf_RequestTimeout (gw_defaults cfg))" by (simp add: gateway_New_def Let_def case_prod_unfold)
  ultimately show ?thesis by (simp add: gw_inv_def NewRouter_def)
qed

lemma gateway_Close_inv: "gw_inv g \<Longrightarrow> gw_inv (gateway_Close env g) \<and> m_stopped (gw_healthMonitor (gateway_Close env g))"
  by (auto simp: gw_inv_def gateway_Close_def mon_wf_stop Let_def) (simp add: monitor_Stop_def)

definition router_main_started :: "(string \<Rightarrow> string) \<Rightarrow> router_flags \<Rightarrow> ('l, 'c) router_process \<Rightarrow> bool" where
  "router_main_started getenv flags p \<longleftrightarrow>
     (\<forall>n\<in>set (gf_Nodes (router_gateway_config getenv flags)). TrimSpace (fst (split_at_char (CHR ''='') n)) \<noteq> [])
     \<and> (\<exists>clock oenv. p = router_main_start getenv flags clock oenv)"

interpretation router_process: invariant_system "router_main_started getenv flags" "\<lambda>p p'. \<exists>ev. p' = router_main_step ev p"
  "\<lambda>p. gw_inv (rp_gateway p)" "\<lambda>p p'. rp_exit p \<noteq> None \<longrightarrow> p' = p" for getenv flags
proof
  show "gw_inv (rp_gateway p)" if "router_main_started getenv flags p" for p :: "('l, 'c) router_process"
    using that by (auto simp: router_main_started_def router_main_start_def gateway_New_inv)
  show "gw_inv (rp_gateway p')" if inv: "gw_inv (rp_gateway p)" and step: "\<exists>ev. p' = router_main_step ev p" for p p' :: "('l, 'c) router_process"
  proof -
    obtain ev where p': "p' = router_main_step ev p" using step by blast
    show ?thesis
    proof (cases "rp_exit p = None")
      case True
      show ?thesis
      proof (cases ev)
        case (RouterRequest env path q)
        then show ?thesis
          using True gateway_request_keeps_invariant [OF inv, of path env q] by (simp add: p' router_main_step_def Let_def gw_keeps_def)
      next
        case (RouterBeat b)
        then show ?thesis using True inv by (simp add: p' router_main_step_def Let_def gw_inv_def apply_wf)
      next
        case (RouterListen r)
        then show ?thesis using True inv by (simp add: p' router_main_step_def Let_def router_listen_def)
      next
        case (RouterSignal env)
        then show ?thesis using True gateway_Close_inv [OF inv] by (simp add: p' router_main_step_def Let_def router_shutdown_def)
      qed
    qed (use inv p' in \<open>simp add: router_main_step_def\<close>)
  qed
qed (auto simp: router_main_step_def)

text \<open>C21. A router process never corrupts its gateway and stops cleanly: from the flags and the environment it starts with (every node of the
  list with an id), whatever requests and heartbeats it meets, ring, membership, database interface and routing counters stay
  well-formed; a signal ends it with code 0 and stops the heartbeats; and once it has exited nothing changes it any more.\<close>

theorem router_lifetime_invariant:
  assumes "\<forall>n\<in>set (gf_Nodes (router_gateway_config getenv flags)). TrimSpace (fst (split_at_char (CHR ''='') n)) \<noteq> []"
    and "p = fold router_main_step evs (router_main_start getenv flags clock oenv)"
  shows "gw_inv (rp_gateway p)
    \<and> (rp_exit p = None \<longrightarrow> rp_exit (router_main_step (RouterSignal env) p) = Some 0
        \<and> m_stopped (gw_healthMonitor (rp_gateway (router_main_step (RouterSignal env) p))))
    \<and> (rp_exit p \<noteq> None \<longrightarrow> fold router_main_step evs' p = p)"
proof (intro conjI)
  have "router_main_started getenv flags (router_main_start getenv flags clock oenv)" using assms(1) by (auto simp: router_main_started_def)
  then show inv: "gw_inv (rp_gateway p)"
    using router_process.run_inv [OF fold_run] router_process.start_inv unfolding assms(2) by blast
  show "rp_exit p \<noteq> None \<longrightarrow> fold router_main_step evs' p = p" by (rule router_process.run_grows [OF fold_run])
  show "rp_exit p = None \<longrightarrow> rp_exit (router_main_step (RouterSignal env) p) = Some 0
      \<and> m_stopped (gw_healthMonitor (rp_gateway (router_main_step (RouterSignal env) p)))"
    using gateway_Close_inv [OF inv, of env] by (simp add: router_main_step_def router_shutdown_def Let_def)
qed

definition demo_router_flags :: router_flags where
  "demo_router_flags = \<lparr>rf_port = None, rf_host = None, rf_nodes = Some ''n=http://n'', rf_vnodes = None, rf_heartbeat = None, rf_suspect = None,
     rf_fail = None, rf_timeout = None\<rparr>"

lemma demo_router_nodes: "gf_Nodes (router_gateway_config getenv demo_router_flags) = [''n=http://n'']"
proof -
  have "TrimSpace ''n=http://n'' = ''n=http://n''" by code_simp
  then show ?thesis by (simp add: router_gateway_config_def demo_router_flags_def flag_or_def parse_list_def)
qed

theorem router_lifetime_invariant_witness:
  "\<forall>oenv :: 'c open_env. \<forall>env. let p = fold router_main_step [RouterBeat (MAdd 1 ''n'' ''http://m'')] (router_main_start (\<lambda>_. []) demo_router_flags (\<lambda>_. 0) oenv :: (string, 'c) router_process)
     in gw_inv (rp_gateway p) \<and> rp_exit (router_main_step (RouterSignal env) p) = Some 0"
proof (intro allI)
  fix oenv :: "'c open_env" and env
  define p where "p = fold router_main_step [RouterBeat (MAdd 1 ''n'' ''http://m'')] (router_main_start (\<lambda>_. []) demo_router_flags (\<lambda>_. 0) oenv :: (string, 'c) router_process)"
  have "TrimSpace (fst (split_at_char (CHR ''='') ''n=http://n'')) = ''n''" by code_simp
  then have "\<forall>n\<in>set (gf_Nodes (router_gateway_config (\<lambda>_. []) demo_router_flags)). TrimSpace (fst (split_at_char (CHR ''='') n)) \<noteq> []"
    by (simp add: demo_router_nodes)
  moreover have "rp_exit p = None" by (simp add: p_def router_main_step_def router_main_start_def Let_def)
  ultimately show "let p = fold router_main_step [RouterBeat (MAdd 1 ''n'' ''http://m'')] (router_main_start (\<lambda>_. []) demo_router_flags (\<lambda>_. 0) oenv :: (string, 'c) router_process)
     in gw_inv (rp_gateway p) \<and> rp_exit (router_main_step (RouterSignal env) p) = Some 0"
    using router_lifetime_invariant [OF _ p_def, of env] unfolding p_def [symmetric] Let_def by simp
qed


section \<open>The chaos command\<close>

lemma round_even_near: "\<bar>of_int (round_even x) - x\<bar> \<le> 1 / 2"
proof -
  have "of_int \<lfloor>x\<rfloor> \<le> x" "x < of_int \<lfloor>x\<rfloor> + 1" by linarith+
  then show ?thesis by (auto simp: round_even_def Let_def split: if_splits)
qed

text \<open>What is printed is the decimal nearest to the value.\<close>

lemma format_fixed_near:
  assumes "0 \<le> x"
  shows "\<exists>n. format_fixed d x = itoa (n div 10 ^ d) @ ''.'' @ replicate (d - length (itoa (n mod 10 ^ d))) (CHR ''0'') @ itoa (n mod 10 ^ d)
    \<and> \<bar>of_int n - x * 10 ^ d\<bar> \<le> 1 / 2"
  using assms round_even_near [of "x * 10 ^ d"]
  by (intro exI [of _ "round_even (x * 10 ^ d)"]) (simp add: format_fixed_def Let_def)

lemma format_fixed_samples: "format_fixed 2 (1999 / 20) = ''99.95''" "format_fixed 2 100 = ''100.00''" "format_fixed 1 (1 / 20) = ''0.0''"
  by code_simp+

text \<open>The banner shows the flags, the experiment runs with the values that replace those that are not positive.\<close>

lemma chaos_banner_shows_flags:
  assumes "cf_requests flags = Some n" "n \<le> 0" "cf_concurrency flags = Some c"
  shows "''  Requests       : '' @ itoa n @ '' | Concurrency: '' @ itoa c @ '' workers'' \<in> set (chaos_banner flags)
    \<and> cc_TotalRequests (NewRunner (chaos_main_config flags)) = 50"
  using assms by (simp add: chaos_banner_def chaos_main_config_def NewRunner_def flag_or_def Let_def)

text \<open>A kill and a start of the script name a node the hook knows, so every hook of the experiment runs a command.\<close>

lemma chaos_hooks_run:
  assumes "Hook action nodeID port \<in> set (chaos_script cfg)"
  shows "process_hook join rootDir action nodeID port \<noteq> None \<and> node_args nodeID \<noteq> []"
  using assms by (auto simp: chaos_script_def process_hook_def node_args_def split: if_splits)

text \<open>The last line but one of every report is the verdict.\<close>

lemma chaos_main_verdict:
  assumes "chaos_main event flags d s = Some ls"
  shows "\<exists>sc. run_scorecard (NewRunner (chaos_main_config flags)) d s = Some sc \<and> last (butlast ls) = verdict_line sc"
  using assms by (auto simp: chaos_main_def chaos_report_def butlast_append)

end
