(* ===== verification/Spec2Isabelle.thy ===== *)
theory Spec2Isabelle
  imports Ring_Properties Cache_Properties Health_Properties Rebalance_Properties Node_Properties
  Gateway_Properties Deployment Chaos Url_Keys Cluster_Run Processes
begin

text \<open>
  A verification development for the self-healing cache (repository \<^verbatim>\<open>rushist/SHC\<close>): a mesh of
  in-memory cache nodes in Go with consistent hashing, replication to the next node of the ring,
  failure detection by heartbeats, failover reads, recovery and rebalancing, and hot-key promotion, behind a gateway that reads
  and writes through to a database of taxi trips.

  \<^bold>\<open>The system and its theories.\<close> Paths are under \<^verbatim>\<open>src/backend/internal\<close> unless they start with \<^verbatim>\<open>cmd\<close>
  (under \<^verbatim>\<open>src/backend\<close>) or \<^verbatim>\<open>sdk\<close> (under \<^verbatim>\<open>src\<close>).

  \<^item> \<open>Hash_Ring\<close> (with \<open>Sha256\<close>) models \<^verbatim>\<open>hashing/ring.go\<close>: the sorted slice of tokens, the maps of owners,
    addresses and nodes, \<open>AddNode\<close>, \<open>RemoveNode\<close>, \<open>GetPrimaryNode\<close>, \<open>GetNodes\<close> with \<^verbatim>\<open>sort.Search\<close> written out, and the
    default hash. \<open>Placement\<close> is the contract its clients use (a locale: preference lists, joining,
    leaving); \<open>Ring_Properties\<close> has the properties.
  \<^item> \<open>Cache_Store\<close> models \<^verbatim>\<open>cache/cache.go\<close>; \<open>Ttl_Store\<close> is its contract (a locale: the view of the live entries at a
    time, writes, deletes, invisible housekeeping); \<open>Cache_Properties\<close> has the properties.
  \<^item> \<open>Hotkey\<close> models \<^verbatim>\<open>hotkey/detector.go\<close>; \<open>Access_Window\<close> is its contract (a locale: sliding-window counting).
  \<^item> \<open>Health_Monitor\<close> models \<^verbatim>\<open>health/monitor.go\<close>: members, heartbeats, manual overrides, listeners.
    \<open>Failure_Detector\<close> is its contract (a locale: completeness and accuracy of a timeout detector);
    \<open>Health_Properties\<close> has the properties.
  \<^item> \<open>Replicator\<close> models \<^verbatim>\<open>replication/replicator.go\<close>, \<open>Failover\<close> models \<^verbatim>\<open>failover/router.go\<close>, \<open>Rebalance\<close> models
    \<^verbatim>\<open>rebalancing/rebalance.go\<close> (properties in \<open>Rebalance_Properties\<close>), \<open>Peer_Manager\<close> models \<^verbatim>\<open>cluster/peer.go\<close>.
  \<^item> \<open>Node_Server\<close> models \<^verbatim>\<open>server/server.go\<close>: the composition of all of these into a node, the dispatch and one
    definition per request handler; \<open>Node_Properties\<close> has the properties.
  \<^item> \<open>Taxi_Trip\<close> models the records and the cascade of \<^verbatim>\<open>database/database.go\<close> in double precision. \<open>Trip_Database\<close>
    models \<^verbatim>\<open>database/sqlite.go\<close>, \<^verbatim>\<open>database/postgres.go\<close>, \<open>Open\<close> and the interface \<open>Database\<close>; \<open>Trip_Store\<close> is its contract (a
    locale: a table of records under field edits), interpreted on both drivers and on the interface; \<open>Trip_Properties\<close> has the properties.
  \<^item> \<open>Gateway\<close> models \<^verbatim>\<open>gateway/gateway.go\<close>: construction, dispatch and one definition per request handler, on top of the
    ring, the monitor, the failover router and the database; \<open>Gateway_Properties\<close> has the properties.
  \<^item> \<open>Config\<close> models \<^verbatim>\<open>config/config.go\<close> and the configuration of \<^verbatim>\<open>cmd/router\<close>, with \<^verbatim>\<open>time.ParseDuration\<close> written out;
    \<open>Deployment\<close> models \<^verbatim>\<open>cmd/node\<close> (the server it builds, the recovery at start-up) and relates the processes of a cluster.
  \<^item> \<open>Chaos\<close> models \<^verbatim>\<open>chaos/runner.go\<close>: workers and injected failures as a step relation, and the scorecard.
    \<open>Go_Client\<close> models \<^verbatim>\<open>sdk/go/shc.go\<close>.
  \<^item> \<open>Url_Keys\<close> joins client library, gateway and nodes by the URLs they build: which key the handler on the other side sees.
    \<open>Go_Url\<close> is what \<^verbatim>\<open>net/url\<close> and \<^verbatim>\<open>net/http\<close> do with them (fragments, queries, escapes, refused requests).
  \<^item> \<open>Cluster_Run\<close> puts any number of nodes together: their servers, the messages they have sent each other (never removed, so they
    can be lost, repeated, late and misdirected), crashes and restarts, as an inductive step relation. \<open>Reachability\<close> is the
    contract (a locale) of invariants of such relations.
  \<^item> \<open>Processes\<close> models the three commands \<^verbatim>\<open>cmd/node\<close>, \<^verbatim>\<open>cmd/router\<close> and \<^verbatim>\<open>cmd/chaos\<close> from \<^verbatim>\<open>main\<close> to exit: node and router as state
    machines over their events, with the shutdown; the commands of the process hook and the printed report of the chaos command.
  \<^item> \<open>SHC_Prelude\<close>, \<open>Go_Float\<close>, \<open>Go_Double\<close> and \<open>Go_Strings\<close> hold what the components share of the language and its library: maps,
    integers, time, \<^verbatim>\<open>float64\<close> (rounding of exact results; the whole type with infinities and NaN, its operations, its
    conversions and its scanner), decimal printing, trimming, scanning, the regular expressions of the server.
  \<^item> This theory holds the properties that span components.

  \<^bold>\<open>How state and operations correspond to the code.\<close> A struct is a record with the fields of the
  struct under a prefix, a method is a function of the same name (with the component's name
  before it where two components share a method name) that takes the state and returns the result and the new
  state. A method that holds its mutex from beginning to end is one atomic step;
  of those that do not, \<open>Get\<close> of the cache, \<open>RouteGet\<close> and the heartbeat cycle have separate critical
  sections or take the concurrent state as a second argument, while the pull and the push of keys (\<open>SyncFromPeer\<close>, \<open>RebalanceForNewNode\<close>, the
  dump and the bulk ingestion), which lock the cache and the ring for each access only, are modelled as runs that nothing interrupts; the
  properties of those say what happens when no other request is served meanwhile. Every reading of the clock is an argument. The
  order in which Go visits a map is an argument (constrained by \<open>range_order\<close>), and so is the order in which
  goroutines finish. HTTP exchanges and JSON decoding are arguments (a request is the values its handler reads; how a URL becomes those is \<open>Go_Url\<close>), about which nothing is assumed except,
  in the properties that follow a message from one node to another, that it arrives as it was sent. Errors are
  values (\<open>Inl\<close>), and a run-time panic is one too. Counters are 64-bit words, tokens 32-bit words, durations are
  integers with the wrap-around of \<^verbatim>\<open>int64\<close> written out where the code multiplies.

  \<^bold>\<open>What is shown.\<close>

  \<^item> Ring: lookups return the first distinct owners clockwise of the key; replicas are distinct and registered;
    a join moves keys only to the new node; a leave promotes the replica; no removal panics; and, where tokens of
    two nodes collide, a removal leaves a token without an owner.
  \<^item> Cache: a read returns the last write until it expires under any interleaving; the clean-up removes exactly
    the expired entries; counters and keys add up; listings, lifetimes and versions, with the cases in which
    versions go backwards.
  \<^item> Detector and monitor: exact sliding window; a silent member is suspected and failed on time, a timely one never; one
    cycle judges each peer by its own reply in any order; the node never doubts itself; listeners see linked-up
    changes; and how a manual override is lost.
  \<^item> Replication, failover, rebalancing, peers: exact telemetry; a read succeeds whenever the second owner answers and
    returns only what an owner answered; a dump keeps the entries (but loses the expiry of those in their last
    second); a recovering node adopts what it owns, with its lifetime; a new node is posted exactly the keys that move, as they are.
  \<^item> Node: no request corrupts the state; a write is stored and sent to the second owner, which stores
    the same; a read answers from the live entries.
  \<^item> Database: an edited record stays one that JSON can encode, edits are stored to the cent and the total balances; any sequence of edits
    through the interface refines pure edits of a table; an edit reads back; which driver is opened; and how a failed read or a missing row
    is answered with a made-up record.
  \<^item> Gateway: when a write is acknowledged and by whom; the database row, the cached copies and the reply of an edit agree; trips are
    read through; no request corrupts the state; and the branches that promise more than they do (empty values, deletes,
    the offline branch, the second write to the replica).
  \<^item> Configuration and start-up: seconds and peer lists are read back as written; gateway and nodes agree on the owners of every key; a
    starting node recovers the keys it owns.
  \<^item> Chaos: every experiment ends, its scorecard accounts for every request, and its percentiles are in range.
  \<^item> Processes: nothing a node or a router process meets between start and exit corrupts it; both stop what they started; nothing
    happens after the exit.
  \<^item> System: an acknowledged, replicated write survives the loss of its primary; a crash reroutes the reads; what is written
    through the gateway is read back through it; a cluster serves only values that were written, whatever the network does and
    whichever nodes crash; a joining node is handed its keys; and a late replication message undoes a delete.
  \<^item> Client library and URLs: a key that needs no escape travels from the client to the memory of the node and its value back; a key with
    a separator is cut on the way, and reading or deleting it hits another key.

  \<^bold>\<open>Bounds.\<close> No definition uses fuel: loops are recursion on lists, the binary search, trimming,
  digit printing and the parser of durations have termination proofs; the concurrent experiment is a relation whose every step decreases a
  measure. Statements on the cascade assume amounts and distances up to the limits they name, those on percentiles fewer than \<open>2^46\<close> requests. Statements on whole seconds assume lifetimes below \<open>2^23\<close> seconds (97 days) where the
  \<^verbatim>\<open>float64\<close> fraction matters, \<open>2^53\<close> where it does not, and below \<open>2^63\<close> nanoseconds where the code multiplies. Statements on placement assume that
  no two tokens collide (\<open>ring_exact\<close>), except those that say otherwise.

  \<^bold>\<open>What is not modelled.\<close> Delivery of signals, logging (and the lines \<^verbatim>\<open>cmd/node\<close> and \<^verbatim>\<open>cmd/router\<close> log), running the commands of the process hook, the HTTP
  server loop and header writing, which are input and output; the rendering of times of day; \<^verbatim>\<open>database/sql\<close> and the SQL engines, which are third-party: they are the
  record \<open>sql_driver\<close>, and the properties name the laws they need (\<open>table_driver\<close>: an
  update of a row stores the given columns, a query returns the stored row); and the parts that are not Go (dashboard, deployment, the other client
  libraries). Of \<^verbatim>\<open>float64\<close>, the sign of a zero is not kept and products and sums are rounded one by one (no fused multiply-add);
  a conversion to \<^verbatim>\<open>int\<close> out of range gives the least integer, as on amd64.
\<close>

section \<open>Lemmas\<close>

lemma route_to_replica:
  assumes "ring_exact h" "prefs h key = p # q # rest" "primary_reply env h mon key p = None"
    "GetNodeState q mon' \<noteq> (StateFailed, True)" "readFromNode env 1 (nt_Addr (ring_target h q)) key = Inr res"
  shows "fst (RouteGet env h mon mon' key r) =
    Inr (read_result_of env (ring_target h p) (ring_target h q) True (route_state mon p) res)"
proof -
  have "replica_reply env h mon' key q = Some res" using assms(4,5) by (simp add: replica_reply_def)
  then show ?thesis by (simp add: RouteGet_two [OF ring_exact_sorted [OF assms(1)] assms(2)] assms(3))
qed

section \<open>Properties of the whole system\<close>

text \<open>C1. An acknowledged write survives the loss of its primary: a client writes a key to its
  primary, which answers with a version; the replication message reaches the second owner; that node
  then runs any operations that do not write or delete the key. As long as the lifetime has
  not passed, and however the primary behaves (it is considered suspected or failed, or it does not answer
  with a hit), a routed read returns the value written and the version acknowledged, served by the
  second owner and marked as a failover.\<close>

theorem acknowledged_write_survives_primary_loss:
  assumes ring: "ring_exact h" "prefs h key = p # q # rest" "nt_Addr (ring_target h q) \<noteq> []"
    and primary: "sv_hashRing sp = h" "sc_NodeID (sv_config sp) = p"
    and wr: "q_method rq = ''POST''" "req = set_request_of cd rq" "sr_Key req = key" "TrimSpace key \<noteq> []" "\<not> sr_IsReplica req"
      "0 \<le> sr_TTLSeconds req" "sr_TTLSeconds req \<le> 9223372036" "0 < now"
    and acked: "handleSet cd now rq sp = ((200, BSet ack), outs, sp')" "sp_Version ack \<noteq> 0"
    and delivered: "OutSet addr k v ttl ver \<in> set outs" "q_method rq2 = ''POST''"
      "cd_replicate cd2 (q_body rq2) = Inr (request_of_payload (repl_payload k v ttl ver))" "0 < now2"
      "handleInternalReplicate cd2 now2 rq2 sq = (resp2, sq')" "cache_wf (sv_cache sq)"
    and later: "sv_cache sq2 = cache_run ops (sv_cache sq')" "\<forall>o'\<in>set ops. \<not> op_writes key o' \<and> op_clock_le (gc_get t) o'"
      "sr_TTLSeconds req = 0 \<or> gc_get t \<le> now2 + sr_TTLSeconds req * second"
    and lost: "primary_reply env h mon key p = None" "GetNodeState q mon' \<noteq> (StateFailed, True)"
    and read: "q_method rq3 = ''GET''" "q_query rq3 ''key'' = key"
      "readFromNode env 1 (nt_Addr (ring_target h q)) key = wire_reply (fst (handleGet t rq3 sq2))"
  shows "\<exists>rr. fst (RouteGet env h mon mon' key r) = Inr rr \<and> rr_Value rr = sr_Value req \<and> rr_Version rr = sp_Version ack
    \<and> rr_ServedBy rr = q \<and> rr_IsFailover rr \<and> rr_PrimaryNode rr = p"
proof -
  let ?n = "sr_TTLSeconds req"
  have qp: "q \<noteq> p" using ringp.pref_distinct [OF ring(1), of key] ring(2) by auto
  note eq = handleSet_eq [OF _ wr(1,2), of sp now]
  have out: "outs = [OutSet (nt_Addr (ring_target h q)) key (sr_Value req) (ingest_ttl ?n) (sp_Version ack)]"
    using eq acked(1) ring primary wr(3-5) qp by (auto simp: Let_def)
  have msg: "k = key" "v = sr_Value req" "ttl = ?n * second" "ver = sp_Version ack"
    using delivered(1) out ingest_ttl_whole [OF wr(6,7)] by simp_all
  let ?i = "\<lparr>it_Key = key, it_Value = sr_Value req, it_CreatedAt = now2, it_ExpiresAt = (if 0 < ?n then now2 + ?n * second else 0),
      it_Version = sp_Version ack, it_IsReplica = True\<rparr>"
  have sq': "sv_cache sq' = snd (cache_SetWithMetadata now2 key (sr_Value req) (?n * second) (sp_Version ack) True (sv_cache sq))"
    using replicate_cache [OF delivered(2) wr(6,7) delivered(3) [unfolded msg] delivered(5)] by simp
  have wf: "cache_wf (sv_cache sq')" unfolding sq' by (rule wf_set [OF delivered(6)])
  have stored: "cache_view (gc_get t) (sv_cache sq') key = Some ?i"
    using later(3) wr(6) delivered(4) acked(2) by (auto simp: sq' view_set Let_def set_item item_IsExpired_def)
  have "cache_view (gc_get t) (sv_cache sq2) key = Some ?i"
    unfolding later(1) using view_run_other [OF wf later(2)] stored by simp
  from handleGet_hit [OF read(1) _ this [folded read(2)]] obtain hot cnt where
    "fst (handleGet t rq3 sq2) = (200, BGet \<lparr>gp_Status = ''hit'', gp_Key = key, gp_Value = sr_Value req,
      gp_TTLRemaining = item_TTLRemaining (gc_reply t) ?i, gp_Version = sp_Version ack, gp_IsReplica = True, gp_IsHot = hot,
      gp_RequestCount = cnt, gp_NodeID = sc_NodeID (sv_config sq2), gp_Message = []\<rparr>)"
    using read(2) wr(4) by auto
  then have hit: "wire_reply (fst (handleGet t rq3 sq2)) = Inr \<lparr>ng_Status = ''hit'', ng_Key = key, ng_Value = sr_Value req,
      ng_TTLRemaining = item_TTLRemaining (gc_reply t) ?i, ng_Version = sp_Version ack, ng_IsReplica = True, ng_NodeID = sc_NodeID (sv_config sq2)\<rparr>"
    by (simp add: wire_reply_def)
  from route_to_replica [OF ring(1,2) lost read(3) [unfolded hit]] show ?thesis by (auto simp: read_result_of_def)
qed


text \<open>The primary refuses the connection; the replica's address delivers the response \<open>r\<close>.\<close>

definition demo_wire_env :: "response \<Rightarrow> read_env" where
  "demo_wire_env r = \<lparr>fe_newRequest = (\<lambda>_. None), fe_do = (\<lambda>i _. if i = 1 then Inr (200, []) else Inl ''refused''),
     fe_decode = (\<lambda>_. case wire_reply r of Inr g \<Rightarrow> Inr g | Inl _ \<Rightarrow> Inl []), fe_start = 0, fe_end = 0\<rparr>"

lemma demo_wire_read:
  assumes "wire_reply r = Inr g"
  shows "readFromNode (demo_wire_env r) 1 addr key = wire_reply r"
  using assms by (auto simp: readFromNode_def demo_wire_env_def Let_def wire_reply_def split: if_splits resp_body.splits)

definition demo_acked :: "string server" where
  "demo_acked = snd (snd (handleSet (demo_codec demo_req) 5 (demo_request ''POST'' ''k'') (demo_server ''A'' (cache_New 0))))"

definition demo_replica :: "string server" where
  "demo_replica = snd (handleInternalReplicate (demo_codec (request_of_payload (repl_payload ''k'' ''v'' (60 * second) 1))) 6
     (demo_request ''POST'' ''k'') (demo_server ''BB'' (cache_New 0)))"

definition demo_later :: "string server" where
  "demo_later = demo_replica\<lparr>sv_cache := cache_run [OpSet 7 ''z'' ''w'' 0 0 False, OpPurge 8] (sv_cache demo_replica)\<rparr>"

abbreviation demo_times :: get_clock where
  "demo_times \<equiv> \<lparr>gc_get = 9, gc_evict = 9, gc_access = 9, gc_promote = 9, gc_reply = 9\<rparr>"

lemma demo_set_eq:
  "handleSet (demo_codec demo_req) 5 (demo_request ''POST'' ''k'') (demo_server ''A'' (cache_New 0)) =
     ((200, BSet \<lparr>sp_Status = ''stored'', sp_Key = ''k'', sp_NodeID = ''A'', sp_Version = 1, sp_IsReplica = False, sp_ReplicaNode = ''BB''\<rparr>),
      [OutSet ''http://b'' ''k'' ''v'' (60 * second) 1], demo_acked)"
proof -
  let ?q = "demo_request ''POST'' ''k''"
  have "ring_exact (sv_hashRing (demo_server ''A'' (cache_New 0)))" "q_method ?q = ''POST''"
    "demo_req = set_request_of (demo_codec demo_req) ?q" "TrimSpace (sr_Key demo_req) \<noteq> []"
    by (simp_all add: demo_ring_exact demo_request_def demo_set_request [unfolded demo_request_def] demo_req_def trim_k)
  from handleSet_eq [OF this, of 5] show ?thesis
    by (simp add: demo_acked_def)
      (simp add: demo_req_def demo_ring_prefs demo_ring_addrs ingest_ttl_def wrap64_def set_item cache_New_def Let_def)
qed

lemma demo_later_view:
  "cache_view 9 (sv_cache demo_later) ''k'' = Some \<lparr>it_Key = ''k'', it_Value = ''v'', it_CreatedAt = 6, it_ExpiresAt = 6 + 60 * second,
     it_Version = 1, it_IsReplica = True\<rparr>"
proof -
  let ?p = "request_of_payload (repl_payload ''k'' ''v'' (60 * second) 1)" and ?q = "demo_request ''POST'' ''k''"
  have q: "q_method ?q = ''POST''" "cd_replicate (demo_codec ?p) (q_body ?q) = Inr ?p" by (simp_all add: demo_request_def demo_codec_def)
  have c: "sv_cache demo_replica = snd (cache_SetWithMetadata 6 ''k'' ''v'' (60 * second) 1 True (cache_New 0))"
    using replicate_cache [OF q(1) _ _ q(2) prod.collapse [symmetric], of 6 "demo_server ''BB'' (cache_New 0)"] by (simp add: demo_replica_def)
  have wf: "cache_wf (sv_cache demo_replica)" unfolding c by (rule wf_set [OF wf_New])
  have "cache_view 9 (sv_cache demo_later) ''k'' = cache_view 9 (sv_cache demo_replica) ''k''"
    unfolding demo_later_def by (simp add: view_run_other [OF wf] del: cache_run.simps)
  then show ?thesis by (simp add: c view_set Let_def set_item item_IsExpired_def)
qed

theorem acknowledged_write_survives_primary_loss_witness:
  "\<exists>rr. fst (RouteGet (demo_wire_env (fst (handleGet demo_times (demo_request ''GET'' ''k'') demo_later))) demo_ring demo_idle_monitor demo_idle_monitor ''k'' (NewRouter 0)) = Inr rr
     \<and> rr_Value rr = ''v'' \<and> rr_Version rr = 1 \<and> rr_ServedBy rr = ''BB'' \<and> rr_IsFailover rr \<and> rr_PrimaryNode rr = ''A''"
proof -
  let ?env = "demo_wire_env (fst (handleGet demo_times (demo_request ''GET'' ''k'') demo_later))"
  let ?p = "request_of_payload (repl_payload ''k'' ''v'' (60 * second) 1)" and ?q = "demo_request ''POST'' ''k''" and ?g = "demo_request ''GET'' ''k''"
  have q: "q_method ?q = ''POST''" "demo_req = set_request_of (demo_codec demo_req) ?q" "sr_Key demo_req = ''k''" "TrimSpace ''k'' \<noteq> []"
    "\<not> sr_IsReplica demo_req" "0 \<le> sr_TTLSeconds demo_req" "sr_TTLSeconds demo_req \<le> 9223372036" "0 < (5 :: int)"
    by (simp_all add: demo_request_def demo_set_request [unfolded demo_request_def] demo_req_def trim_k)
  have g: "q_method ?g = ''GET''" "q_query ?g ''key'' = ''k''" "TrimSpace (q_query ?g ''key'') \<noteq> []"
    and wire: "cd_replicate (demo_codec ?p) (q_body ?q) = Inr ?p" by (simp_all add: demo_request_def trim_k demo_codec_def)
  from handleGet_hit [OF g(1,3), of demo_times demo_later] g(2) demo_later_view
  obtain hot n where "fst (handleGet demo_times ?g demo_later) = (200, BGet \<lparr>gp_Status = ''hit'', gp_Key = ''k'', gp_Value = ''v'',
      gp_TTLRemaining = item_TTLRemaining 9 \<lparr>it_Key = ''k'', it_Value = ''v'', it_CreatedAt = 6, it_ExpiresAt = 6 + 60 * second, it_Version = 1, it_IsReplica = True\<rparr>,
      gp_Version = 1, gp_IsReplica = True, gp_IsHot = hot, gp_RequestCount = n, gp_NodeID = sc_NodeID (sv_config demo_later), gp_Message = []\<rparr>)"
    by auto
  then obtain hit where hit: "wire_reply (fst (handleGet demo_times ?g demo_later)) = Inr hit" by (simp add: wire_reply_def)
  have lost: "primary_reply ?env demo_ring demo_idle_monitor ''k'' ''A'' = None"
    by (simp add: primary_reply_def readFromNode_def demo_wire_env_def)
  have rep: "GetNodeState ''BB'' demo_idle_monitor \<noteq> (StateFailed, True)" "nt_Addr (ring_target demo_ring ''BB'') \<noteq> []"
    by (simp_all add: demo_idle_states demo_ring_addrs)
  have later: "sv_cache demo_later = cache_run [OpSet 7 ''z'' ''w'' 0 0 False, OpPurge 8] (sv_cache demo_replica)"
    "\<forall>o'\<in>set [OpSet 7 ''z'' ''w'' 0 0 False, OpPurge 8]. \<not> op_writes ''k'' o' \<and> op_clock_le (gc_get demo_times) o'"
    "sr_TTLSeconds demo_req = 0 \<or> gc_get demo_times \<le> 6 + sr_TTLSeconds demo_req * second"
    by (simp_all add: demo_later_def demo_req_def)
  have run: "handleInternalReplicate (demo_codec ?p) 6 ?q (demo_server ''BB'' (cache_New 0)) =
      (fst (handleInternalReplicate (demo_codec ?p) 6 ?q (demo_server ''BB'' (cache_New 0))), demo_replica)" by (simp add: demo_replica_def)
  show ?thesis
    using acknowledged_write_survives_primary_loss [OF demo_ring_exact demo_ring_prefs rep(2) demo_server_simps(2) demo_server_simps(4) q demo_set_eq _ _ q(1) wire
      _ run _ later lost rep(1) g(1,2) demo_wire_read [OF hit], where r = "NewRouter 0"]
    by (simp add: demo_req_def wf_New)
qed

text \<open>C32. A delete can be undone by a late message: deletes leave no trace, and nothing compares versions. A client writes a key to its
  primary and deletes it there; the delete is acknowledged and reaches the replica. If the replication message of the write arrives after
  that, the replica stores the deleted value again; and since a miss of the primary counts as a failed read, a routed read returns
  that value, with both owners alive.\<close>

theorem deleted_value_returns:
  assumes ring: "ring_exact h" "prefs h key = p # q # rest" "nt_Addr (ring_target h q) \<noteq> []"
    and primary: "sv_hashRing sp = h" "sc_NodeID (sv_config sp) = p"
    and wr: "q_method rq = ''POST''" "req = set_request_of cd rq" "sr_Key req = key" "TrimSpace key \<noteq> []" "\<not> sr_IsReplica req"
      "0 \<le> sr_TTLSeconds req" "sr_TTLSeconds req \<le> 9223372036"
    and acked: "handleSet cd now rq sp = ((200, BSet ack), outs, sp1)" "sp_Version ack \<noteq> 0"
    and deleted: "q_method rd = ''DELETE''" "q_query rd ''key'' = key" "handleDelete cd1 rd sp1 = (resp1, outs1, sp2)"
      "q_method rd2 = ''DELETE''" "q_query rd2 ''key'' = key" "handleInternalReplicateDelete rd2 sq = (resp2, sq1)"
    and late: "OutSet addr k v ttl ver \<in> set outs" "q_method rq2 = ''POST''"
      "cd_replicate cd2 (q_body rq2) = Inr (request_of_payload (repl_payload k v ttl ver))" "0 < now2"
      "handleInternalReplicate cd2 now2 rq2 sq1 = (resp3, sq2)"
      "sr_TTLSeconds req = 0 \<or> gc_get t2 \<le> now2 + sr_TTLSeconds req * second"
    and alive: "GetNodeState p mon = (StateAlive, True)" "GetNodeState q mon' = (StateAlive, True)"
    and read: "q_method r1 = ''GET''" "q_query r1 ''key'' = key" "q_method r2 = ''GET''" "q_query r2 ''key'' = key"
      "readFromNode env 0 (nt_Addr (ring_target h p)) key = wire_reply (fst (handleGet t1 r1 sp2))"
      "readFromNode env 1 (nt_Addr (ring_target h q)) key = wire_reply (fst (handleGet t2 r2 sq2))"
  shows "fst resp1 = 200 \<and> fst resp2 = 200 \<and> OutDelete (nt_Addr (ring_target h q)) key \<in> set outs1
    \<and> (\<forall>t. cache_view t (sv_cache sp2) key = None \<and> cache_view t (sv_cache sq1) key = None)
    \<and> (\<exists>rr. fst (RouteGet env h mon mon' key r) = Inr rr \<and> rr_Value rr = sr_Value req \<and> rr_Version rr = sp_Version ack
        \<and> rr_ServedBy rr = q \<and> rr_IsFailover rr \<and> rr_PrimaryState rr = StateAlive)"
proof (intro conjI allI)
  let ?n = "sr_TTLSeconds req"
  have qp: "q \<noteq> p" using ringp.pref_distinct [OF ring(1), of key] ring(2) by auto
  note eq = handleSet_eq [OF ring(1) [folded primary(1)] wr(1,2), of now, unfolded acked(1)]
  have out: "outs = [OutSet (nt_Addr (ring_target h q)) key (sr_Value req) (?n * second) (sp_Version ack)]"
    and sp1: "sp1 = sp\<lparr>sv_cache := snd (set_result now req sp)\<rparr>"
    using eq ring(2,3) primary wr(3-5) qp ingest_ttl_whole [OF wr(6,7)] by (auto simp: Let_def)
  have msg: "k = key" "v = sr_Value req" "ttl = ?n * second" "ver = sp_Version ack" using late(1) out by simp_all
  have key: "key \<noteq> []" using wr(4) trim_k(2) by auto
  have present: "map_of (c_items (sv_cache sp1)) key \<noteq> None" by (simp add: sp1 set_state wr(3))
  have c1: "sv_cache sp2 = snd (cache_Delete key (sv_cache sp1))" and c2: "sv_cache sq1 = snd (cache_Delete key (sv_cache sq))"
    using deleted key wr(4) by (auto simp: handleDelete_def handleInternalReplicateDelete_def Let_def case_prod_unfold)
  have nodes: "ring_GetNodes (sv_hashRing sp1) key 2 = Inr [ring_target h p, ring_target h q]"
    using GetNodes_prefs [OF ring_exact_sorted [OF ring(1)], of key 2] ring(2) by (auto simp: sp1 primary prefs_def clockwise_def)
  show "fst resp1 = 200" "OutDelete (nt_Addr (ring_target h q)) key \<in> set outs1"
    using deleted(1-3) key wr(4) ring(3) qp present nodes by (auto simp: handleDelete_def Let_def case_prod_unfold cache_Delete_def sp1 primary split: option.splits)
  show "fst resp2 = 200" using deleted(4-6) key by (auto simp: handleInternalReplicateDelete_def Let_def)
  show none: "cache_view t (sv_cache sp2) key = None" "cache_view t (sv_cache sq1) key = None" for t
    by (simp_all add: c1 c2 view_delete)
  have miss: "wire_reply (fst (handleGet t1 r1 sp2)) = Inl (ReadStatus 404)"
    using read(1,2) wr(4) none(1) get_result [of "gc_get t1" "gc_evict t1" key "sv_cache sp2"]
    by (simp add: handleGet_def Let_def case_prod_unfold wire_reply_def)
  let ?i = "\<lparr>it_Key = key, it_Value = sr_Value req, it_CreatedAt = now2, it_ExpiresAt = (if 0 < ?n then now2 + ?n * second else 0),
      it_Version = sp_Version ack, it_IsReplica = True\<rparr>"
  have "sv_cache sq2 = snd (cache_SetWithMetadata now2 key (sr_Value req) (?n * second) (sp_Version ack) True (sv_cache sq1))"
    using replicate_cache [OF late(2) wr(6,7) late(3) [unfolded msg] late(5)] by simp
  then have "cache_view (gc_get t2) (sv_cache sq2) (q_query r2 ''key'') = Some ?i"
    using late(4,6) wr(6) acked(2) by (auto simp: read(4) view_set Let_def set_item item_IsExpired_def)
  from handleGet_hit [OF read(3) _ this] read(4) wr(4) obtain res where
    res: "wire_reply (fst (handleGet t2 r2 sq2)) = Inr res" "ng_Value res = sr_Value req" "ng_Version res = sp_Version ack"
    by (auto simp: wire_reply_def)
  have lost: "primary_reply env h mon key p = None" by (simp add: primary_reply_def read(5) miss)
  have "GetNodeState q mon' \<noteq> (StateFailed, True)" by (simp add: alive(2))
  from route_to_replica [OF ring(1,2) lost this read(6) [unfolded res(1)], of r] res(2,3) alive(1)
  show "\<exists>rr. fst (RouteGet env h mon mon' key r) = Inr rr \<and> rr_Value rr = sr_Value req \<and> rr_Version rr = sp_Version ack
      \<and> rr_ServedBy rr = q \<and> rr_IsFailover rr \<and> rr_PrimaryState rr = StateAlive"
    by (simp add: read_result_of_def route_state_def)
qed

definition demo_deleted :: "string server" where
  "demo_deleted = snd (snd (handleDelete (demo_codec demo_req) (demo_request ''DELETE'' ''k'') demo_acked))"

definition demo_revived :: "string server" where
  "demo_revived = snd (handleInternalReplicate (demo_codec (request_of_payload (repl_payload ''k'' ''v'' (60 * second) 1))) 6 (demo_request ''POST'' ''k'')
     (snd (handleInternalReplicateDelete (demo_request ''DELETE'' ''k'') (demo_server ''BB'' (cache_New 0)))))"

definition demo_both_alive :: "string monitor" where
  "demo_both_alive = demo_idle_monitor\<lparr>m_members := [(''A'', new_member ''A'' ''http://a'' 0), (''BB'', new_member ''BB'' ''http://b'' 0)]\<rparr>"

text \<open>A network on which the primary misses and the replica answers \<open>r\<close>.\<close>

definition demo_miss_env :: "response \<Rightarrow> read_env" where
  "demo_miss_env r = (demo_wire_env r)\<lparr>fe_do := (\<lambda>n url. if n = 1 then Inr (200, []) else Inr (404, []))\<rparr>"

lemma demo_miss_read:
  "readFromNode (demo_miss_env r) 0 addr key = Inl (ReadStatus 404)"
  "wire_reply r = Inr g \<Longrightarrow> readFromNode (demo_miss_env r) 1 addr key = wire_reply r"
  by (auto simp: readFromNode_def demo_miss_env_def demo_wire_env_def Let_def wire_reply_def split: if_splits resp_body.splits)

lemma demo_revived_view:
  "cache_view 9 (sv_cache demo_revived) ''k'' = Some \<lparr>it_Key = ''k'', it_Value = ''v'', it_CreatedAt = 6, it_ExpiresAt = 6 + 60 * second,
     it_Version = 1, it_IsReplica = True\<rparr>"
proof -
  let ?p = "request_of_payload (repl_payload ''k'' ''v'' (60 * second) 1)" and ?q = "demo_request ''POST'' ''k''"
  have q: "q_method ?q = ''POST''" "cd_replicate (demo_codec ?p) (q_body ?q) = Inr ?p" by (simp_all add: demo_request_def demo_codec_def)
  have "sv_cache (snd (handleInternalReplicate (demo_codec ?p) 6 ?q s)) = snd (cache_SetWithMetadata 6 ''k'' ''v'' (60 * second) 1 True (sv_cache s))"
    for s :: "string server"
    using replicate_cache [OF q(1) _ _ q(2) prod.collapse [symmetric], of 6 s] by simp
  then show ?thesis by (simp add: demo_revived_def view_set Let_def set_item item_IsExpired_def)
qed

theorem deleted_value_returns_witness:
  "cache_view 9 (sv_cache demo_deleted) ''k'' = None
     \<and> (\<exists>rr. fst (RouteGet (demo_miss_env (fst (handleGet demo_times (demo_request ''GET'' ''k'') demo_revived))) demo_ring demo_both_alive demo_both_alive ''k''
           (NewRouter 0)) = Inr rr \<and> rr_Value rr = ''v'' \<and> rr_ServedBy rr = ''BB'' \<and> rr_PrimaryState rr = StateAlive)"
proof -
  let ?p = "request_of_payload (repl_payload ''k'' ''v'' (60 * second) 1)" and ?q = "demo_request ''POST'' ''k''" and ?g = "demo_request ''GET'' ''k''"
  let ?d = "demo_request ''DELETE'' ''k''" and ?sq = "demo_server ''BB'' (cache_New 0)"
  let ?env = "demo_miss_env (fst (handleGet demo_times ?g demo_revived))"
  have q: "q_method ?q = ''POST''" "demo_req = set_request_of (demo_codec demo_req) ?q" "sr_Key demo_req = ''k''" "TrimSpace ''k'' \<noteq> []"
    "\<not> sr_IsReplica demo_req" "0 \<le> sr_TTLSeconds demo_req" "sr_TTLSeconds demo_req \<le> 9223372036"
    by (simp_all add: demo_request_def demo_set_request [unfolded demo_request_def] demo_req_def trim_k)
  have g: "q_method ?g = ''GET''" "q_query ?g ''key'' = ''k''" "TrimSpace (q_query ?g ''key'') \<noteq> []" and d: "q_method ?d = ''DELETE''" "q_query ?d ''key'' = ''k''"
    and wire: "cd_replicate (demo_codec ?p) (q_body ?q) = Inr ?p" by (simp_all add: demo_request_def trim_k demo_codec_def)
  obtain resp1 outs1 where del: "handleDelete (demo_codec demo_req) ?d demo_acked = (resp1, outs1, demo_deleted)"
    unfolding demo_deleted_def by (metis prod.collapse)
  obtain resp2 sq1 where del2: "handleInternalReplicateDelete ?d ?sq = (resp2, sq1)" by fastforce
  then obtain resp3 where late: "handleInternalReplicate (demo_codec ?p) 6 ?q sq1 = (resp3, demo_revived)"
    unfolding demo_revived_def by (metis prod.collapse snd_conv)
  have states: "GetNodeState ''A'' demo_both_alive = (StateAlive, True)" "GetNodeState ''BB'' demo_both_alive = (StateAlive, True)"
    by (simp_all add: GetNodeState_def demo_both_alive_def new_member_def)
  have view: "cache_view (gc_get demo_times) (sv_cache demo_revived) (q_query ?g ''key'') = Some \<lparr>it_Key = ''k'', it_Value = ''v'', it_CreatedAt = 6,
      it_ExpiresAt = 6 + 60 * second, it_Version = 1, it_IsReplica = True\<rparr>" by (simp add: g(2) demo_revived_view)
  obtain hit where hit: "wire_reply (fst (handleGet demo_times ?g demo_revived)) = Inr hit"
    using handleGet_hit [OF g(1,3) view] by (auto simp: wire_reply_def)
  have gone: "cache_view t (sv_cache demo_deleted) ''k'' = None" for t
    using d q(4) by (simp add: demo_deleted_def handleDelete_def Let_def case_prod_unfold view_delete)
  have miss: "readFromNode ?env 0 (nt_Addr (ring_target demo_ring ''A'')) ''k'' = wire_reply (fst (handleGet demo_times ?g demo_deleted))"
    using g gone get_result [of 9 9 "''k''" "sv_cache demo_deleted"]
    by (simp add: demo_miss_read handleGet_def Let_def case_prod_unfold wire_reply_def)
  have addr: "nt_Addr (ring_target demo_ring ''BB'') \<noteq> []" by (simp add: demo_ring_addrs)
  show ?thesis
    using deleted_value_returns [OF demo_ring_exact demo_ring_prefs addr demo_server_simps(2,4) q demo_set_eq _ d del d del2 _ q(1) wire _ late _ states
      g(1,2) g(1,2) miss demo_miss_read(2) [OF hit], where r = "NewRouter 0"]
    by (auto simp: demo_req_def)
qed

text \<open>C9. A crash reroutes the reads without touching the crashed node: once a node has missed its
  pings for \<open>SuspectTimeout\<close>, and no operator has set its state by hand meanwhile, whatever its monitor did about other nodes, every routed read of a
  key it is the primary of returns the hit of the second owner (when that one is not known to have
  failed), and the result does not depend on what the crashed node would answer.\<close>

theorem crash_reroutes_reads:
  assumes run: "mon_steps m ps cs m'" and mem: "map_of (m_members m) p = Some mem"
    and silent: "\<forall>x\<in>set ps. op_answered p x = None \<and> \<not> op_override p x"
    and clock: "sorted (misses (op_missed p) ps)" "misses (op_missed p) ps \<noteq> []"
    and cfg: "0 < hcf_SuspectTimeout (m_config m)" "hcf_SuspectTimeout (m_config m) < 2 ^ 63"
      "0 < hcf_FailTimeout (m_config m)" "hcf_FailTimeout (m_config m) < 2 ^ 63"
    and silence: "hcf_SuspectTimeout (m_config m) \<le> last (misses (op_missed p) ps) - mi_LastSeen mem"
    and ring: "ring_exact h" "prefs h key = p # q # rest"
    and rep: "GetNodeState q mon' \<noteq> (StateFailed, True)" "readFromNode env 1 (nt_Addr (ring_target h q)) key = Inr res"
  shows "\<exists>rr. fst (RouteGet env h m' mon' key r) = Inr rr \<and> rr_ServedBy rr = q \<and> rr_Value rr = ng_Value res
    \<and> rr_IsFailover rr \<and> rr_PrimaryState rr \<in> {StateSuspected, StateFailed}
    \<and> fst (RouteGet (env\<lparr>fe_do := (fe_do env)(0 := f)\<rparr>) h m' mon' key r) = Inr rr"
proof -
  let ?env = "env\<lparr>fe_do := (fe_do env)(0 := f)\<rparr>"
  obtain st where st: "GetNodeState p m' = (st, True)" "st \<in> {StateSuspected, StateFailed}"
    using fd.silent_run [OF silent clock(1), where cfg = "m_config m" and m = mem] clock(2) silence
    by (simp add: GetNodeState_Some [OF steps_member [OF run mem]] detected_state_exact [OF cfg] split: if_splits)
  then have skip: "primary_reply e h m' key p = None" for e by (auto simp: primary_reply_def)
  have fields: "fe_newRequest ?env = fe_newRequest env" "fe_decode ?env = fe_decode env" "fe_do ?env 1 = fe_do env 1" by simp_all
  have same: "readFromNode ?env 1 a key = readFromNode env 1 a key" for a unfolding readFromNode_def fields ..
  have "read_result_of ?env a b fo stt res = read_result_of env a b fo stt res" for a b fo stt by (simp add: read_result_of_def)
  then show ?thesis
    using route_to_replica [OF ring skip rep, of r] route_to_replica [OF ring skip rep(1) same [THEN trans, OF rep(2)], of r] st
    by (simp add: read_result_of_def route_state_def)
qed

theorem crash_reroutes_reads_witness:
  "\<exists>rr. fst (RouteGet demo_read_env demo_ring (snd (mon_apply (MFailure (3 * second) ''A'' ''refused'') demo_watch)) demo_idle_monitor ''k'' (NewRouter 0)) = Inr rr
     \<and> rr_ServedBy rr = ''BB'' \<and> rr_Value rr = ''x'' \<and> rr_IsFailover rr"
proof -
  let ?p = "MFailure (3 * second) ''A'' ''refused''"
  have run: "mon_steps demo_watch [?p] (fst (mon_apply ?p demo_watch)) (snd (mon_apply ?p demo_watch))" by (rule step_one) simp
  have mem: "map_of (m_members demo_watch) ''A'' = Some (new_member ''A'' ''http://a'' 0)" by (simp add: demo_watch_def)
  have cfg: "hcf_SuspectTimeout (m_config demo_watch) = 2 * second" "hcf_FailTimeout (m_config demo_watch) = 4 * second"
    by (simp_all add: demo_watch_def demo_idle_monitor_def NewMonitor_def Let_def)
  have rd: "readFromNode demo_read_env 1 (nt_Addr (ring_target demo_ring ''BB'')) ''k'' = Inr (demo_hit ''x'')"
    by (rule replica_reply_read [OF demo_replies(1)])
  have rep: "GetNodeState ''BB'' demo_idle_monitor \<noteq> (StateFailed, True)" by (simp add: demo_idle_states)
  show ?thesis
    using crash_reroutes_reads [OF run mem _ _ _ _ _ _ _ _ demo_ring_exact demo_ring_prefs rep rd, where r = "NewRouter 0"]
    by (auto simp: cfg new_member_def demo_hit_def)
qed


section \<open>Through the gateway\<close>

text \<open>The request a node decodes from the body of a gateway write: the client's fields, no version, not a replica.\<close>

definition request_of_client :: "client_set_request \<Rightarrow> set_request" where
  "request_of_client r = \<lparr>sr_Key = cs_Key r, sr_Value = cs_Value r, sr_TTLSeconds = cs_TTLSeconds r, sr_Version = 0, sr_IsReplica = False\<rparr>"

text \<open>C3. What a client writes through the gateway it reads back through the gateway: a write is posted to the primary, the node
  there decodes the body and stores it, runs any operations that do not write or delete the key, and while the lifetime has not passed
  a read through a gateway with the same ring, whose monitor has the primary alive, is a cache hit with the value written and the version
  the node acknowledged, served by the primary and not marked as a failover.\<close>

theorem gateway_write_read_back:
  assumes ring: "ring_exact (gw_hashRing g)" "prefs (gw_hashRing g) (cs_Key req) = p # q # rest"
    and wr: "gq_method rq = ''POST''" "gc_set (ge_codec env) (gq_body rq) = Some req" "TrimSpace (cs_Key req) \<noteq> []" "plain_write env req"
      "gc_marshalSet (ge_codec env) req = Inr body" "0 \<le> cs_TTLSeconds req" "cs_TTLSeconds req \<le> 9223372036"
    and up: "GetNodeState p (gw_healthMonitor g) \<noteq> (StateFailed, True)"
      "ge_post env 0 (set_url (nt_Addr (ring_target (gw_hashRing g) p))) body = Inr status"
    and run: "handleAPISet env rq g = (reply, posts, async, g1)"
    and node: "ring_exact (sv_hashRing sp)" "cache_wf (sv_cache sp)" "q_method rq1 = ''POST''" "set_request_of cd rq1 = request_of_client req" "0 < now"
      "handleSet cd now rq1 sp = (resp, outs, sp1)"
    and later: "sv_cache sp2 = cache_run ops (sv_cache sp1)" "\<forall>o'\<in>set ops. \<not> op_writes (cs_Key req) o' \<and> op_clock_le (gc_get t) o'"
      "cs_TTLSeconds req = 0 \<or> gc_get t \<le> now + cs_TTLSeconds req * second"
    and read: "gq_method rq2 = ''GET''" "gq_query rq2 ''key'' = cs_Key req" "cs_Value req \<noteq> []" "q_method rq3 = ''GET''" "q_query rq3 ''key'' = cs_Key req"
      "gw_hashRing g2 = gw_hashRing g1" "GetNodeState p (gw_healthMonitor g2) = (StateAlive, True)"
      "readFromNode (ge_read env2) 0 (nt_Addr (ring_target (gw_hashRing g2) p)) (cs_Key req) = wire_reply (fst (handleGet t rq3 sp2))"
  shows "reply = gw_stored req None p False \<and> (set_url (nt_Addr (ring_target (gw_hashRing g) p)), body) \<in> set posts
    \<and> (\<exists>ack ttl lat. resp = (200, BSet ack)
        \<and> fst (handleAPIGet env2 rq2 g2) = (200, GCacheHit (cs_Key req) (cs_Value req) ttl (sp_Version ack) p False lat))"
proof -
  let ?n = "cs_TTLSeconds req" and ?key = "cs_Key req" and ?r = "request_of_client req"
  have key: "?key \<noteq> []" using wr(3) trim_k(2) by auto
  have wd: "write_dest (gw_healthMonitor g) p q = p" using up(1) by (simp add: write_dest_def)
  have run': "reply = gw_stored req None p False" "(set_url (nt_Addr (ring_target (gw_hashRing g) p)), body) \<in> set posts" "gw_hashRing g1 = gw_hashRing g"
    using handleAPISet_two [OF wr(1,2) key plain_write_through [OF wr(4)] ring wr(5) refl refl, unfolded run wd up(2)] by simp_all
  have r: "sr_Key ?r = ?key" "sr_Value ?r = cs_Value req" "sr_TTLSeconds ?r = ?n" "sr_Version ?r = 0" "\<not> sr_IsReplica ?r"
    by (simp_all add: request_of_client_def)
  let ?i = "fst (set_result now ?r sp)"
  have key': "TrimSpace (sr_Key ?r) \<noteq> []" using wr(3) r(1) by simp
  have acked: "\<exists>ack. resp = (200, BSet ack) \<and> sp_Version ack = it_Version ?i" and sp1: "sv_cache sp1 = snd (set_result now ?r sp)"
    using handleSet_eq [OF node(1,3) node(4) [symmetric] key', of now] node(6) by (simp_all add: Let_def)
  have wf: "cache_wf (sv_cache sp1)" unfolding sp1 by (rule wf_set [OF node(2)])
  have "cache_view (gc_get t) (sv_cache sp1) ?key = Some ?i"
    using later(3) wr(6) node(5) ingest_ttl_whole [OF wr(6,7)] by (auto simp: sp1 view_set Let_def set_item item_IsExpired_def r)
  then have view: "cache_view (gc_get t) (sv_cache sp2) (q_query rq3 ''key'') = Some ?i"
    unfolding later(1) read(5) using view_run_other [OF wf later(2)] by simp
  have i: "it_Key ?i = ?key" "it_Value ?i = cs_Value req" "\<not> it_IsReplica ?i" by (simp_all add: set_item r)
  have key3: "TrimSpace (q_query rq3 ''key'') \<noteq> []" using wr(3) by (simp add: read(5))
  from handleGet_hit [OF read(4) key3 view] i obtain res where
    res: "wire_reply (fst (handleGet t rq3 sp2)) = Inr res" "ng_Value res = cs_Value req" "ng_Version res = it_Version ?i"
    by (auto simp: wire_reply_def)
  have ring2: "ring_exact (gw_hashRing g2)" "prefs (gw_hashRing g2) ?key = p # q # rest" using ring run'(3) read(6) by simp_all
  from gateway_get_primary [OF read(1,2) key ring2 read(7) read(8) [unfolded res(1)]] res read(3) acked run'(1,2) show ?thesis by auto
qed


text \<open>A network on which the response \<open>r\<close> answers every read.\<close>

definition demo_primary_env :: "response \<Rightarrow> read_env" where
  "demo_primary_env r = (demo_wire_env r)\<lparr>fe_do := (\<lambda>_ _. Inr (200, []))\<rparr>"

lemma demo_primary_read:
  assumes "wire_reply r = Inr g"
  shows "readFromNode (demo_primary_env r) i addr key = wire_reply r"
  using assms by (auto simp: readFromNode_def demo_primary_env_def demo_wire_env_def Let_def wire_reply_def split: if_splits resp_body.splits)

lemma demo_acked_view:
  "cache_view 9 (sv_cache demo_acked) ''k'' = Some \<lparr>it_Key = ''k'', it_Value = ''v'', it_CreatedAt = 5, it_ExpiresAt = 5 + 60 * second,
     it_Version = 1, it_IsReplica = False\<rparr>"
proof -
  let ?q = "demo_request ''POST'' ''k''"
  have "ring_exact (sv_hashRing (demo_server ''A'' (cache_New 0)))" "q_method ?q = ''POST''"
    "demo_req = set_request_of (demo_codec demo_req) ?q" "TrimSpace (sr_Key demo_req) \<noteq> []"
    by (simp_all add: demo_ring_exact demo_request_def demo_set_request [unfolded demo_request_def] demo_req_def trim_k)
  from handleSet_eq [OF this, of 5] show ?thesis
    by (simp add: demo_acked_def) (simp add: demo_req_def ingest_ttl_def wrap64_def view_set set_item cache_New_def item_IsExpired_def Let_def)
qed

theorem gateway_write_read_back_witness:
  "let resp = fst (handleGet demo_times (demo_request ''GET'' ''k'') demo_acked);
       env = demo_gw_env demo_set_k (\<lambda>_. True) (demo_primary_env resp)
   in \<exists>ttl lat. fst (handleAPIGet env (demo_gw_request ''GET'' ''k'') (demo_gw\<lparr>gw_healthMonitor := demo_watch\<rparr>))
        = (200, GCacheHit ''k'' ''v'' ttl 1 ''A'' False lat)"
proof -
  let ?e = "demo_gw_env demo_set_k (\<lambda>_. True) demo_read_env" and ?q = "demo_gw_request ''POST'' []" and ?rq1 = "demo_request ''POST'' ''k''"
  let ?g = "demo_request ''GET'' ''k''" and ?sp = "demo_server ''A'' (cache_New 0)"
  let ?e2 = "demo_gw_env demo_set_k (\<lambda>_. True) (demo_primary_env (fst (handleGet demo_times ?g demo_acked)))"
  obtain reply posts async g' where run: "handleAPISet ?e ?q demo_gw = (reply, posts, async, g')" by (metis prod_cases4)
  have plain: "plain_write ?e demo_set_k" by (simp add: plain_write_def row_of_k)
  have q: "gq_method ?q = ''POST''" "gc_set (ge_codec ?e) (gq_body ?q) = Some demo_set_k" "TrimSpace (cs_Key demo_set_k) \<noteq> []"
    "gc_marshalSet (ge_codec ?e) demo_set_k = Inr ''k v''" "ge_post ?e 0 (set_url (nt_Addr (ring_target (gw_hashRing demo_gw) ''A''))) ''k v'' = Inr 200"
    by (simp_all add: demo_gw_request_def demo_gw_env_def trim_k)
  have nodes: "ring_exact (gw_hashRing demo_gw)" "prefs (gw_hashRing demo_gw) (cs_Key demo_set_k) = [''A'', ''BB'', ''CCC'']"
    "ring_exact (sv_hashRing ?sp)" "cache_wf (sv_cache ?sp)" by (simp_all add: demo_ring_exact demo_ring_prefs wf_New)
  have g': "gw_hashRing g' = demo_ring"
    using run handleAPISet_two [OF q(1,2) _ plain_write_through [OF plain] nodes(1,2) q(4) refl refl]
    by (auto split: sum.splits if_splits)
  have rq1: "q_method ?rq1 = ''POST''" "set_request_of (demo_codec demo_req) ?rq1 = request_of_client demo_set_k"
    "q_method ?g = ''GET''" "q_query ?g ''key'' = cs_Key demo_set_k"
    by (simp_all add: demo_request_def demo_set_request [unfolded demo_request_def] demo_req_def request_of_client_def)
  have mon: "GetNodeState ''A'' demo_watch = (StateAlive, True)" "GetNodeState ''A'' (gw_healthMonitor demo_gw) \<noteq> (StateFailed, True)"
    by (simp add: GetNodeState_def demo_watch_def new_member_def, simp add: demo_idle_states)
  obtain hit where hit: "wire_reply (fst (handleGet demo_times ?g demo_acked)) = Inr hit"
    using handleGet_hit [OF rq1(3), of demo_times demo_acked] demo_acked_view rq1(4) q(3) by (auto simp: wire_reply_def)
  have later: "sv_cache demo_acked = cache_run [] (sv_cache demo_acked)" by simp
  show ?thesis
    using gateway_write_read_back [OF nodes(1,2) q(1-3) plain q(4) _ _ mon(2) q(5) run nodes(3,4) rq1(1,2) _ demo_set_eq later _ _ _ _ _ rq1(3,4),
      of demo_times "demo_gw_request ''GET'' ''k''" "demo_gw\<lparr>gw_healthMonitor := demo_watch\<rparr>" ?e2]
      demo_primary_read [OF hit] mon(1) g' by (simp add: demo_gw_request_def [of "''GET''"]) (simp add: demo_gw_env_def Let_def)
qed

text \<open>C37. The second owner of a key is written twice: besides the replication message of the primary, it gets the plain write of the
  gateway, which says neither that it is a replica nor which version the primary gave. After both it holds the value as a
  primary copy, with a version one above the acknowledged one.\<close>

theorem gateway_replica_written_twice:
  assumes ring: "ring_exact (gw_hashRing g)" "prefs (gw_hashRing g) (cs_Key req) = p # q # rest"
    and wr: "gq_method rq = ''POST''" "gc_set (ge_codec env) (gq_body rq) = Some req" "TrimSpace (cs_Key req) \<noteq> []" "plain_write env req"
      "gc_marshalSet (ge_codec env) req = Inr body" "0 \<le> cs_TTLSeconds req" "cs_TTLSeconds req \<le> 9223372036"
    and up: "GetNodeState p (gw_healthMonitor g) \<noteq> (StateFailed, True)"
      "ge_post env 0 (set_url (nt_Addr (ring_target (gw_hashRing g) p))) body = Inr status"
      "nt_Addr (ring_target (gw_hashRing g) q) \<noteq> []" "nt_Addr (ring_target (gw_hashRing g) q) \<noteq> nt_Addr (ring_target (gw_hashRing g) p)"
    and run: "handleAPISet env rq g = (reply, posts, async, g1)"
    and node: "ring_exact (sv_hashRing sq)" "prefs (sv_hashRing sq) (cs_Key req) = p # q # rest" "sc_NodeID (sv_config sq) = q"
    and msg: "q_method rq2 = ''POST''" "cd_replicate cd2 (q_body rq2) = Inr (request_of_payload (repl_payload (cs_Key req) (cs_Value req) (cs_TTLSeconds req * second) ver))"
      "handleInternalReplicate cd2 now2 rq2 sq = (resp2, sq1)" "ver \<noteq> 0"
    and again: "q_method rq3 = ''POST''" "set_request_of cd3 rq3 = request_of_client req" "handleSet cd3 now3 rq3 sq1 = (resp3, outs, sq2)"
  shows "concat (map (run_async (ge_codec env) (gw_hashRing g)) async) = [(set_url (nt_Addr (ring_target (gw_hashRing g) q)), body)] \<and> outs = []
    \<and> (\<exists>i. map_of (c_items (sv_cache sq1)) (cs_Key req) = Some i \<and> it_Version i = ver \<and> it_IsReplica i)
    \<and> (\<exists>i. map_of (c_items (sv_cache sq2)) (cs_Key req) = Some i \<and> it_Value i = cs_Value req \<and> it_Version i = ver + 1 \<and> \<not> it_IsReplica i)"
proof -
  let ?r = "request_of_client req"
  have key: "cs_Key req \<noteq> []" using wr(3) trim_k(2) by auto
  have wd: "write_dest (gw_healthMonitor g) p q = p" using up(1) by (simp add: write_dest_def)
  have async: "async = [AsyncReplicate (nt_Addr (ring_target (gw_hashRing g) q)) body]"
    using handleAPISet_two [OF wr(1,2) key plain_write_through [OF wr(4)] ring wr(5) refl refl, unfolded run wd up(2)] up(3,4) by simp
  have c1: "sv_cache sq1 = snd (cache_SetWithMetadata now2 (cs_Key req) (cs_Value req) (cs_TTLSeconds req * second) ver True (sv_cache sq))"
    using replicate_cache [OF msg(1) wr(6,7) msg(2,3)] by simp
  have same: "sv_hashRing sq1 = sv_hashRing sq" "sv_config sq1 = sv_config sq"
    using msg(1-3) by (auto simp: handleInternalReplicate_def Let_def case_prod_unfold split: if_splits)
  have r: "sr_Key ?r = cs_Key req" "sr_Value ?r = cs_Value req" "sr_Version ?r = 0" "\<not> sr_IsReplica ?r" by (simp_all add: request_of_client_def)
  have "TrimSpace (sr_Key ?r) \<noteq> []" using wr(3) r(1) by simp
  note eq = handleSet_eq [OF node(1) [folded same(1)] again(1) again(2) [symmetric] this, of now3, unfolded again(3)]
  have "outs = []" using eq node same r by (simp add: Let_def)
  moreover have "\<exists>i. map_of (c_items (sv_cache sq1)) (cs_Key req) = Some i \<and> it_Version i = ver \<and> it_IsReplica i"
    using msg(4) by (simp add: c1 set_state set_item)
  moreover have "\<exists>i. map_of (c_items (sv_cache sq2)) (cs_Key req) = Some i \<and> it_Value i = cs_Value req \<and> it_Version i = ver + 1 \<and> \<not> it_IsReplica i"
  proof -
    have "sv_cache sq2 = snd (set_result now3 ?r sq1)" using eq by simp
    then show ?thesis using msg(4) by (simp add: set_state [of now3] set_item [of now3] r c1) (simp add: set_state set_item)
  qed
  ultimately show ?thesis by (simp add: async run_async_def)
qed


theorem gateway_replica_written_twice_witness:
  "\<exists>sq2 i. snd (snd (handleSet (demo_codec demo_req) 7 (demo_request ''POST'' ''k'') demo_replica)) = sq2
     \<and> map_of (c_items (sv_cache sq2)) ''k'' = Some i \<and> it_Version i = 2 \<and> \<not> it_IsReplica i"
proof -
  let ?e = "demo_gw_env demo_set_k (\<lambda>_. True) demo_read_env" and ?q = "demo_gw_request ''POST'' []" and ?rq = "demo_request ''POST'' ''k''"
  let ?sq = "demo_server ''BB'' (cache_New 0)" and ?p = "request_of_payload (repl_payload ''k'' ''v'' (60 * second) 1)"
  obtain reply posts async g' where run: "handleAPISet ?e ?q demo_gw = (reply, posts, async, g')" by (metis prod_cases4)
  obtain resp outs sq2 where set: "handleSet (demo_codec demo_req) 7 ?rq demo_replica = (resp, outs, sq2)" by (metis prod_cases3)
  have plain: "plain_write ?e demo_set_k" by (simp add: plain_write_def row_of_k)
  have q: "gq_method ?q = ''POST''" "gc_set (ge_codec ?e) (gq_body ?q) = Some demo_set_k" "TrimSpace (cs_Key demo_set_k) \<noteq> []"
    "gc_marshalSet (ge_codec ?e) demo_set_k = Inr ''k v''" "ge_post ?e 0 (set_url (nt_Addr (ring_target (gw_hashRing demo_gw) ''A''))) ''k v'' = Inr 200"
    by (simp_all add: demo_gw_request_def demo_gw_env_def trim_k)
  have nodes: "ring_exact (gw_hashRing demo_gw)" "prefs (gw_hashRing demo_gw) (cs_Key demo_set_k) = [''A'', ''BB'', ''CCC'']"
    "ring_exact (sv_hashRing ?sq)" "prefs (sv_hashRing ?sq) (cs_Key demo_set_k) = [''A'', ''BB'', ''CCC'']" "sc_NodeID (sv_config ?sq) = ''BB''"
    by (simp_all add: demo_ring_exact demo_ring_prefs)
  have up: "GetNodeState ''A'' (gw_healthMonitor demo_gw) \<noteq> (StateFailed, True)" "nt_Addr (ring_target (gw_hashRing demo_gw) ''BB'') \<noteq> []"
    "nt_Addr (ring_target (gw_hashRing demo_gw) ''BB'') \<noteq> nt_Addr (ring_target (gw_hashRing demo_gw) ''A'')"
    by (simp_all add: demo_idle_states demo_ring_addrs)
  have rq: "q_method ?rq = ''POST''" "set_request_of (demo_codec demo_req) ?rq = request_of_client demo_set_k"
    by (simp_all add: demo_request_def demo_set_request [unfolded demo_request_def] demo_req_def request_of_client_def)
  have msg: "cd_replicate (demo_codec ?p) (q_body ?rq) = Inr (request_of_payload (repl_payload (cs_Key demo_set_k) (cs_Value demo_set_k) (cs_TTLSeconds demo_set_k * second) 1))"
    "handleInternalReplicate (demo_codec ?p) 6 ?rq ?sq = (fst (handleInternalReplicate (demo_codec ?p) 6 ?rq ?sq), demo_replica)" "(1 :: u64) \<noteq> 0"
    by (simp_all add: demo_codec_def demo_replica_def)
  show ?thesis
    using gateway_replica_written_twice [OF nodes(1,2) q(1-3) plain q(4) _ _ up(1) q(5) up(2,3) run nodes(3-5) rq(1) msg rq set] set by auto
qed

end
